(* ===== verification/Prelude.thy ===== *)
theory Prelude
  imports Main "HOL-Library.Word" "HOL-Library.State_Monad"
begin

section \<open>Shared types, wrap-around and lists\<close>

text \<open>
  Shared by every component: the widths of the C types of the target (a 32-bit little-endian
  ARM, where \<^verbatim>\<open>int\<close>, \<^verbatim>\<open>unsigned int\<close>, \<^verbatim>\<open>long\<close> and pointers have 32 bits), the error numbers the
  drivers return, the wrap-around of signed arithmetic, and the lemmas on lists, words and the
  state monad that the component proofs use through the collections below.
\<close>

named_theorems drv_simps \<open>one-step execution rules of the driver monad\<close>
named_theorems ghost_simps \<open>evaluation of the resource and access monitor on a trace\<close>

unbundle bit_operations_syntax

type_synonym u8 = "8 word"
type_synonym u16 = "16 word"
type_synonym u32 = "32 word"
type_synonym u64 = "64 word"

abbreviation (input) NULL :: u32 where "NULL \<equiv> 0"

abbreviation (input) EIO :: u32 where "EIO \<equiv> 5"
abbreviation (input) EAGAIN :: u32 where "EAGAIN \<equiv> 11"
abbreviation (input) ENOMEM :: u32 where "ENOMEM \<equiv> 12"
abbreviation (input) EBUSY :: u32 where "EBUSY \<equiv> 16"
abbreviation (input) EINVAL :: u32 where "EINVAL \<equiv> 22"

subsection \<open>Signed 32-bit arithmetic on int\<close>

text \<open>\<open>wrap32\<close> is the value a 32-bit two's complement register holds.\<close>

definition wrap32 :: "int \<Rightarrow> int" where
  "wrap32 i = signed_take_bit 31 i"

definition in_s32 :: "int \<Rightarrow> bool" where
  "in_s32 i \<longleftrightarrow> - 2147483648 \<le> i \<and> i < 2147483648"

text \<open>C division truncates towards zero.\<close>

definition c_div :: "int \<Rightarrow> int \<Rightarrow> int" where
  "c_div a b = sgn a * sgn b * (\<bar>a\<bar> div \<bar>b\<bar>)"

lemma wrap32_id [simp]: "in_s32 i \<Longrightarrow> wrap32 i = i"
  unfolding wrap32_def in_s32_def by (rule signed_take_bit_int_eq_self) simp_all

lemma in_s32_wrap32 [simp, intro]: "in_s32 (wrap32 i)"
  unfolding wrap32_def in_s32_def
  using signed_take_bit_int_greater_eq_minus_exp [of 31 i] signed_take_bit_int_less_exp [of 31 i]
  by simp

lemma wrap32_sint: "wrap32 i = sint (word_of_int i :: u32)"
  by (simp add: wrap32_def sint_sbintrunc')

lemma c_div_nonneg: "0 \<le> a \<Longrightarrow> 0 < b \<Longrightarrow> c_div a b = a div b"
  by (cases "a = 0") (auto simp: c_div_def)

lemma c_div_one [simp]: "c_div a 1 = a"
  by (simp add: c_div_def sgn_mult_abs)

subsection \<open>Single bits\<close>

lemma and_push_bit_one: "(v AND push_bit n 1 \<noteq> (0 :: u32)) = bit v n"
  by (simp add: push_bit_of_1 and_exp_eq_0_iff_not_bit)

subsection \<open>Lists\<close>

fun drop_first :: "('a \<Rightarrow> bool) \<Rightarrow> 'a list \<Rightarrow> 'a list" where
  "drop_first P [] = []"
| "drop_first P (x # xs) = (if P x then xs else x # drop_first P xs)"

lemma set_drop_first_subset: "set (drop_first P xs) \<subseteq> set xs"
  by (induction xs) auto

lemma drop_first_id: "\<not> list_ex P xs \<Longrightarrow> drop_first P xs = xs"
  by (induction xs) auto

lemma drop_first_none [simp]: "drop_first (\<lambda>_. False) xs = xs"
  by (induction xs) auto

subsection \<open>The driver monad\<close>

text \<open>
  A driver operation is a value of the library's state monad. \<open>modify\<close> and \<open>gets\<close> are the
  assignments and reads of the driver's static variables.
\<close>

definition modify :: "('s \<Rightarrow> 's) \<Rightarrow> ('s, unit) state" where
  "modify f = State (\<lambda>s. ((), f s))"

definition gets :: "('s \<Rightarrow> 'a) \<Rightarrow> ('s, 'a) state" where
  "gets f = State (\<lambda>s. (f s, s))"

abbreviation ret :: "'a \<Rightarrow> ('s, 'a) state" where
  "ret \<equiv> State_Monad.return"

abbreviation skip :: "('s, unit) state" where
  "skip \<equiv> State_Monad.return ()"

lemma run_modify [simp]: "run_state (modify f) s = ((), f s)"
  by (simp add: modify_def)

lemma run_gets [simp]: "run_state (gets f) s = (f s, s)"
  by (simp add: gets_def)

lemma run_if [simp]: "run_state (if b then m else n) s = (if b then run_state m s else run_state n s)"
  by simp

lemma bind_if [simp]:
  "State_Monad.bind (if b then m else n) f = (if b then State_Monad.bind m f else State_Monad.bind n f)"
  by simp

text \<open>Execution of a C \<^verbatim>\<open>for\<close> loop over a fixed table: one command per element.\<close>

fun each :: "('a \<Rightarrow> ('s, unit) state) \<Rightarrow> 'a list \<Rightarrow> ('s, unit) state" where
  "each f [] = skip"
| "each f (x # xs) = do { f x; each f xs }"

end
