(* ===== verification/Kernel.thy ===== *)
theory Kernel
  imports Prelude
begin

section \<open>The kernel and the hardware as an environment\<close>

text \<open>
  The drivers call the Linux kernel and read device registers; neither is part of the
  repository. Both are a parameter \<open>env\<close> of the model: the answer to the \<open>n\<close>-th request is
  \<open>env n q\<close>, an arbitrary value. Every request and every register write is recorded in the
  trace, so the order, the arguments and the results of all interactions are observable, and
  what a driver relies on is a hypothesis on those answers.

  On top of the trace a monitor (\<open>held\<close>, \<open>viol\<close>) keeps the resources a driver holds and the
  events that break the rules of the kernel interface: releasing what is not held, touching a
  register outside every live mapping, using an object that is not allocated. The locale
  \<open>kmodule\<close> is the contract between a module's init and exit functions.
\<close>

subsection \<open>Requests, events, the world\<close>

text \<open>
  Arguments: numbers and pointers, string literals, symbolic constants of kernel headers
  (IRQ numbers, key codes, function pointers), pointers to C objects with their size, the
  bytes a pointer designates, and device numbers \<^verbatim>\<open>MKDEV(major, minor)\<close>.
\<close>

datatype karg = Num u32 | Str string | Sym string | Obj string nat | Bytes "u8 list" | Dev u32 u32

text \<open>
  \<open>QCall f args\<close> calls a kernel function, \<open>QOut f i\<close> fetches the \<open>i\<close>-th value that the last
  call of \<open>f\<close> stored through a pointer argument, \<open>QRd a\<close> reads a device register.
\<close>

datatype kreq = QCall string "karg list" | QOut string nat | QRd u32

datatype kevent = Ev kreq u32 | Wr u32 u32 | Use u32

type_synonym kenv = "nat \<Rightarrow> kreq \<Rightarrow> u32"

record kworld =
  trace :: "kevent list"

definition emit :: "kevent \<Rightarrow> ('s kworld_scheme, unit) state" where
  "emit e = modify (\<lambda>s. s\<lparr>trace := trace s @ [e]\<rparr>)"

definition ask :: "kenv \<Rightarrow> kreq \<Rightarrow> ('s kworld_scheme, u32) state" where
  "ask env q = State (\<lambda>s. let r = env (length (trace s)) q in (r, s\<lparr>trace := trace s @ [Ev q r]\<rparr>))"

definition call :: "kenv \<Rightarrow> string \<Rightarrow> karg list \<Rightarrow> ('s kworld_scheme, u32) state" where
  "call env f xs = ask env (QCall f xs)"

text \<open>A call whose result the code ignores or that returns \<^verbatim>\<open>void\<close>.\<close>

definition callv :: "kenv \<Rightarrow> string \<Rightarrow> karg list \<Rightarrow> ('s kworld_scheme, unit) state" where
  "callv env f xs = do { _ \<leftarrow> call env f xs; skip }"

definition out :: "kenv \<Rightarrow> string \<Rightarrow> nat \<Rightarrow> ('s kworld_scheme, u32) state" where
  "out env f i = ask env (QOut f i)"

definition rd :: "kenv \<Rightarrow> u32 \<Rightarrow> ('s kworld_scheme, u32) state" where
  "rd env a = ask env (QRd a)"

definition wr :: "u32 \<Rightarrow> u32 \<Rightarrow> ('s kworld_scheme, unit) state" where
  "wr a v = emit (Wr a v)"

text \<open>\<open>use p\<close> marks a dereference of a kernel object through the pointer \<open>p\<close>.\<close>

definition use :: "u32 \<Rightarrow> ('s kworld_scheme, unit) state" where
  "use p = emit (Use p)"

definition printk :: "kenv \<Rightarrow> string \<Rightarrow> ('s kworld_scheme, unit) state" where
  "printk env m = callv env ''printk'' [Str m]"

text \<open>
  \<open>always env f r\<close>: the kernel answers every call of \<open>f\<close> with \<open>r\<close>. Used as a hypothesis for the
  calls a driver relies on while it loads.
\<close>

definition always :: "kenv \<Rightarrow> string \<Rightarrow> u32 \<Rightarrow> bool" where
  "always env f r \<longleftrightarrow> (\<forall>n xs. env n (QCall f xs) = r)"

lemma alwaysD: "always env f r \<Longrightarrow> env n (QCall f xs) = r"
  by (simp add: always_def)

text \<open>\<^verbatim>\<open>*a &= ~m\<close> and \<^verbatim>\<open>*a |= m\<close> on a volatile register: one read, one write.\<close>

definition reg_clear :: "kenv \<Rightarrow> u32 \<Rightarrow> u32 \<Rightarrow> ('s kworld_scheme, unit) state" where
  "reg_clear env a m = do { v \<leftarrow> rd env a; wr a (v AND NOT m) }"

definition reg_set :: "kenv \<Rightarrow> u32 \<Rightarrow> u32 \<Rightarrow> ('s kworld_scheme, unit) state" where
  "reg_set env a m = do { v \<leftarrow> rd env a; wr a (v OR m) }"

subsection \<open>Execution rules\<close>

lemma run_emit [simp]: "run_state (emit e) s = ((), s\<lparr>trace := trace s @ [e]\<rparr>)"
  by (simp add: emit_def)

lemma run_ask [simp]:
  "run_state (ask env q) s =
     (env (length (trace s)) q, s\<lparr>trace := trace s @ [Ev q (env (length (trace s)) q)]\<rparr>)"
  by (simp add: ask_def Let_def)

lemma run_call [simp]:
  "run_state (call env f xs) s =
     (env (length (trace s)) (QCall f xs),
      s\<lparr>trace := trace s @ [Ev (QCall f xs) (env (length (trace s)) (QCall f xs))]\<rparr>)"
  by (simp add: call_def)

lemma run_callv [simp]:
  "run_state (callv env f xs) s =
     ((), s\<lparr>trace := trace s @ [Ev (QCall f xs) (env (length (trace s)) (QCall f xs))]\<rparr>)"
  by (simp add: callv_def)

lemma run_out [simp]:
  "run_state (out env f i) s =
     (env (length (trace s)) (QOut f i),
      s\<lparr>trace := trace s @ [Ev (QOut f i) (env (length (trace s)) (QOut f i))]\<rparr>)"
  by (simp add: out_def)

lemma run_rd [simp]:
  "run_state (rd env a) s =
     (env (length (trace s)) (QRd a), s\<lparr>trace := trace s @ [Ev (QRd a) (env (length (trace s)) (QRd a))]\<rparr>)"
  by (simp add: rd_def)

lemma run_wr [simp]: "run_state (wr a v) s = ((), s\<lparr>trace := trace s @ [Wr a v]\<rparr>)"
  by (simp add: wr_def)

lemma run_use [simp]: "run_state (use p) s = ((), s\<lparr>trace := trace s @ [Use p]\<rparr>)"
  by (simp add: use_def)

lemma run_printk [simp]:
  "run_state (printk env m) s =
     ((), s\<lparr>trace := trace s @
        [Ev (QCall ''printk'' [Str m]) (env (length (trace s)) (QCall ''printk'' [Str m]))]\<rparr>)"
  by (simp add: printk_def)

lemma run_reg_clear [simp]:
  "run_state (reg_clear env a m) s =
     (let v = env (length (trace s)) (QRd a)
      in ((), s\<lparr>trace := trace s @ [Ev (QRd a) v, Wr a (v AND NOT m)]\<rparr>))"
  by (simp add: reg_clear_def Let_def)

lemma run_reg_set [simp]:
  "run_state (reg_set env a m) s =
     (let v = env (length (trace s)) (QRd a)
      in ((), s\<lparr>trace := trace s @ [Ev (QRd a) v, Wr a (v OR m)]\<rparr>))"
  by (simp add: reg_set_def Let_def)

subsection \<open>Resources and accesses\<close>

text \<open>A held resource is the call that acquired it: function, arguments, result.\<close>

type_synonym kres = "string \<times> karg list \<times> u32"

text \<open>
  Which calls acquire, by what their result means: a pointer (not NULL), a number (not
  negative), a status (zero), or no result.
\<close>

definition acq_ptr :: "string list" where
  "acq_ptr = [''class_create'', ''class_device_create'', ''ioremap'', ''kzalloc'',
     ''dma_alloc_writecombine'', ''input_allocate_device'', ''framebuffer_alloc'',
     ''usb_buffer_alloc'', ''usb_alloc_urb'', ''alloc_disk'', ''blk_init_queue'',
     ''alloc_netdev'', ''clk_get'']"

definition acq_nonneg :: "string list" where
  "acq_nonneg = [''register_chrdev'', ''register_blkdev'']"

definition acq_status :: "string list" where
  "acq_status = [''request_irq'', ''input_register_device'', ''usb_register'',
     ''platform_driver_register'', ''platform_device_register'', ''register_framebuffer'',
     ''register_netdev'', ''alloc_chrdev_region'', ''register_chrdev_region'', ''cdev_add'',
     ''i2c_add_driver'', ''i2c_attach_client'', ''add_mtd_partitions'', ''clk_enable'']"

definition acq_void :: "string list" where
  "acq_void = [''add_timer'', ''add_disk'']"

definition acquires :: "string \<Rightarrow> u32 \<Rightarrow> bool" where
  "acquires f r \<longleftrightarrow>
     f \<in> set acq_ptr \<and> r \<noteq> NULL \<or>
     f \<in> set acq_nonneg \<and> 0 \<le> sint r \<or>
     f \<in> set acq_status \<and> r = 0 \<or>
     f \<in> set acq_void"

text \<open>Releases that name the resource by the pointer or number it was returned as.\<close>

definition rel_by_result :: "(string \<times> string) list" where
  "rel_by_result = [(''unregister_chrdev'', ''register_chrdev''),
     (''unregister_blkdev'', ''register_blkdev''), (''class_destroy'', ''class_create''),
     (''class_device_unregister'', ''class_device_create''), (''iounmap'', ''ioremap''),
     (''kfree'', ''kzalloc''), (''input_free_device'', ''input_allocate_device''),
     (''framebuffer_release'', ''framebuffer_alloc''), (''usb_free_urb'', ''usb_alloc_urb''),
     (''put_disk'', ''alloc_disk''), (''blk_cleanup_queue'', ''blk_init_queue''),
     (''free_netdev'', ''alloc_netdev''), (''clk_put'', ''clk_get'')]"

text \<open>Releases that name the resource by the first argument of the acquiring call.\<close>

definition rel_by_arg :: "(string \<times> string) list" where
  "rel_by_arg = [(''input_unregister_device'', ''input_register_device''),
     (''usb_deregister'', ''usb_register''),
     (''platform_driver_unregister'', ''platform_driver_register''),
     (''platform_device_unregister'', ''platform_device_register''),
     (''unregister_framebuffer'', ''register_framebuffer''),
     (''unregister_netdev'', ''register_netdev''), (''cdev_del'', ''cdev_add''),
     (''i2c_del_driver'', ''i2c_add_driver''), (''i2c_detach_client'', ''i2c_attach_client''),
     (''del_mtd_partitions'', ''add_mtd_partitions''), (''del_timer'', ''add_timer''),
     (''del_gendisk'', ''add_disk''), (''clk_disable'', ''clk_enable'')]"

text \<open>
  \<open>rel_target f xs\<close>: the acquiring function and the test on its record that the release
  \<open>f(xs)\<close> undoes, \<open>None\<close> when \<open>f\<close> releases nothing; freeing the null pointer does nothing.
\<close>

definition rel_target :: "string \<Rightarrow> karg list \<Rightarrow> (kres \<Rightarrow> bool) option" where
  "rel_target f xs =
     (case map_of rel_by_result f of
        Some g \<Rightarrow> if f = ''kfree'' \<and> take 1 xs = [Num NULL] then None
                  else Some (\<lambda>(h, ys, r). h = g \<and> xs \<noteq> [] \<and> hd xs = Num r)
      | None \<Rightarrow>
     (case map_of rel_by_arg f of
        Some g \<Rightarrow> Some (\<lambda>(h, ys, r). h = g \<and> take 1 ys = take 1 xs)
      | None \<Rightarrow>
      if f = ''class_device_destroy'' then
        Some (\<lambda>(h, ys, r). h = ''class_device_create'' \<and> [ys ! 0, ys ! 2] = xs)
      else if f = ''free_irq'' then
        Some (\<lambda>(h, ys, r). h = ''request_irq'' \<and> [ys ! 0, ys ! 4] = xs)
      else if f = ''dma_free_writecombine'' then
        Some (\<lambda>(h, ys, r). h = ''dma_alloc_writecombine'' \<and> ys ! 1 = xs ! 1 \<and> xs ! 2 = Num r)
      else if f = ''usb_buffer_free'' then
        Some (\<lambda>(h, ys, r). h = ''usb_buffer_alloc'' \<and> ys ! 1 = xs ! 1 \<and> xs ! 2 = Num r)
      else if f = ''unregister_chrdev_region'' then
        Some (\<lambda>(h, ys, r). h = ''register_chrdev_region'' \<and> take 2 ys = xs \<or>
                           h = ''alloc_chrdev_region'' \<and> ys ! 2 = xs ! 1)
      else None))"

text \<open>
  Releases that also drop the object itself: \<^verbatim>\<open>input_unregister_device\<close> drops the reference of
  the allocation, after which \<^verbatim>\<open>input_free_device\<close> must not be called any more.
\<close>

definition rel_also :: "string \<Rightarrow> karg list \<Rightarrow> kres \<Rightarrow> bool" where
  "rel_also f xs =
     (if f = ''input_unregister_device''
      then (\<lambda>(h, ys, r). h = ''input_allocate_device'' \<and> take 1 xs = [Num r])
      else (\<lambda>_. False))"

definition maps :: "kres \<Rightarrow> u32 \<Rightarrow> bool" where
  "maps res a = (case res of (f, xs, p) \<Rightarrow>
     f = ''ioremap'' \<and> (case xs of [_, Num len] \<Rightarrow> unat p \<le> unat a \<and> unat a + 4 \<le> unat p + unat len
                           | _ \<Rightarrow> False))"

text \<open>The objects that may be dereferenced: allocations that are still held.\<close>

definition allocates :: "kres \<Rightarrow> u32 \<Rightarrow> bool" where
  "allocates res p = (case res of (f, xs, r) \<Rightarrow> r = p \<and>
     f \<in> {''kzalloc'', ''input_allocate_device'', ''framebuffer_alloc'', ''alloc_disk'',
            ''alloc_netdev'', ''usb_alloc_urb''})"

type_synonym ghost = "kres list \<times> kevent list"

fun gstep :: "kevent \<Rightarrow> ghost \<Rightarrow> ghost" where
  "gstep (Ev (QCall f xs) r) (h, v) =
     (case rel_target f xs of
        Some P \<Rightarrow> if list_ex P h then (drop_first (rel_also f xs) (drop_first P h), v)
                  else (h, v @ [Ev (QCall f xs) r])
      | None \<Rightarrow> if acquires f r then ((f, xs, r) # h, v) else (h, v))"
| "gstep (Ev (QOut f i) r) g = g"
| "gstep (Ev (QRd a) r) (h, v) = (if list_ex (\<lambda>x. maps x a) h then (h, v) else (h, v @ [Ev (QRd a) r]))"
| "gstep (Wr a w) (h, v) = (if list_ex (\<lambda>x. maps x a) h then (h, v) else (h, v @ [Wr a w]))"
| "gstep (Use p) (h, v) = (if list_ex (\<lambda>x. allocates x p) h then (h, v) else (h, v @ [Use p]))"

definition ghost :: "kevent list \<Rightarrow> ghost" where
  "ghost tr = fold gstep tr ([], [])"

definition held :: "'s kworld_scheme \<Rightarrow> kres list" where
  "held s = fst (ghost (trace s))"

definition viol :: "'s kworld_scheme \<Rightarrow> kevent list" where
  "viol s = snd (ghost (trace s))"

lemma ghost_append [ghost_simps]: "ghost (tr @ es) = fold gstep es (ghost tr)"
  by (simp add: ghost_def)

text \<open>Two states with one continuation of a trace: the monitor runs from the pair.\<close>

lemma held_viol_cases:
  assumes "trace s' = trace s @ es"
  shows "held s' = fst (fold gstep es (held s, viol s))"
    and "viol s' = snd (fold gstep es (held s, viol s))"
  using assms by (simp_all add: held_def viol_def ghost_append)

lemma ghost_pair: "ghost (trace s) = (held s, viol s)"
  by (simp add: held_def viol_def)

text \<open>What was recorded as a violation stays recorded.\<close>

lemma gstep_viol_mono: "\<exists>w. snd (gstep e g) = snd g @ w"
  by (induction e g rule: gstep.induct) (auto split: option.splits)

lemma fold_gstep_viol_mono: "\<exists>w. snd (fold gstep es g) = snd g @ w"
proof (induction es arbitrary: g)
  case (Cons e es)
  obtain w where "snd (gstep e g) = snd g @ w" using gstep_viol_mono by blast
  moreover obtain w' where "snd (fold gstep es (gstep e g)) = snd (gstep e g) @ w'"
    using Cons.IH by blast
  ultimately show ?case by simp
qed simp

text \<open>Events that neither acquire nor release.\<close>

fun neutral :: "kevent \<Rightarrow> bool" where
  "neutral (Ev (QCall f xs) r) \<longleftrightarrow> rel_target f xs = None \<and> \<not> acquires f r"
| "neutral e \<longleftrightarrow> True"

lemma gstep_neutral: "neutral e \<Longrightarrow> fst (gstep e g) = fst g"
  by (induction e g rule: gstep.induct) auto

lemma fold_gstep_neutral: "list_all neutral es \<Longrightarrow> fst (fold gstep es g) = fst g"
  by (induction es arbitrary: g) (auto simp: gstep_neutral)

lemma held_neutral: "trace s' = trace s @ es \<Longrightarrow> list_all neutral es \<Longrightarrow> held s' = held s"
  by (simp add: held_def ghost_append fold_gstep_neutral)

subsection \<open>Looking into a trace\<close>

text \<open>The last value written to a register, and whether a function was called.\<close>

fun last_wr :: "u32 \<Rightarrow> kevent list \<Rightarrow> u32 option" where
  "last_wr a [] = None"
| "last_wr a (Wr b v # es) = (case last_wr a es of Some w \<Rightarrow> Some w | None \<Rightarrow> if a = b then Some v else None)"
| "last_wr a (_ # es) = last_wr a es"

fun calls :: "string \<Rightarrow> kevent list \<Rightarrow> bool" where
  "calls f [] = False"
| "calls f (Ev (QCall g xs) r # es) = (f = g \<or> calls f es)"
| "calls f (_ # es) = calls f es"

text \<open>The calls of the functions \<open>fs\<close>, in order: what a consumer of these calls is told.\<close>

fun reqs_of :: "string list \<Rightarrow> kevent list \<Rightarrow> kreq list" where
  "reqs_of fs [] = []"
| "reqs_of fs (Ev (QCall f xs) r # es) = (if f \<in> set fs then QCall f xs # reqs_of fs es else reqs_of fs es)"
| "reqs_of fs (_ # es) = reqs_of fs es"

lemma reqs_of_append [simp]: "reqs_of fs (es @ es') = reqs_of fs es @ reqs_of fs es'"
  by (induction fs es rule: reqs_of.induct) simp_all

subsection \<open>Read-write registers\<close>

text \<open>
  \<open>reg_val a v es\<close> is the content of the register \<open>a\<close> after the events \<open>es\<close> when it held \<open>v\<close>
  before; \<open>reads_back a v es\<close> says that every read of \<open>a\<close> in \<open>es\<close> returned that content, the
  documented behaviour of a plain read-write register.
\<close>

fun reg_val :: "u32 \<Rightarrow> u32 \<Rightarrow> kevent list \<Rightarrow> u32" where
  "reg_val a v [] = v"
| "reg_val a v (Wr b w # es) = reg_val a (if b = a then w else v) es"
| "reg_val a v (e # es) = reg_val a v es"

fun reads_back :: "u32 \<Rightarrow> u32 \<Rightarrow> kevent list \<Rightarrow> bool" where
  "reads_back a v [] \<longleftrightarrow> True"
| "reads_back a v (Wr b w # es) \<longleftrightarrow> reads_back a (if b = a then w else v) es"
| "reads_back a v (Ev (QRd b) r # es) \<longleftrightarrow> (b = a \<longrightarrow> r = v) \<and> reads_back a v es"
| "reads_back a v (e # es) \<longleftrightarrow> reads_back a v es"

lemma reg_val_append: "reg_val a v (es @ fs) = reg_val a (reg_val a v es) fs"
  by (induction a v es rule: reg_val.induct) auto

lemma reads_back_append:
  "reads_back a v (es @ fs) \<longleftrightarrow> reads_back a v es \<and> reads_back a (reg_val a v es) fs"
  by (induction a v es rule: reads_back.induct) auto

subsection \<open>The contract of a module\<close>

text \<open>
  A module is loaded by \<open>init\<close>, used through its operations in any order, and unloaded by
  \<open>exit\<close>. \<open>good s\<close> says of the state after \<open>init\<close> that the kernel granted every request;
  \<open>loaded R s\<close> that the module holds its own resources on top of \<open>R\<close>.
\<close>

definition session ::
  "(kenv \<Rightarrow> ('s kworld_scheme, u32) state) \<Rightarrow> (kenv \<Rightarrow> 'o \<Rightarrow> ('s kworld_scheme, u32) state) \<Rightarrow>
   (kenv \<Rightarrow> ('s kworld_scheme, unit) state) \<Rightarrow> kenv \<Rightarrow> 'o list \<Rightarrow> ('s kworld_scheme, unit) state" where
  "session ini opr ext env xs = do { _ \<leftarrow> ini env; each (\<lambda>x. do { _ \<leftarrow> opr env x; skip }) xs; ext env }"

abbreviation exec :: "('s, 'a) state \<Rightarrow> 's \<Rightarrow> 's" where
  "exec m s \<equiv> snd (run_state m s)"

abbreviation result :: "('s, 'a) state \<Rightarrow> 's \<Rightarrow> 'a" where
  "result m s \<equiv> fst (run_state m s)"

lemma exec_bind: "exec (State_Monad.bind m f) s = exec (f (result m s)) (exec m s)"
  by (simp add: split_beta)

lemma result_bind: "result (State_Monad.bind m f) s = result (f (result m s)) (exec m s)"
  by (simp add: split_beta)

text \<open>\<open>keeps f m\<close>: the operation \<open>m\<close> leaves the part \<open>f\<close> of the state alone, whatever the environment answers.\<close>

definition keeps :: "('s \<Rightarrow> 'x) \<Rightarrow> ('s, 'a) state \<Rightarrow> bool" where
  "keeps f m \<longleftrightarrow> (\<forall>s. f (exec m s) = f s)"

lemma keepsD: "keeps f m \<Longrightarrow> f (exec m s) = f s"
  by (simp add: keeps_def)

lemma keeps_bind: "keeps f m \<Longrightarrow> (\<And>a. keeps f (g a)) \<Longrightarrow> keeps f (State_Monad.bind m g)"
  by (simp add: keeps_def split_beta)

lemma keeps_if: "keeps f m \<Longrightarrow> keeps f n \<Longrightarrow> keeps f (if b then m else n)"
  by simp

lemma keeps_ret: "keeps f (ret a)"
  by (simp add: keeps_def)

lemma keeps_gets: "keeps f (gets g)"
  by (simp add: keeps_def)

lemma keeps_modify: "(\<And>s. f (g s) = f s) \<Longrightarrow> keeps f (modify g)"
  by (simp add: keeps_def)

lemma keeps_kernel:
  assumes "\<And>s t. f (s\<lparr>trace := t\<rparr>) = f s"
  shows "keeps f (call env g xs)" "keeps f (callv env g xs)" "keeps f (out env g i)" "keeps f (rd env a)"
    "keeps f (wr a v)" "keeps f (use p)" "keeps f (printk env m)" "keeps f (reg_clear env a v)"
    "keeps f (reg_set env a v)"
  by (simp_all add: keeps_def assms Let_def)

lemmas keeps_rules = keeps_bind keeps_if keeps_ret keeps_gets keeps_modify keeps_kernel

locale kmodule =
  fixes ini :: "kenv \<Rightarrow> ('s kworld_scheme, u32) state"
    and opr :: "kenv \<Rightarrow> 'o \<Rightarrow> ('s kworld_scheme, u32) state"
    and ext :: "kenv \<Rightarrow> ('s kworld_scheme, unit) state"
    and good :: "'s kworld_scheme \<Rightarrow> bool"
    and loaded :: "kres list \<Rightarrow> 's kworld_scheme \<Rightarrow> bool"
  assumes ini_loaded: "good (exec (ini env) s) \<Longrightarrow> loaded (held s) (exec (ini env) s)"
    and opr_loaded: "loaded R s \<Longrightarrow> loaded R (exec (opr env x) s)"
    and ext_unloads: "loaded R s \<Longrightarrow> held (exec (ext env) s) = R"
begin

lemma each_loaded:
  "loaded R s \<Longrightarrow> loaded R (exec (each (\<lambda>x. do { _ \<leftarrow> opr env x; skip }) xs) s)"
proof (induction xs arbitrary: s)
  case (Cons x xs)
  from opr_loaded [OF Cons.prems] show ?case by (simp add: exec_bind Cons.IH del: run_state_bind)
qed simp

lemma session_balanced:
  "good (exec (ini env) s) \<Longrightarrow> held (exec (session ini opr ext env xs) s) = held s"
  by (simp add: session_def exec_bind ini_loaded each_loaded ext_unloads del: run_state_bind)

end

text \<open>A module that moreover never breaks the rules of the kernel interface.\<close>

locale safe_kmodule = kmodule ini opr ext good loaded
  for ini :: "kenv \<Rightarrow> ('s kworld_scheme, u32) state"
    and opr :: "kenv \<Rightarrow> 'o \<Rightarrow> ('s kworld_scheme, u32) state"
    and ext :: "kenv \<Rightarrow> ('s kworld_scheme, unit) state"
    and good :: "'s kworld_scheme \<Rightarrow> bool"
    and loaded :: "kres list \<Rightarrow> 's kworld_scheme \<Rightarrow> bool" +
  assumes ini_viol: "good (exec (ini env) s) \<Longrightarrow> viol (exec (ini env) s) = viol s"
    and opr_viol: "loaded R s \<Longrightarrow> viol (exec (opr env x) s) = viol s"
    and ext_viol: "loaded R s \<Longrightarrow> viol (exec (ext env) s) = viol s"
begin

lemma each_viol:
  "loaded R s \<Longrightarrow> viol (exec (each (\<lambda>x. do { _ \<leftarrow> opr env x; skip }) xs) s) = viol s"
proof (induction xs arbitrary: s)
  case (Cons x xs)
  have "loaded R (exec (opr env x) s)" using Cons.prems by (rule opr_loaded)
  with opr_viol [OF Cons.prems] show ?case by (simp add: exec_bind Cons.IH del: run_state_bind)
qed simp

lemma session_safe:
  assumes "good (exec (ini env) s)"
  shows "viol (exec (session ini opr ext env xs) s) = viol s"
proof -
  let ?s1 = "exec (ini env) s"
  let ?s2 = "exec (each (\<lambda>x. do { _ \<leftarrow> opr env x; skip }) xs) ?s1"
  have l1: "loaded (held s) ?s1" using assms by (rule ini_loaded)
  have "viol (exec (ext env) ?s2) = viol ?s2" using each_loaded [OF l1] by (rule ext_viol)
  also have "\<dots> = viol ?s1" using l1 by (rule each_viol)
  also have "\<dots> = viol s" using assms by (rule ini_viol)
  finally show ?thesis by (simp add: session_def exec_bind del: run_state_bind)
qed

end

subsection \<open>Evaluation of the monitor\<close>

lemmas acq_tabs = acquires_def acq_ptr_def acq_nonneg_def acq_status_def acq_void_def
lemmas rel_tabs = rel_target_def rel_by_result_def rel_by_arg_def

lemma acquires_eval [ghost_simps]:
  "acquires ''class_create'' r \<longleftrightarrow> r \<noteq> NULL"
  "acquires ''class_device_create'' r \<longleftrightarrow> r \<noteq> NULL"
  "acquires ''ioremap'' r \<longleftrightarrow> r \<noteq> NULL"
  "acquires ''kzalloc'' r \<longleftrightarrow> r \<noteq> NULL"
  "acquires ''dma_alloc_writecombine'' r \<longleftrightarrow> r \<noteq> NULL"
  "acquires ''input_allocate_device'' r \<longleftrightarrow> r \<noteq> NULL"
  "acquires ''framebuffer_alloc'' r \<longleftrightarrow> r \<noteq> NULL"
  "acquires ''usb_buffer_alloc'' r \<longleftrightarrow> r \<noteq> NULL"
  "acquires ''usb_alloc_urb'' r \<longleftrightarrow> r \<noteq> NULL"
  "acquires ''alloc_disk'' r \<longleftrightarrow> r \<noteq> NULL"
  "acquires ''blk_init_queue'' r \<longleftrightarrow> r \<noteq> NULL"
  "acquires ''alloc_netdev'' r \<longleftrightarrow> r \<noteq> NULL"
  "acquires ''clk_get'' r \<longleftrightarrow> r \<noteq> NULL"
  "acquires ''register_chrdev'' r \<longleftrightarrow> 0 \<le> sint r"
  "acquires ''register_blkdev'' r \<longleftrightarrow> 0 \<le> sint r"
  "acquires ''request_irq'' r \<longleftrightarrow> r = 0"
  "acquires ''input_register_device'' r \<longleftrightarrow> r = 0"
  "acquires ''usb_register'' r \<longleftrightarrow> r = 0"
  "acquires ''platform_driver_register'' r \<longleftrightarrow> r = 0"
  "acquires ''platform_device_register'' r \<longleftrightarrow> r = 0"
  "acquires ''register_framebuffer'' r \<longleftrightarrow> r = 0"
  "acquires ''register_netdev'' r \<longleftrightarrow> r = 0"
  "acquires ''alloc_chrdev_region'' r \<longleftrightarrow> r = 0"
  "acquires ''register_chrdev_region'' r \<longleftrightarrow> r = 0"
  "acquires ''cdev_add'' r \<longleftrightarrow> r = 0"
  "acquires ''i2c_add_driver'' r \<longleftrightarrow> r = 0"
  "acquires ''i2c_attach_client'' r \<longleftrightarrow> r = 0"
  "acquires ''add_mtd_partitions'' r \<longleftrightarrow> r = 0"
  "acquires ''clk_enable'' r \<longleftrightarrow> r = 0"
  "acquires ''add_timer'' r"
  "acquires ''add_disk'' r"
  by (simp_all add: acq_tabs)

lemma acquires_plain [ghost_simps]:
  "\<not> acquires ''printk'' r"
  "\<not> acquires ''copy_from_user'' r"
  "\<not> acquires ''copy_to_user'' r"
  "\<not> acquires ''platform_get_resource'' r"
  "\<not> acquires ''s3c2410_gpio_getpin'' r"
  "\<not> acquires ''wake_up_interruptible'' r"
  "\<not> acquires ''wait_event_interruptible'' r"
  "\<not> acquires ''poll_wait'' r"
  "\<not> acquires ''kill_fasync'' r"
  "\<not> acquires ''fasync_helper'' r"
  "\<not> acquires ''input_event'' r"
  "\<not> acquires ''input_sync'' r"
  "\<not> acquires ''set_bit'' r"
  "\<not> acquires ''input_set_abs_params'' r"
  "\<not> acquires ''input_report_abs'' r"
  "\<not> acquires ''input_report_key'' r"
  "\<not> acquires ''init_timer'' r"
  "\<not> acquires ''mod_timer'' r"
  "\<not> acquires ''jiffies'' r"
  "\<not> acquires ''HZ'' r"
  "\<not> acquires ''IS_ERR'' r"
  "\<not> acquires ''PTR_ERR'' r"
  "\<not> acquires ''usb_rcvintpipe'' r"
  "\<not> acquires ''usb_fill_int_urb'' r"
  "\<not> acquires ''usb_submit_urb'' r"
  "\<not> acquires ''usb_kill_urb'' r"
  "\<not> acquires ''interface_to_usbdev'' r"
  "\<not> acquires ''set_capacity'' r"
  "\<not> acquires ''nand_scan'' r"
  "\<not> acquires ''simple_map_init'' r"
  "\<not> acquires ''do_map_probe'' r"
  "\<not> acquires ''i2c_transfer'' r"
  "\<not> acquires ''i2c_probe'' r"
  "\<not> acquires ''i2c_get_clientdata'' r"
  "\<not> acquires ''cdev_init'' r"
  "\<not> acquires ''elv_next_request'' r"
  "\<not> acquires ''end_request'' r"
  "\<not> acquires ''rq_data_dir'' r"
  "\<not> acquires ''memset'' r"
  "\<not> acquires ''memcmp'' r"
  by (simp_all add: acq_tabs)

lemma rel_target_none [ghost_simps]:
  "rel_target ''class_create'' xs = None"
  "rel_target ''class_device_create'' xs = None"
  "rel_target ''ioremap'' xs = None"
  "rel_target ''kzalloc'' xs = None"
  "rel_target ''dma_alloc_writecombine'' xs = None"
  "rel_target ''input_allocate_device'' xs = None"
  "rel_target ''framebuffer_alloc'' xs = None"
  "rel_target ''usb_buffer_alloc'' xs = None"
  "rel_target ''usb_alloc_urb'' xs = None"
  "rel_target ''alloc_disk'' xs = None"
  "rel_target ''blk_init_queue'' xs = None"
  "rel_target ''alloc_netdev'' xs = None"
  "rel_target ''clk_get'' xs = None"
  "rel_target ''register_chrdev'' xs = None"
  "rel_target ''register_blkdev'' xs = None"
  "rel_target ''request_irq'' xs = None"
  "rel_target ''input_register_device'' xs = None"
  "rel_target ''usb_register'' xs = None"
  "rel_target ''platform_driver_register'' xs = None"
  "rel_target ''platform_device_register'' xs = None"
  "rel_target ''register_framebuffer'' xs = None"
  "rel_target ''register_netdev'' xs = None"
  "rel_target ''alloc_chrdev_region'' xs = None"
  "rel_target ''register_chrdev_region'' xs = None"
  "rel_target ''cdev_add'' xs = None"
  "rel_target ''i2c_add_driver'' xs = None"
  "rel_target ''i2c_attach_client'' xs = None"
  "rel_target ''add_mtd_partitions'' xs = None"
  "rel_target ''clk_enable'' xs = None"
  "rel_target ''add_timer'' xs = None"
  "rel_target ''add_disk'' xs = None"
  "rel_target ''printk'' xs = None"
  "rel_target ''copy_from_user'' xs = None"
  "rel_target ''copy_to_user'' xs = None"
  "rel_target ''platform_get_resource'' xs = None"
  "rel_target ''s3c2410_gpio_getpin'' xs = None"
  "rel_target ''wake_up_interruptible'' xs = None"
  "rel_target ''wait_event_interruptible'' xs = None"
  "rel_target ''poll_wait'' xs = None"
  "rel_target ''kill_fasync'' xs = None"
  "rel_target ''fasync_helper'' xs = None"
  "rel_target ''input_event'' xs = None"
  "rel_target ''input_sync'' xs = None"
  "rel_target ''set_bit'' xs = None"
  "rel_target ''input_set_abs_params'' xs = None"
  "rel_target ''input_report_abs'' xs = None"
  "rel_target ''input_report_key'' xs = None"
  "rel_target ''init_timer'' xs = None"
  "rel_target ''mod_timer'' xs = None"
  "rel_target ''jiffies'' xs = None"
  "rel_target ''HZ'' xs = None"
  "rel_target ''IS_ERR'' xs = None"
  "rel_target ''PTR_ERR'' xs = None"
  "rel_target ''usb_rcvintpipe'' xs = None"
  "rel_target ''usb_fill_int_urb'' xs = None"
  "rel_target ''usb_submit_urb'' xs = None"
  "rel_target ''usb_kill_urb'' xs = None"
  "rel_target ''interface_to_usbdev'' xs = None"
  "rel_target ''set_capacity'' xs = None"
  "rel_target ''nand_scan'' xs = None"
  "rel_target ''simple_map_init'' xs = None"
  "rel_target ''do_map_probe'' xs = None"
  "rel_target ''i2c_transfer'' xs = None"
  "rel_target ''i2c_probe'' xs = None"
  "rel_target ''i2c_get_clientdata'' xs = None"
  "rel_target ''cdev_init'' xs = None"
  "rel_target ''elv_next_request'' xs = None"
  "rel_target ''end_request'' xs = None"
  "rel_target ''rq_data_dir'' xs = None"
  "rel_target ''memset'' xs = None"
  "rel_target ''memcmp'' xs = None"
  by (simp_all add: rel_tabs)

lemma rel_target_result [ghost_simps]:
  "rel_target ''unregister_chrdev'' xs = Some (\<lambda>(h, ys, r). h = ''register_chrdev'' \<and> xs \<noteq> [] \<and> hd xs = Num r)"
  "rel_target ''unregister_blkdev'' xs = Some (\<lambda>(h, ys, r). h = ''register_blkdev'' \<and> xs \<noteq> [] \<and> hd xs = Num r)"
  "rel_target ''class_destroy'' xs = Some (\<lambda>(h, ys, r). h = ''class_create'' \<and> xs \<noteq> [] \<and> hd xs = Num r)"
  "rel_target ''class_device_unregister'' xs = Some (\<lambda>(h, ys, r). h = ''class_device_create'' \<and> xs \<noteq> [] \<and> hd xs = Num r)"
  "rel_target ''iounmap'' xs = Some (\<lambda>(h, ys, r). h = ''ioremap'' \<and> xs \<noteq> [] \<and> hd xs = Num r)"
  "rel_target ''input_free_device'' xs = Some (\<lambda>(h, ys, r). h = ''input_allocate_device'' \<and> xs \<noteq> [] \<and> hd xs = Num r)"
  "rel_target ''framebuffer_release'' xs = Some (\<lambda>(h, ys, r). h = ''framebuffer_alloc'' \<and> xs \<noteq> [] \<and> hd xs = Num r)"
  "rel_target ''usb_free_urb'' xs = Some (\<lambda>(h, ys, r). h = ''usb_alloc_urb'' \<and> xs \<noteq> [] \<and> hd xs = Num r)"
  "rel_target ''put_disk'' xs = Some (\<lambda>(h, ys, r). h = ''alloc_disk'' \<and> xs \<noteq> [] \<and> hd xs = Num r)"
  "rel_target ''blk_cleanup_queue'' xs = Some (\<lambda>(h, ys, r). h = ''blk_init_queue'' \<and> xs \<noteq> [] \<and> hd xs = Num r)"
  "rel_target ''free_netdev'' xs = Some (\<lambda>(h, ys, r). h = ''alloc_netdev'' \<and> xs \<noteq> [] \<and> hd xs = Num r)"
  "rel_target ''clk_put'' xs = Some (\<lambda>(h, ys, r). h = ''clk_get'' \<and> xs \<noteq> [] \<and> hd xs = Num r)"
  by (simp_all add: rel_tabs)

lemma rel_target_kfree [ghost_simps]:
  "rel_target ''kfree'' xs = (if take 1 xs = [Num NULL] then None
     else Some (\<lambda>(h, ys, r). h = ''kzalloc'' \<and> xs \<noteq> [] \<and> hd xs = Num r))"
  "\<not> acquires ''kfree'' r"
  by (simp_all add: rel_tabs acq_tabs)

lemma rel_target_arg [ghost_simps]:
  "rel_target ''input_unregister_device'' xs = Some (\<lambda>(h, ys, r). h = ''input_register_device'' \<and> take 1 ys = take 1 xs)"
  "rel_target ''usb_deregister'' xs = Some (\<lambda>(h, ys, r). h = ''usb_register'' \<and> take 1 ys = take 1 xs)"
  "rel_target ''platform_driver_unregister'' xs = Some (\<lambda>(h, ys, r). h = ''platform_driver_register'' \<and> take 1 ys = take 1 xs)"
  "rel_target ''platform_device_unregister'' xs = Some (\<lambda>(h, ys, r). h = ''platform_device_register'' \<and> take 1 ys = take 1 xs)"
  "rel_target ''unregister_framebuffer'' xs = Some (\<lambda>(h, ys, r). h = ''register_framebuffer'' \<and> take 1 ys = take 1 xs)"
  "rel_target ''unregister_netdev'' xs = Some (\<lambda>(h, ys, r). h = ''register_netdev'' \<and> take 1 ys = take 1 xs)"
  "rel_target ''cdev_del'' xs = Some (\<lambda>(h, ys, r). h = ''cdev_add'' \<and> take 1 ys = take 1 xs)"
  "rel_target ''i2c_del_driver'' xs = Some (\<lambda>(h, ys, r). h = ''i2c_add_driver'' \<and> take 1 ys = take 1 xs)"
  "rel_target ''i2c_detach_client'' xs = Some (\<lambda>(h, ys, r). h = ''i2c_attach_client'' \<and> take 1 ys = take 1 xs)"
  "rel_target ''del_mtd_partitions'' xs = Some (\<lambda>(h, ys, r). h = ''add_mtd_partitions'' \<and> take 1 ys = take 1 xs)"
  "rel_target ''del_timer'' xs = Some (\<lambda>(h, ys, r). h = ''add_timer'' \<and> take 1 ys = take 1 xs)"
  "rel_target ''del_gendisk'' xs = Some (\<lambda>(h, ys, r). h = ''add_disk'' \<and> take 1 ys = take 1 xs)"
  "rel_target ''clk_disable'' xs = Some (\<lambda>(h, ys, r). h = ''clk_enable'' \<and> take 1 ys = take 1 xs)"
  by (simp_all add: rel_tabs)

lemma rel_target_pair [ghost_simps]:
  "rel_target ''class_device_destroy'' xs =
     Some (\<lambda>(h, ys, r). h = ''class_device_create'' \<and> [ys ! 0, ys ! 2] = xs)"
  "rel_target ''free_irq'' xs =
     Some (\<lambda>(h, ys, r). h = ''request_irq'' \<and> [ys ! 0, ys ! 4] = xs)"
  "rel_target ''dma_free_writecombine'' xs =
     Some (\<lambda>(h, ys, r). h = ''dma_alloc_writecombine'' \<and> ys ! 1 = xs ! 1 \<and> xs ! 2 = Num r)"
  "rel_target ''usb_buffer_free'' xs =
     Some (\<lambda>(h, ys, r). h = ''usb_buffer_alloc'' \<and> ys ! 1 = xs ! 1 \<and> xs ! 2 = Num r)"
  "rel_target ''unregister_chrdev_region'' xs =
     Some (\<lambda>(h, ys, r). h = ''register_chrdev_region'' \<and> take 2 ys = xs \<or>
                        h = ''alloc_chrdev_region'' \<and> ys ! 2 = xs ! 1)"
  by (simp_all add: rel_tabs)

lemma rel_also_eval [ghost_simps]:
  "rel_also ''input_unregister_device'' xs = (\<lambda>(h, ys, r). h = ''input_allocate_device'' \<and> take 1 xs = [Num r])"
  "rel_also ''unregister_chrdev'' xs = (\<lambda>_. False)"
  "rel_also ''unregister_blkdev'' xs = (\<lambda>_. False)"
  "rel_also ''class_destroy'' xs = (\<lambda>_. False)"
  "rel_also ''class_device_unregister'' xs = (\<lambda>_. False)"
  "rel_also ''iounmap'' xs = (\<lambda>_. False)"
  "rel_also ''kfree'' xs = (\<lambda>_. False)"
  "rel_also ''input_free_device'' xs = (\<lambda>_. False)"
  "rel_also ''framebuffer_release'' xs = (\<lambda>_. False)"
  "rel_also ''usb_free_urb'' xs = (\<lambda>_. False)"
  "rel_also ''put_disk'' xs = (\<lambda>_. False)"
  "rel_also ''blk_cleanup_queue'' xs = (\<lambda>_. False)"
  "rel_also ''free_netdev'' xs = (\<lambda>_. False)"
  "rel_also ''clk_put'' xs = (\<lambda>_. False)"
  "rel_also ''usb_deregister'' xs = (\<lambda>_. False)"
  "rel_also ''platform_driver_unregister'' xs = (\<lambda>_. False)"
  "rel_also ''platform_device_unregister'' xs = (\<lambda>_. False)"
  "rel_also ''unregister_framebuffer'' xs = (\<lambda>_. False)"
  "rel_also ''unregister_netdev'' xs = (\<lambda>_. False)"
  "rel_also ''cdev_del'' xs = (\<lambda>_. False)"
  "rel_also ''i2c_del_driver'' xs = (\<lambda>_. False)"
  "rel_also ''i2c_detach_client'' xs = (\<lambda>_. False)"
  "rel_also ''del_mtd_partitions'' xs = (\<lambda>_. False)"
  "rel_also ''del_timer'' xs = (\<lambda>_. False)"
  "rel_also ''del_gendisk'' xs = (\<lambda>_. False)"
  "rel_also ''clk_disable'' xs = (\<lambda>_. False)"
  "rel_also ''class_device_destroy'' xs = (\<lambda>_. False)"
  "rel_also ''free_irq'' xs = (\<lambda>_. False)"
  "rel_also ''dma_free_writecombine'' xs = (\<lambda>_. False)"
  "rel_also ''usb_buffer_free'' xs = (\<lambda>_. False)"
  "rel_also ''unregister_chrdev_region'' xs = (\<lambda>_. False)"
  by (simp_all add: rel_also_def)

end
