(* ===== verification/Gpio.thy ===== *)
theory Gpio
  imports Prelude
begin

section \<open>Two-bit pin fields of a GPIO configuration register\<close>

text \<open>
  The S3C2440 configuration registers hold one two-bit field per pin: 0 input, 1 output,
  2 and 3 special functions. \<open>pin_mode v i\<close> is the field of pin \<open>i\<close>. The lemmas say what a
  read-modify-write with a mask and a value does to every field.
\<close>

definition pin_mode :: "u32 \<Rightarrow> nat \<Rightarrow> u32" where
  "pin_mode v i = drop_bit (2 * i) v AND 3"

lemma pin_mode_rmw:
  "pin_mode ((v AND NOT m) OR b) i = (pin_mode v i AND NOT (pin_mode m i)) OR pin_mode b i"
  by (rule bit_word_eqI) (auto simp: pin_mode_def bit_simps dest: bit_imp_le_length)

lemma pin_mode_clear:
  "pin_mode (v AND NOT m) i = pin_mode v i AND NOT (pin_mode m i)"
  by (rule bit_word_eqI) (auto simp: pin_mode_def bit_simps dest: bit_imp_le_length)

lemma pin_mode_clear3 [simp]: "pin_mode v i AND NOT 3 = 0" "pin_mode v i AND -4 = 0"
  by (rule bit_word_eqI; auto simp: pin_mode_def bit_simps)+

text \<open>A bounded quantifier over pins as a finite conjunction that simp unfolds.\<close>

lemma all_less_numeral: "(\<forall>i < numeral k. P i) \<longleftrightarrow> list_all P [0 ..< numeral k]"
  by (auto simp: list_all_iff)

lemma upt_16: "[0 ..< 16] = [0, 1, 2, 3, 4, 5, 6, 7, 8, 9, 10, 11, 12, 13, 14, 15]"
  by code_simp

lemma upt_32: "[0 ..< 32] = [0, 1, 2, 3, 4, 5, 6, 7, 8, 9, 10, 11, 12, 13, 14, 15, 16, 17, 18, 19,
    20, 21, 22, 23, 24, 25, 26, 27, 28, 29, 30, 31]"
  by code_simp

text \<open>The fields of the masks that the LED and the key drivers use.\<close>

lemma led_fields:
  "\<forall>i < 16. pin_mode 0x3FC00 i = (if i \<in> {5, 6, 7, 8} then 3 else 0)"
  "\<forall>i < 16. pin_mode 0x15400 i = (if i \<in> {5, 6, 7, 8} then 1 else 0)"
  by (simp_all add: all_less_numeral upt_16 pin_mode_def)

lemma led_rmw_fields:
  "\<forall>i < 16. pin_mode ((v AND NOT 0x3FC00) OR 0x15400) i = (if i \<in> {5, 6, 7, 8} then 1 else pin_mode v i)"
  unfolding pin_mode_rmw using led_fields by auto

lemma push_fields:
  "\<forall>p < 16. \<forall>i < 16. pin_mode (push_bit (2 * p) 3) i = (if i = p then 3 else 0)"
  "\<forall>p < 16. \<forall>i < 16. pin_mode (push_bit (2 * p) 1) i = (if i = p then 1 else 0)"
  by (simp_all add: all_less_numeral upt_16 pin_mode_def push_bit_of_1)

lemma pin_rmw_fields:
  assumes "p < 16"
  shows "\<forall>i < 16. pin_mode ((v AND NOT (push_bit (2 * p) 3)) OR push_bit (2 * p) 1) i =
    (if i = p then 1 else pin_mode v i)"
  unfolding pin_mode_rmw using push_fields assms by auto

end
