(* ===== verification/Led.thy ===== *)
theory Led
  imports Kernel Gpio
begin

section \<open>The LED drivers: first_drv and the myled platform driver\<close>

text \<open>
  \<^verbatim>\<open>first_drv\<close> drives the four LEDs on GPB5 to GPB8; \<^verbatim>\<open>led_drv\<close>/\<^verbatim>\<open>led_dev\<close> split the same driver
  into a platform driver and a platform device that names one pin. The records hold the static
  variables of the C files; pointers are the addresses \<^verbatim>\<open>ioremap\<close> returned, \<^verbatim>\<open>p + 1\<close> on an
  \<^verbatim>\<open>unsigned long *\<close> is the address plus 4.
\<close>

subsection \<open>first_drv\<close>

record first_drv = kworld +
  firstdrv_class :: u32
  firstdrv_class_dev :: u32
  gpbcon :: u32
  gpbdat :: u32
  first_major :: u32

definition first_drv_open :: "kenv \<Rightarrow> (first_drv, u32) state" where
  "first_drv_open env = do {
     p \<leftarrow> gets gpbcon;
     reg_clear env p (push_bit (5*2) 0x3 OR push_bit (6*2) 0x3 OR push_bit (7*2) 0x3 OR push_bit (8*2) 0x3);
     reg_set env p (push_bit (5*2) 0x1 OR push_bit (6*2) 0x1 OR push_bit (7*2) 0x1 OR push_bit (8*2) 0x1);
     ret 0 }"

definition first_drv_write :: "kenv \<Rightarrow> u32 \<Rightarrow> u32 \<Rightarrow> (first_drv, u32) state" where
  "first_drv_write env buf count = do {
     copy_size \<leftarrow> call env ''copy_from_user'' [Obj ''val'' 4, Num buf, Num count];
     val \<leftarrow> out env ''copy_from_user'' 0;
     p \<leftarrow> gets gpbdat;
     (if val = 1
      then reg_clear env p (push_bit 5 1 OR push_bit 6 1 OR push_bit 7 1 OR push_bit 8 1)
      else reg_set env p (push_bit 5 1 OR push_bit 6 1 OR push_bit 7 1 OR push_bit 8 1));
     ret 0 }"

definition first_drv_init :: "kenv \<Rightarrow> (first_drv, u32) state" where
  "first_drv_init env = do {
     m \<leftarrow> call env ''register_chrdev'' [Num 0, Str ''first_drv'', Sym ''first_drv_fops''];
     modify (\<lambda>s. s\<lparr>first_major := m\<rparr>);
     c \<leftarrow> call env ''class_create'' [Sym ''THIS_MODULE'', Str ''firstdrv''];
     modify (\<lambda>s. s\<lparr>firstdrv_class := c\<rparr>);
     d \<leftarrow> call env ''class_device_create'' [Num c, Num NULL, Dev m 0, Num NULL, Str ''xxx''];
     modify (\<lambda>s. s\<lparr>firstdrv_class_dev := d\<rparr>);
     p \<leftarrow> call env ''ioremap'' [Num 0x56000010, Num 4];
     modify (\<lambda>s. s\<lparr>gpbcon := p\<rparr>);
     modify (\<lambda>s. s\<lparr>gpbdat := p + 4\<rparr>);
     ret 0 }"

definition first_drv_exit :: "kenv \<Rightarrow> (first_drv, unit) state" where
  "first_drv_exit env = do {
     m \<leftarrow> gets first_major;
     callv env ''unregister_chrdev'' [Num m, Str ''first_drv''];
     d \<leftarrow> gets firstdrv_class_dev;
     callv env ''class_device_unregister'' [Num d];
     c \<leftarrow> gets firstdrv_class;
     callv env ''class_destroy'' [Num c];
     p \<leftarrow> gets gpbcon;
     callv env ''iounmap'' [Num p] }"

text \<open>The entry points of \<^verbatim>\<open>first_drv_fops\<close>.\<close>

datatype first_op = First_open | First_write u32 u32

fun first_drv_fops :: "kenv \<Rightarrow> first_op \<Rightarrow> (first_drv, u32) state" where
  "first_drv_fops env First_open = first_drv_open env"
| "first_drv_fops env (First_write buf count) = first_drv_write env buf count"

definition first_granted :: "first_drv \<Rightarrow> bool" where
  "first_granted s \<longleftrightarrow> 0 \<le> sint (first_major s) \<and> firstdrv_class s \<noteq> NULL \<and>
     firstdrv_class_dev s \<noteq> NULL \<and> gpbcon s \<noteq> NULL"

definition first_loaded :: "kres list \<Rightarrow> first_drv \<Rightarrow> bool" where
  "first_loaded R s \<longleftrightarrow> held s =
     [(''ioremap'', [Num 0x56000010, Num 4], gpbcon s),
      (''class_device_create'',
        [Num (firstdrv_class s), Num NULL, Dev (first_major s) 0, Num NULL, Str ''xxx''],
        firstdrv_class_dev s),
      (''class_create'', [Sym ''THIS_MODULE'', Str ''firstdrv''], firstdrv_class s),
      (''register_chrdev'', [Num 0, Str ''first_drv'', Sym ''first_drv_fops''], first_major s)] @ R"

subsection \<open>The platform driver led_drv and its device led_dev\<close>

record resource =
  res_start :: u32
  res_end :: u32
  res_flags :: string

definition led_resource :: "resource list" where
  "led_resource =
     [\<lparr>res_start = 0x56000010, res_end = 0x56000010 + 4, res_flags = ''IORESOURCE_MEM''\<rparr>,
      \<lparr>res_start = 8, res_end = 8, res_flags = ''IORESOURCE_IRQ''\<rparr>]"

record led_drv = kworld +
  led_major :: u32
  gpio_con :: u32
  gpio_dat :: u32
  led_pin :: u32
  led_class :: u32
  led_class_device :: u32

definition led_open :: "kenv \<Rightarrow> (led_drv, u32) state" where
  "led_open env = do {
     p \<leftarrow> gets gpio_con;
     pin \<leftarrow> gets led_pin;
     reg_clear env p (push_bit (unat (pin * 2)) 0x3);
     reg_set env p (push_bit (unat (pin * 2)) 0x1);
     ret 0 }"

definition led_write :: "kenv \<Rightarrow> u32 \<Rightarrow> u32 \<Rightarrow> (led_drv, u32) state" where
  "led_write env buf count = do {
     copy_size \<leftarrow> call env ''copy_from_user'' [Obj ''val'' 4, Num buf, Num count];
     val \<leftarrow> out env ''copy_from_user'' 0;
     p \<leftarrow> gets gpio_dat;
     pin \<leftarrow> gets led_pin;
     (if val = 1 then reg_clear env p (push_bit (unat pin) 1)
      else reg_set env p (push_bit (unat pin) 1));
     ret 0 }"

text \<open>The fields of the resource that \<^verbatim>\<open>platform_get_resource\<close> returns are its outputs 0 and 1.\<close>

definition led_probe :: "kenv \<Rightarrow> u32 \<Rightarrow> (led_drv, u32) state" where
  "led_probe env dev = do {
     printk env ''led_probe is being called'';
     res \<leftarrow> call env ''platform_get_resource'' [Num dev, Sym ''IORESOURCE_MEM'', Num 0];
     st \<leftarrow> out env ''platform_get_resource'' 0;
     en \<leftarrow> out env ''platform_get_resource'' 1;
     p \<leftarrow> call env ''ioremap'' [Num st, Num (en - st)];
     modify (\<lambda>s. s\<lparr>gpio_con := p\<rparr>);
     modify (\<lambda>s. s\<lparr>gpio_dat := p + 4\<rparr>);
     res \<leftarrow> call env ''platform_get_resource'' [Num dev, Sym ''IORESOURCE_IRQ'', Num 0];
     st' \<leftarrow> out env ''platform_get_resource'' 0;
     modify (\<lambda>s. s\<lparr>led_pin := st'\<rparr>);
     m \<leftarrow> call env ''register_chrdev'' [Num 0, Str ''myled'', Sym ''led_fops''];
     modify (\<lambda>s. s\<lparr>led_major := m\<rparr>);
     c \<leftarrow> call env ''class_create'' [Sym ''THIS_MODULE'', Str ''myled''];
     modify (\<lambda>s. s\<lparr>led_class := c\<rparr>);
     d \<leftarrow> call env ''class_device_create'' [Num c, Num NULL, Dev m 0, Num NULL, Str ''led''];
     modify (\<lambda>s. s\<lparr>led_class_device := d\<rparr>);
     ret 0 }"

definition led_remove :: "kenv \<Rightarrow> (led_drv, u32) state" where
  "led_remove env = do {
     printk env ''led_remove is being called'';
     c \<leftarrow> gets led_class;
     m \<leftarrow> gets led_major;
     callv env ''class_device_destroy'' [Num c, Dev m 0];
     callv env ''class_destroy'' [Num c];
     callv env ''unregister_chrdev'' [Num m, Str ''myled''];
     p \<leftarrow> gets gpio_con;
     callv env ''iounmap'' [Num p];
     ret 0 }"

definition led_drv_init :: "kenv \<Rightarrow> (led_drv, u32) state" where
  "led_drv_init env = do { callv env ''platform_driver_register'' [Sym ''led_platform_driver'']; ret 0 }"

definition led_drv_exit :: "kenv \<Rightarrow> (led_drv, unit) state" where
  "led_drv_exit env = callv env ''platform_driver_unregister'' [Sym ''led_platform_driver'']"

definition led_dev_init :: "kenv \<Rightarrow> (led_drv, u32) state" where
  "led_dev_init env = do { callv env ''platform_device_register'' [Sym ''led_platform_device'']; ret 0 }"

definition led_dev_exit :: "kenv \<Rightarrow> (led_drv, unit) state" where
  "led_dev_exit env = callv env ''platform_device_unregister'' [Sym ''led_platform_device'']"

datatype led_op = Led_open | Led_write u32 u32

fun led_fops :: "kenv \<Rightarrow> led_op \<Rightarrow> (led_drv, u32) state" where
  "led_fops env Led_open = led_open env"
| "led_fops env (Led_write buf count) = led_write env buf count"

definition led_granted :: "led_drv \<Rightarrow> bool" where
  "led_granted s \<longleftrightarrow> 0 \<le> sint (led_major s) \<and> led_class s \<noteq> NULL \<and>
     led_class_device s \<noteq> NULL \<and> gpio_con s \<noteq> NULL"

definition led_loaded :: "kres list \<Rightarrow> led_drv \<Rightarrow> bool" where
  "led_loaded R s \<longleftrightarrow> (\<exists>st len. held s =
     [(''class_device_create'',
        [Num (led_class s), Num NULL, Dev (led_major s) 0, Num NULL, Str ''led''], led_class_device s),
      (''class_create'', [Sym ''THIS_MODULE'', Str ''myled''], led_class s),
      (''register_chrdev'', [Num 0, Str ''myled'', Sym ''led_fops''], led_major s),
      (''ioremap'', [Num st, Num len], gpio_con s)] @ R)"

subsection \<open>The test program\<close>

text \<open>
  \<^verbatim>\<open>main\<close> of \<^verbatim>\<open>test.c\<close>: \<open>argv\<close> are the arguments, \<open>junk\<close> is what the uninitialised \<^verbatim>\<open>val\<close> holds.
  An argument that is neither \<^verbatim>\<open>on\<close> nor \<^verbatim>\<open>off\<close> prints the usage and goes on.
\<close>

definition led_test_main :: "kenv \<Rightarrow> string list \<Rightarrow> u32 \<Rightarrow> (led_drv, u32) state" where
  "led_test_main env argv junk =
     (if length argv \<noteq> 2 then do { callv env ''print_usage'' [Str (argv ! 0)]; ret (-1) }
      else do {
        val \<leftarrow> (if argv ! 1 = ''on'' then ret 1
               else if argv ! 1 = ''off'' then ret 0
               else do { callv env ''print_usage'' [Str (argv ! 0)]; ret junk });
        fd \<leftarrow> call env ''open'' [Str ''/dev/led'', Sym ''O_RDWR''];
        (if sint fd < 0 then do { callv env ''printf'' [Str ''can't open'']; ret (-1) }
         else do {
           callv env ''write'' [Num fd, Num val, Num 4];
           callv env ''close'' [Num fd];
           ret 0 }) })"

subsection \<open>Registers after open and write\<close>

lemma first_open_events:
  "\<exists>v w. run_state (first_drv_open env) s = (0, s\<lparr>trace := trace s @
     [Ev (QRd (gpbcon s)) v, Wr (gpbcon s) (v AND NOT 0x3FC00),
      Ev (QRd (gpbcon s)) w, Wr (gpbcon s) (w OR 0x15400)]\<rparr>)"
  by (auto simp: first_drv_open_def Let_def)

lemma first_write_events:
  "\<exists>c val v. run_state (first_drv_write env buf count) s = (0, s\<lparr>trace := trace s @
     [Ev (QCall ''copy_from_user'' [Obj ''val'' 4, Num buf, Num count]) c,
      Ev (QOut ''copy_from_user'' 0) val, Ev (QRd (gpbdat s)) v,
      Wr (gpbdat s) (if val = 1 then v AND NOT 0x1E0 else v OR 0x1E0)]\<rparr>)"
  by (auto simp: first_drv_write_def Let_def)

lemma led_open_events:
  "\<exists>v w. run_state (led_open env) s = (0, s\<lparr>trace := trace s @
     [Ev (QRd (gpio_con s)) v, Wr (gpio_con s) (v AND NOT (push_bit (unat (led_pin s * 2)) 3)),
      Ev (QRd (gpio_con s)) w, Wr (gpio_con s) (w OR push_bit (unat (led_pin s * 2)) 1)]\<rparr>)"
  by (auto simp: led_open_def Let_def)

lemma led_write_events:
  "\<exists>c val v. run_state (led_write env buf count) s = (0, s\<lparr>trace := trace s @
     [Ev (QCall ''copy_from_user'' [Obj ''val'' 4, Num buf, Num count]) c,
      Ev (QOut ''copy_from_user'' 0) val, Ev (QRd (gpio_dat s)) v,
      Wr (gpio_dat s) (if val = 1 then v AND NOT (push_bit (unat (led_pin s)) 1)
                       else v OR push_bit (unat (led_pin s)) 1)]\<rparr>)"
  by (auto simp: led_write_def Let_def)

lemma first_open_regs:
  assumes "trace (exec (first_drv_open env) s) = trace s @ es" and "reads_back (gpbcon s) v es"
  shows "reg_val (gpbcon s) v es = (v AND NOT 0x3FC00) OR 0x15400"
proof -
  obtain x w where "exec (first_drv_open env) s = s\<lparr>trace := trace s @
     [Ev (QRd (gpbcon s)) x, Wr (gpbcon s) (x AND NOT 0x3FC00),
      Ev (QRd (gpbcon s)) w, Wr (gpbcon s) (w OR 0x15400)]\<rparr>"
    using first_open_events [of env s] by auto
  with assms show ?thesis by auto
qed

text \<open>
  C15. Opening the LED device configures exactly the four LED pins GPB5 to GPB8 as outputs
  (field 1) and keeps the mode of the twelve other pins of the port, for any previous content
  \<open>v\<close> of a configuration register that reads back what was written.
\<close>

theorem first_drv_open_pins:
  assumes "run_state (first_drv_open env) s = (r, s')" and "trace s' = trace s @ es"
    and "reads_back (gpbcon s) v es"
  shows "r = 0 \<and> (\<forall>i < 16. pin_mode (reg_val (gpbcon s) v es) i =
    (if i \<in> {5, 6, 7, 8} then 1 else pin_mode v i))"
proof -
  have "r = 0" using first_open_events [of env s] assms(1) by auto
  moreover have "reg_val (gpbcon s) v es = (v AND NOT 0x3FC00) OR 0x15400"
    using assms first_open_regs [of env s es v] by simp
  ultimately show ?thesis using led_rmw_fields by metis
qed

theorem first_drv_open_pins_witness:
  "\<exists>r s'. run_state (first_drv_open (\<lambda>n q. if n = 0 then 0xFFFFFFFF else 0xFFFC03FF))
       \<lparr>trace = [], firstdrv_class = 1, firstdrv_class_dev = 1, gpbcon = 64, gpbdat = 68, first_major = 1\<rparr>
       = (r, s') \<and> reads_back 64 0xFFFFFFFF (trace s') \<and>
     r = 0 \<and> (\<forall>i < 16. pin_mode (reg_val 64 0xFFFFFFFF (trace s')) i =
       (if i \<in> {5, 6, 7, 8} then 1 else pin_mode 0xFFFFFFFF i))"
proof -
  let ?s = "\<lparr>trace = [], firstdrv_class = 1, firstdrv_class_dev = 1, gpbcon = 64, gpbdat = 68, first_major = 1\<rparr> :: first_drv"
  let ?e = "\<lambda>n q. if n = 0 then 0xFFFFFFFF else 0xFFFC03FF :: u32"
  obtain r s' where run: "run_state (first_drv_open ?e) ?s = (r, s')" by fastforce
  have rb: "reads_back (gpbcon ?s) 0xFFFFFFFF (trace s')"
    using run by (simp add: first_drv_open_def Let_def split: prod.splits) auto
  have "trace s' = trace ?s @ trace s'" by simp
  from first_drv_open_pins [OF run this rb] rb run show ?thesis by auto
qed



subsection \<open>Resources\<close>

lemma first_fops_frame:
  "\<exists>es. exec (first_drv_fops env x) s = s\<lparr>trace := trace s @ es\<rparr> \<and> list_all neutral es"
proof (cases x)
  case First_open
  then show ?thesis using first_open_events [of env s] by auto
next
  case (First_write buf count)
  with first_write_events [of env buf count s] show ?thesis by (force simp: ghost_simps)
qed

lemma first_fops_loaded: "first_loaded R s \<Longrightarrow> first_loaded R (exec (first_drv_fops env x) s)"
proof -
  obtain es where es: "exec (first_drv_fops env x) s = s\<lparr>trace := trace s @ es\<rparr>" "list_all neutral es"
    using first_fops_frame by blast
  then have "held (exec (first_drv_fops env x) s) = held s" by (intro held_neutral [where es = es]) simp_all
  with es show "first_loaded R s \<Longrightarrow> ?thesis" by (simp add: first_loaded_def)
qed

interpretation first_mod: kmodule first_drv_init first_drv_fops first_drv_exit first_granted first_loaded
proof unfold_locales
  fix env s
  show "first_granted (exec (first_drv_init env) s) \<Longrightarrow> first_loaded (held s) (exec (first_drv_init env) s)"
    by (cases "ghost (trace s)")
      (simp add: first_granted_def first_loaded_def first_drv_init_def held_def ghost_simps)
next
  fix R s env x
  show "first_loaded R s \<Longrightarrow> first_loaded R (exec (first_drv_fops env x) s)" by (rule first_fops_loaded)
next
  fix R s env
  show "first_loaded R s \<Longrightarrow> held (exec (first_drv_exit env) s) = R"
    by (cases "ghost (trace s)")
      (simp add: first_loaded_def first_drv_exit_def held_def ghost_simps)
qed

text \<open>
  Loading first_drv, using the device in any order any number of times and unloading it
  returns every resource it took: what the kernel holds for it afterwards is what it held
  before, whenever the kernel granted the four requests of the init function.
\<close>

theorem first_drv_session_balanced:
  "first_granted (exec (first_drv_init env) s) \<Longrightarrow>
   held (exec (session first_drv_init first_drv_fops first_drv_exit env xs) s) = held s"
  by (rule first_mod.session_balanced)

definition first_start :: first_drv where
  "first_start = \<lparr>trace = [], firstdrv_class = 0, firstdrv_class_dev = 0, gpbcon = 0, gpbdat = 0, first_major = 0\<rparr>"

theorem first_drv_session_balanced_witness:
  "first_granted (exec (first_drv_init (\<lambda>n q. 100)) first_start) \<and>
   held (exec (session first_drv_init first_drv_fops first_drv_exit (\<lambda>n q. 100)
     [First_open, First_write 0x8000 4]) first_start) = []"
proof -
  have g: "first_granted (exec (first_drv_init (\<lambda>n q. 100)) first_start)"
    by (simp add: first_granted_def first_drv_init_def first_start_def)
  have "held first_start = []" by (simp add: first_start_def held_def ghost_def)
  with first_drv_session_balanced [OF g, of "[First_open, First_write 0x8000 4]"] g show ?thesis by simp
qed

text \<open>
  The mapping is too small: init maps four bytes at GPBCON, but every write to the device
  reads and writes GPBDAT, which lies behind them. With the init function granted and no other
  mapping held there, each write adds two accesses outside every live mapping.
\<close>

theorem first_drv_write_outside_mapping:
  assumes "first_loaded R s" and "gpbdat s = gpbcon s + 4" and "\<not> list_ex (\<lambda>x. maps x (gpbdat s)) R"
  shows "\<exists>v w. viol (exec (first_drv_write env buf count) s) =
    viol s @ [Ev (QRd (gpbdat s)) v, Wr (gpbdat s) w]"
proof -
  have unmapped: "\<not> maps (''ioremap'', [Num 0x56000010, Num 4], gpbcon s) (gpbcon s + 4)"
  proof
    assume "maps (''ioremap'', [Num 0x56000010, Num 4], gpbcon s) (gpbcon s + 4)"
    then have "unat (gpbcon s + 4) = unat (gpbcon s)" by (auto simp: maps_def)
    then have "gpbcon s + 4 = gpbcon s" by (simp only: word_unat_eq_iff)
    then show False by simp
  qed
  then have none: "\<not> list_ex (\<lambda>x. maps x (gpbdat s)) (held s)"
    using assms unfolding first_loaded_def by (simp add: maps_def)
  obtain c val v w where tr: "trace (exec (first_drv_write env buf count) s) = trace s @
     [Ev (QCall ''copy_from_user'' [Obj ''val'' 4, Num buf, Num count]) c,
      Ev (QOut ''copy_from_user'' 0) val, Ev (QRd (gpbdat s)) v, Wr (gpbdat s) w]"
    using first_write_events [of env buf count s] by auto
  show ?thesis using none by (simp add: held_viol_cases(2) [OF tr] ghost_simps)
qed

theorem first_drv_write_outside_mapping_witness:
  "\<exists>s :: first_drv. first_loaded [] s \<and> gpbdat s = gpbcon s + 4 \<and>
     (\<exists>v w. viol (exec (first_drv_write (\<lambda>n q. 1) 0x8000 4) s) =
       viol s @ [Ev (QRd (gpbdat s)) v, Wr (gpbdat s) w])"
proof -
  let ?s = "exec (first_drv_init (\<lambda>n q. 100)) first_start"
  have l: "first_loaded [] ?s"
    using first_mod.ini_loaded [of "\<lambda>n q. 100" first_start]
    by (simp add: first_granted_def first_drv_init_def first_start_def held_def ghost_def)
  have g: "gpbdat ?s = gpbcon ?s + 4" by (simp add: first_drv_init_def first_start_def)
  show ?thesis using first_drv_write_outside_mapping [OF l g, of "\<lambda>n q. 1" "0x8000" 4] l g by auto
qed

subsection \<open>The platform driver\<close>

lemma unat_pin: "unat (p :: u32) < 16 \<Longrightarrow> unat (p * 2) = 2 * unat p"
  by (simp add: unat_word_ariths)

text \<open>
  Opening the platform LED device makes the pin named by the device's second resource an
  output and keeps the mode of every other pin of the port.
\<close>

theorem led_open_pin:
  assumes "run_state (led_open env) s = (r, s')" and "trace s' = trace s @ es"
    and "reads_back (gpio_con s) v es" and "unat (led_pin s) < 16"
  shows "r = 0 \<and> (\<forall>i < 16. pin_mode (reg_val (gpio_con s) v es) i =
    (if i = unat (led_pin s) then 1 else pin_mode v i))"
proof -
  have "r = 0 \<and> reg_val (gpio_con s) v es =
      (v AND NOT (push_bit (2 * unat (led_pin s)) 3)) OR push_bit (2 * unat (led_pin s)) 1"
    using led_open_events [of env s] assms unat_pin [OF assms(4)] by auto
  with pin_rmw_fields [OF assms(4), of v] show ?thesis by metis
qed

theorem led_open_pin_witness:
  "\<exists>r s'. run_state (led_open (\<lambda>n q. if n = 0 then 0xFFFFFFFF else 0xFFFCFFFF))
       \<lparr>trace = [], led_major = 1, gpio_con = 64, gpio_dat = 68, led_pin = 8, led_class = 1, led_class_device = 1\<rparr>
       = (r, s') \<and> reads_back 64 0xFFFFFFFF (trace s') \<and>
     r = 0 \<and> (\<forall>i < 16. pin_mode (reg_val 64 0xFFFFFFFF (trace s')) i =
       (if i = 8 then 1 else pin_mode 0xFFFFFFFF i))"
proof -
  let ?s = "\<lparr>trace = [], led_major = 1, gpio_con = 64, gpio_dat = 68, led_pin = 8, led_class = 1, led_class_device = 1\<rparr> :: led_drv"
  let ?e = "\<lambda>n q. if n = 0 then 0xFFFFFFFF else 0xFFFCFFFF :: u32"
  obtain r s' where run: "run_state (led_open ?e) ?s = (r, s')" by fastforce
  have rb: "reads_back (gpio_con ?s) 0xFFFFFFFF (trace s')" using run by (auto simp: led_open_def Let_def)
  have "trace s' = trace ?s @ trace s'" by simp
  from led_open_pin [OF run this rb] rb run show ?thesis by auto
qed

lemma led_fops_frame:
  "\<exists>es. exec (led_fops env x) s = s\<lparr>trace := trace s @ es\<rparr> \<and> list_all neutral es"
proof (cases x)
  case Led_open
  then show ?thesis using led_open_events [of env s] by auto
next
  case (Led_write buf count)
  with led_write_events [of env buf count s] show ?thesis by (force simp: ghost_simps)
qed

lemma led_fops_loaded: "led_loaded R s \<Longrightarrow> led_loaded R (exec (led_fops env x) s)"
proof -
  obtain es where es: "exec (led_fops env x) s = s\<lparr>trace := trace s @ es\<rparr>" "list_all neutral es"
    using led_fops_frame by blast
  then have "held (exec (led_fops env x) s) = held s" by (intro held_neutral [where es = es]) simp_all
  with es show "led_loaded R s \<Longrightarrow> ?thesis" by (simp add: led_loaded_def)
qed

interpretation led_mod: kmodule "\<lambda>env. led_probe env dev" led_fops
  "\<lambda>env. do { _ \<leftarrow> led_remove env; skip }" led_granted led_loaded for dev
proof unfold_locales
  fix env s
  show "led_granted (exec (led_probe env dev) s) \<Longrightarrow> led_loaded (held s) (exec (led_probe env dev) s)"
    by (cases "ghost (trace s)")
      (simp add: led_granted_def led_loaded_def led_probe_def held_def ghost_simps)
next
  fix R s env x
  show "led_loaded R s \<Longrightarrow> led_loaded R (exec (led_fops env x) s)" by (rule led_fops_loaded)
next
  fix R s env
  assume "led_loaded R s"
  then obtain st len where "held s =
     [(''class_device_create'',
        [Num (led_class s), Num NULL, Dev (led_major s) 0, Num NULL, Str ''led''], led_class_device s),
      (''class_create'', [Sym ''THIS_MODULE'', Str ''myled''], led_class s),
      (''register_chrdev'', [Num 0, Str ''myled'', Sym ''led_fops''], led_major s),
      (''ioremap'', [Num st, Num len], gpio_con s)] @ R"
    by (auto simp: led_loaded_def)
  then show "held (exec (do { _ \<leftarrow> led_remove env; skip }) s) = R"
    by (cases "ghost (trace s)") (simp add: led_remove_def held_def ghost_simps)
qed

text \<open>
  Binding the platform driver to the device, using /dev/led in any order and unbinding it
  returns the mapping, the major number, the class and the class device.
\<close>

theorem led_session_balanced:
  "led_granted (exec (led_probe env dev) s) \<Longrightarrow>
   held (exec (session (\<lambda>env. led_probe env dev) led_fops (\<lambda>env. do { _ \<leftarrow> led_remove env; skip }) env xs) s)
     = held s"
  by (rule led_mod.session_balanced)

definition led_start :: led_drv where
  "led_start = \<lparr>trace = [], led_major = 0, gpio_con = 0, gpio_dat = 0, led_pin = 0, led_class = 0,
     led_class_device = 0\<rparr>"

theorem led_session_balanced_witness:
  "led_granted (exec (led_probe (\<lambda>n q. 100) 1) led_start) \<and>
   held (exec (session (\<lambda>env. led_probe env 1) led_fops (\<lambda>env. do { _ \<leftarrow> led_remove env; skip })
     (\<lambda>n q. 100) [Led_open, Led_write 0x8000 4]) led_start) = []"
proof -
  have g: "led_granted (exec (led_probe (\<lambda>n q. 100) 1) led_start)"
    by (simp add: led_granted_def led_probe_def led_start_def)
  have "held led_start = []" by (simp add: led_start_def held_def ghost_def)
  with led_session_balanced [OF g, of "[Led_open, Led_write 0x8000 4]"] g show ?thesis by simp
qed

text \<open>
  With the resources of \<open>led_resource\<close> the probed driver drives GPB8 through a mapping of the
  four bytes of GPBCON.
\<close>

lemma led_probe_resources:
  assumes "env (length (trace s) + 2) (QOut ''platform_get_resource'' 0) = res_start (led_resource ! 0)"
    and "env (length (trace s) + 3) (QOut ''platform_get_resource'' 1) = res_end (led_resource ! 0)"
    and "env (length (trace s) + 6) (QOut ''platform_get_resource'' 0) = res_start (led_resource ! 1)"
  shows "led_pin (exec (led_probe env dev) s) = 8"
    and "Ev (QCall ''ioremap'' [Num 0x56000010, Num 4]) (gpio_con (exec (led_probe env dev) s))
      \<in> set (trace (exec (led_probe env dev) s))"
  using assms by (simp_all add: led_probe_def led_resource_def eval_nat_numeral)

end
