(* ===== verification/Irq.thy ===== *)
theory Irq
  imports Kernel
begin

section \<open>Interrupt lines as resources\<close>

text \<open>
  What the drivers with several interrupt lines share: requesting a table of lines and freeing
  it again, seen by the monitor, and the answers of the environment to consecutive requests.
\<close>

text \<open>A line with its name and device id, its request and the record of it, the event that frees it.\<close>

type_synonym irq_line = "string \<times> string \<times> string"

fun irq_req :: "string \<Rightarrow> irq_line \<Rightarrow> karg list" where
  "irq_req h (l, k, d) = [Sym l, Sym h, Sym ''IRQT_BOTHEDGE'', Str k, Sym d]"

fun irq_free :: "irq_line \<Rightarrow> karg list" where
  "irq_free (l, k, d) = [Sym l, Sym d]"

definition irq_rec :: "string \<Rightarrow> irq_line \<Rightarrow> kres" where
  "irq_rec h x = (''request_irq'', irq_req h x, 0)"

definition req_event :: "string \<Rightarrow> irq_line \<Rightarrow> u32 \<Rightarrow> kevent" where
  "req_event h x r = Ev (QCall ''request_irq'' (irq_req h x)) r"

definition free_event :: "irq_line \<Rightarrow> u32 \<Rightarrow> kevent" where
  "free_event x r = Ev (QCall ''free_irq'' (irq_free x)) r"

definition frees :: "irq_line \<Rightarrow> kres \<Rightarrow> bool" where
  "frees x = (\<lambda>(h, ys, r). h = ''request_irq'' \<and> [ys ! 0, ys ! 4] = irq_free x)"

lemma frees_rec [simp]: "frees x (irq_rec h y) \<longleftrightarrow> irq_free x = irq_free y"
  by (cases x; cases y) (auto simp: frees_def irq_rec_def)

lemma gstep_req: "gstep (req_event h x r) (hs, v) = (if r = 0 then irq_rec h x # hs else hs, v)"
  by (simp add: req_event_def irq_rec_def ghost_simps)

lemma gstep_free: "gstep (free_event x r) (hs, v) =
    (if list_ex (frees x) hs then (drop_first (frees x) hs, v) else (hs, v @ [free_event x r]))"
  by (simp add: free_event_def frees_def ghost_simps)

lemma fold_req:
  "list_all (\<lambda>r. r = 0) rs \<Longrightarrow> length rs = length xs \<Longrightarrow>
    fold gstep (map2 (req_event h) xs rs) (hs, v) = (rev (map (irq_rec h) xs) @ hs, v)"
  by (induction xs rs arbitrary: hs rule: list_induct2') (auto simp: gstep_req)

lemma fold_req_refused:
  "list_all (\<lambda>r. r \<noteq> 0) rs \<Longrightarrow> fold gstep (map2 (req_event h) xs rs) (hs, v) = (hs, v)"
  by (induction xs rs rule: list_induct2') (auto simp: gstep_req)

lemma drop_first_append:
  "\<not> list_ex P xs \<Longrightarrow> drop_first P (xs @ ys) = xs @ drop_first P ys"
  by (induction xs) auto

lemma fold_free:
  "distinct (map irq_free xs) \<Longrightarrow> length rs = length xs \<Longrightarrow>
    fold gstep (map2 free_event xs rs) (rev (map (irq_rec h) xs) @ hs, v) = (hs, v)"
proof (induction xs rs rule: list_induct2')
  case (4 x xs r rs)
  have "\<not> list_ex (frees x) (rev (map (irq_rec h) xs))"
    using "4.prems" by (auto simp: list_ex_iff)
  with 4 show ?case by (simp add: gstep_free drop_first_append)
qed auto

lemma fold_free_unheld:
  "list_all (\<lambda>x. \<not> list_ex (frees x) hs) xs \<Longrightarrow> length rs = length xs \<Longrightarrow>
    fold gstep (map2 free_event xs rs) (hs, v) = (hs, v @ map2 free_event xs rs)"
  by (induction xs rs arbitrary: v rule: list_induct2') (auto simp: gstep_free)

text \<open>The answers to consecutive requests.\<close>

fun answers :: "kenv \<Rightarrow> nat \<Rightarrow> kreq list \<Rightarrow> u32 list" where
  "answers env n [] = []"
| "answers env n (q # qs) = env n q # answers env (Suc n) qs"

lemma length_answers [simp]: "length (answers env n qs) = length qs"
  by (induction qs arbitrary: n) auto

lemma list_all_answers:
  "\<forall>i < length qs. P (env (n + i) (qs ! i)) \<Longrightarrow> list_all P (answers env n qs)"
proof (induction qs arbitrary: n)
  case (Cons q qs)
  from Cons.prems have "P (env n q)" "\<forall>i < length qs. P (env (Suc n + i) (qs ! i))" by fastforce+
  then show ?case using Cons.IH by simp
qed simp

end
