(* ===== verification/Keys.thy ===== *)
theory Keys
  imports Irq Gpio
begin

section \<open>The key drivers: second_drv, third_drv, forth_drv, fifth_drv\<close>

text \<open>
  Four drivers for the six keys on GPG0, 3, 5, 6, 7 and 11: \<^verbatim>\<open>second_drv\<close> polls the pins,
  \<^verbatim>\<open>third_drv\<close> sleeps until an interrupt, \<^verbatim>\<open>forth_drv\<close> adds \<^verbatim>\<open>poll\<close>, \<^verbatim>\<open>fifth_drv\<close> signals the process.
  A blocking \<^verbatim>\<open>read\<close> is split at the points where an interrupt can fall: the part before
  \<^verbatim>\<open>wait_event_interruptible\<close> decides between an immediate error and sleeping, the second copies
  the code to the user, the third clears the event flag; the step relation \<open>key_step\<close>
  interleaves them with interrupts and signals.
\<close>

subsection \<open>second_drv: polling\<close>

record second_drv = kworld +
  second_drv_class :: u32
  second_drv_class_dev :: u32
  gpgcon :: u32
  gpgdat :: u32
  second_major :: u32

definition second_drv_open :: "kenv \<Rightarrow> (second_drv, u32) state" where
  "second_drv_open env = do {
     p \<leftarrow> gets gpgcon;
     reg_clear env p (push_bit (0*2) 0x3 OR push_bit (3*2) 0x3 OR push_bit (5*2) 0x3 OR
       (push_bit (6*2) 0x3 OR (push_bit (7*2) 0x3 OR push_bit (11*2) 0x3)));
     ret 0 }"

definition second_drv_read :: "kenv \<Rightarrow> u32 \<Rightarrow> u32 \<Rightarrow> (second_drv, u32) state" where
  "second_drv_read env buf sz = (if sz \<noteq> 6 then ret (- EINVAL) else do {
     p \<leftarrow> gets gpgdat;
     regval \<leftarrow> rd env p;
     (let key_vals =
        [if regval AND push_bit 0 1 \<noteq> 0 then 1 else 0,
         if regval AND push_bit 3 1 \<noteq> 0 then 1 else 0,
         if regval AND push_bit 5 1 \<noteq> 0 then 1 else 0,
         if regval AND push_bit 6 1 \<noteq> 0 then 1 else 0,
         if regval AND push_bit 7 1 \<noteq> 0 then 1 else 0,
         if regval AND push_bit 11 1 \<noteq> 0 then 1 else 0] in do {
     r \<leftarrow> call env ''copy_to_user'' [Num buf, Bytes key_vals, Num 6];
     (if r = 0 then ret 0 else ret 6) }) })"

definition second_drv_init :: "kenv \<Rightarrow> (second_drv, u32) state" where
  "second_drv_init env = do {
     m \<leftarrow> call env ''register_chrdev'' [Num 0, Str ''second_drv'', Sym ''second_drv_fops''];
     modify (\<lambda>s. s\<lparr>second_major := m\<rparr>);
     c \<leftarrow> call env ''class_create'' [Sym ''THIS_MODULE'', Str ''second_drv''];
     modify (\<lambda>s. s\<lparr>second_drv_class := c\<rparr>);
     d \<leftarrow> call env ''class_device_create'' [Num c, Num NULL, Dev m 0, Num NULL, Str ''buttons''];
     modify (\<lambda>s. s\<lparr>second_drv_class_dev := d\<rparr>);
     p \<leftarrow> call env ''ioremap'' [Num 0x56000060, Num 16];
     modify (\<lambda>s. s\<lparr>gpgcon := p\<rparr>);
     modify (\<lambda>s. s\<lparr>gpgdat := p + 4\<rparr>);
     ret 0 }"

definition second_drv_exit :: "kenv \<Rightarrow> (second_drv, unit) state" where
  "second_drv_exit env = do {
     m \<leftarrow> gets second_major;
     callv env ''unregister_chrdev'' [Num m, Str ''second_drv''];
     d \<leftarrow> gets second_drv_class_dev;
     callv env ''class_device_unregister'' [Num d];
     c \<leftarrow> gets second_drv_class;
     callv env ''class_destroy'' [Num c];
     p \<leftarrow> gets gpgcon;
     callv env ''iounmap'' [Num p] }"

datatype second_op = Second_open | Second_read u32 u32

fun second_drv_fops :: "kenv \<Rightarrow> second_op \<Rightarrow> (second_drv, u32) state" where
  "second_drv_fops env Second_open = second_drv_open env"
| "second_drv_fops env (Second_read buf sz) = second_drv_read env buf sz"

text \<open>The mapping of 16 bytes is granted and does not wrap around the address space.\<close>

definition second_granted :: "second_drv \<Rightarrow> bool" where
  "second_granted s \<longleftrightarrow> 0 \<le> sint (second_major s) \<and> second_drv_class s \<noteq> NULL \<and>
     second_drv_class_dev s \<noteq> NULL \<and> gpgcon s \<noteq> NULL \<and> unat (gpgcon s) + 16 \<le> 2 ^ 32"

definition second_loaded :: "kres list \<Rightarrow> second_drv \<Rightarrow> bool" where
  "second_loaded R s \<longleftrightarrow> held s =
     [(''ioremap'', [Num 0x56000060, Num 16], gpgcon s),
      (''class_device_create'',
        [Num (second_drv_class s), Num NULL, Dev (second_major s) 0, Num NULL, Str ''buttons''],
        second_drv_class_dev s),
      (''class_create'', [Sym ''THIS_MODULE'', Str ''second_drv''], second_drv_class s),
      (''register_chrdev'', [Num 0, Str ''second_drv'', Sym ''second_drv_fops''], second_major s)] @ R
     \<and> gpgdat s = gpgcon s + 4 \<and> unat (gpgcon s) + 16 \<le> 2 ^ 32"

subsection \<open>third_drv: interrupts and a sleeping reader\<close>

record pin_desc =
  pd_pin :: string
  pd_key_val :: u32

definition third_pindesc :: "pin_desc list" where
  "third_pindesc =
     [\<lparr>pd_pin = ''S3C2410_GPG0'', pd_key_val = 0x01\<rparr>,
      \<lparr>pd_pin = ''S3C2410_GPG3'', pd_key_val = 0x02\<rparr>,
      \<lparr>pd_pin = ''S3C2410_GPG5'', pd_key_val = 0x03\<rparr>,
      \<lparr>pd_pin = ''S3C2410_GPG6'', pd_key_val = 0x04\<rparr>,
      \<lparr>pd_pin = ''S3C2410_GPG7'', pd_key_val = 0x05\<rparr>,
      \<lparr>pd_pin = ''S3C2410_GPG11'', pd_key_val = 0x06\<rparr>]"

record key_drv = kworld +
  kd_class :: u32
  kd_class_dev :: u32
  kd_major :: u32
  ev_press :: u32
  key_val :: u8

definition third_irq_handle :: "kenv \<Rightarrow> pin_desc \<Rightarrow> (key_drv, string) state" where
  "third_irq_handle env pindesc = do {
     pinVal \<leftarrow> call env ''s3c2410_gpio_getpin'' [Sym (pd_pin pindesc)];
     (if pinVal \<noteq> 0
      then modify (\<lambda>s. s\<lparr>key_val := ucast (0x80 OR pd_key_val pindesc)\<rparr>)
      else modify (\<lambda>s. s\<lparr>key_val := ucast (pd_key_val pindesc)\<rparr>));
     modify (\<lambda>s. s\<lparr>ev_press := 1\<rparr>);
     callv env ''wake_up_interruptible'' [Sym ''third_waitqueue''];
     ret ''IRQ_HANDLED'' }"

definition third_drv_open :: "kenv \<Rightarrow> (key_drv, u32) state" where
  "third_drv_open env = do {
     callv env ''request_irq'' [Sym ''IRQ_EINT8'', Sym ''third_irq_handle'', Sym ''IRQT_BOTHEDGE'', Str ''k1'', Sym ''&pindesc[0]''];
     callv env ''request_irq'' [Sym ''IRQ_EINT11'', Sym ''third_irq_handle'', Sym ''IRQT_BOTHEDGE'', Str ''k2'', Sym ''&pindesc[1]''];
     callv env ''request_irq'' [Sym ''IRQ_EINT13'', Sym ''third_irq_handle'', Sym ''IRQT_BOTHEDGE'', Str ''k3'', Sym ''&pindesc[2]''];
     callv env ''request_irq'' [Sym ''IRQ_EINT14'', Sym ''third_irq_handle'', Sym ''IRQT_BOTHEDGE'', Str ''k4'', Sym ''&pindesc[3]''];
     callv env ''request_irq'' [Sym ''IRQ_EINT15'', Sym ''third_irq_handle'', Sym ''IRQT_BOTHEDGE'', Str ''k5'', Sym ''&pindesc[4]''];
     callv env ''request_irq'' [Sym ''IRQ_EINT19'', Sym ''third_irq_handle'', Sym ''IRQT_BOTHEDGE'', Str ''k6'', Sym ''&pindesc[5]''];
     ret 0 }"

text \<open>\<open>Some r\<close>: the call returns at once; \<open>None\<close>: it reaches the wait.\<close>

definition third_drv_read_begin :: "u32 \<Rightarrow> u32 option" where
  "third_drv_read_begin sz = (if sz \<noteq> 1 then Some (- EINVAL) else None)"

definition third_drv_read_copy :: "kenv \<Rightarrow> u32 \<Rightarrow> (key_drv, u32 option) state" where
  "third_drv_read_copy env buf = do {
     k \<leftarrow> gets key_val;
     r \<leftarrow> call env ''copy_to_user'' [Num buf, Bytes [k], Num 1];
     (if r \<noteq> 0 then ret (Some (- EINVAL)) else ret None) }"

definition third_drv_read_clear :: "(key_drv, u32) state" where
  "third_drv_read_clear = do { modify (\<lambda>s. s\<lparr>ev_press := 0\<rparr>); ret 1 }"

definition third_drv_release :: "kenv \<Rightarrow> (key_drv, u32) state" where
  "third_drv_release env = do {
     callv env ''free_irq'' [Sym ''IRQ_EINT8'', Sym ''&pindesc[0]''];
     callv env ''free_irq'' [Sym ''IRQ_EINT11'', Sym ''&pindesc[1]''];
     callv env ''free_irq'' [Sym ''IRQ_EINT13'', Sym ''&pindesc[2]''];
     callv env ''free_irq'' [Sym ''IRQ_EINT14'', Sym ''&pindesc[3]''];
     callv env ''free_irq'' [Sym ''IRQ_EINT15'', Sym ''&pindesc[4]''];
     callv env ''free_irq'' [Sym ''IRQ_EINT19'', Sym ''&pindesc[5]''];
     ret 0 }"

definition third_drv_init :: "kenv \<Rightarrow> (key_drv, u32) state" where
  "third_drv_init env = do {
     m \<leftarrow> call env ''register_chrdev'' [Num 0, Str ''third_drv'', Sym ''third_drv_fops''];
     modify (\<lambda>s. s\<lparr>kd_major := m\<rparr>);
     c \<leftarrow> call env ''class_create'' [Sym ''THIS_MODULE'', Str ''third_drv''];
     modify (\<lambda>s. s\<lparr>kd_class := c\<rparr>);
     d \<leftarrow> call env ''class_device_create'' [Num c, Num NULL, Dev m 0, Num NULL, Str ''buttons''];
     modify (\<lambda>s. s\<lparr>kd_class_dev := d\<rparr>);
     ret 0 }"

definition third_drv_exit :: "kenv \<Rightarrow> (key_drv, unit) state" where
  "third_drv_exit env = do {
     m \<leftarrow> gets kd_major;
     callv env ''unregister_chrdev'' [Num m, Str ''third_drv''];
     d \<leftarrow> gets kd_class_dev;
     callv env ''class_device_unregister'' [Num d];
     c \<leftarrow> gets kd_class;
     callv env ''class_destroy'' [Num c] }"

subsection \<open>forth_drv: poll\<close>

definition forth_pindesc :: "pin_desc list" where
  "forth_pindesc =
     [\<lparr>pd_pin = ''S3C2410_GPG0'', pd_key_val = 0x01\<rparr>,
      \<lparr>pd_pin = ''S3C2410_GPG3'', pd_key_val = 0x02\<rparr>,
      \<lparr>pd_pin = ''S3C2410_GPG5'', pd_key_val = 0x03\<rparr>,
      \<lparr>pd_pin = ''S3C2410_GPG6'', pd_key_val = 0x04\<rparr>,
      \<lparr>pd_pin = ''S3C2410_GPG7'', pd_key_val = 0x05\<rparr>,
      \<lparr>pd_pin = ''S3C2410_GPG11'', pd_key_val = 0x06\<rparr>]"

definition forth_irq_handle :: "kenv \<Rightarrow> pin_desc \<Rightarrow> (key_drv, string) state" where
  "forth_irq_handle env pindesc = do {
     pinVal \<leftarrow> call env ''s3c2410_gpio_getpin'' [Sym (pd_pin pindesc)];
     (if pinVal \<noteq> 0
      then modify (\<lambda>s. s\<lparr>key_val := ucast (0x80 OR pd_key_val pindesc)\<rparr>)
      else modify (\<lambda>s. s\<lparr>key_val := ucast (pd_key_val pindesc)\<rparr>));
     modify (\<lambda>s. s\<lparr>ev_press := 1\<rparr>);
     callv env ''wake_up_interruptible'' [Sym ''forth_waitqueue''];
     ret ''IRQ_HANDLED'' }"

definition forth_drv_open :: "kenv \<Rightarrow> (key_drv, u32) state" where
  "forth_drv_open env = do {
     callv env ''request_irq'' [Sym ''IRQ_EINT8'', Sym ''forth_irq_handle'', Sym ''IRQT_BOTHEDGE'', Str ''k1'', Sym ''&pindesc[0]''];
     callv env ''request_irq'' [Sym ''IRQ_EINT11'', Sym ''forth_irq_handle'', Sym ''IRQT_BOTHEDGE'', Str ''k2'', Sym ''&pindesc[1]''];
     callv env ''request_irq'' [Sym ''IRQ_EINT13'', Sym ''forth_irq_handle'', Sym ''IRQT_BOTHEDGE'', Str ''k3'', Sym ''&pindesc[2]''];
     callv env ''request_irq'' [Sym ''IRQ_EINT14'', Sym ''forth_irq_handle'', Sym ''IRQT_BOTHEDGE'', Str ''k4'', Sym ''&pindesc[3]''];
     callv env ''request_irq'' [Sym ''IRQ_EINT15'', Sym ''forth_irq_handle'', Sym ''IRQT_BOTHEDGE'', Str ''k5'', Sym ''&pindesc[4]''];
     callv env ''request_irq'' [Sym ''IRQ_EINT19'', Sym ''forth_irq_handle'', Sym ''IRQT_BOTHEDGE'', Str ''k6'', Sym ''&pindesc[5]''];
     ret 0 }"

definition forth_drv_read_begin :: "u32 \<Rightarrow> u32 option" where
  "forth_drv_read_begin sz = (if sz \<noteq> 1 then Some (- EINVAL) else None)"

definition forth_drv_read_copy :: "kenv \<Rightarrow> u32 \<Rightarrow> (key_drv, u32 option) state" where
  "forth_drv_read_copy env buf = do {
     k \<leftarrow> gets key_val;
     r \<leftarrow> call env ''copy_to_user'' [Num buf, Bytes [k], Num 1];
     (if r \<noteq> 0 then ret (Some (- EINVAL)) else ret None) }"

definition forth_drv_read_clear :: "(key_drv, u32) state" where
  "forth_drv_read_clear = do { modify (\<lambda>s. s\<lparr>ev_press := 0\<rparr>); ret 1 }"

definition forth_drv_release :: "kenv \<Rightarrow> (key_drv, u32) state" where
  "forth_drv_release env = do {
     callv env ''free_irq'' [Sym ''IRQ_EINT8'', Sym ''&pindesc[0]''];
     callv env ''free_irq'' [Sym ''IRQ_EINT11'', Sym ''&pindesc[1]''];
     callv env ''free_irq'' [Sym ''IRQ_EINT13'', Sym ''&pindesc[2]''];
     callv env ''free_irq'' [Sym ''IRQ_EINT14'', Sym ''&pindesc[3]''];
     callv env ''free_irq'' [Sym ''IRQ_EINT15'', Sym ''&pindesc[4]''];
     callv env ''free_irq'' [Sym ''IRQ_EINT19'', Sym ''&pindesc[5]''];
     ret 0 }"

text \<open>The two poll bits are kernel constants; the mask is the list of those that are set.\<close>

definition forth_drv_poll :: "kenv \<Rightarrow> (key_drv, string list) state" where
  "forth_drv_poll env = do {
     printk env ''driver poll is being call'';
     callv env ''poll_wait'' [Sym ''forth_waitqueue''];
     e \<leftarrow> gets ev_press;
     (if e \<noteq> 0 then ret [''POLLIN'', ''POLLRDNORM''] else ret []) }"

definition forth_drv_init :: "kenv \<Rightarrow> (key_drv, u32) state" where
  "forth_drv_init env = do {
     m \<leftarrow> call env ''register_chrdev'' [Num 0, Str ''forth_drv'', Sym ''forth_drv_fops''];
     modify (\<lambda>s. s\<lparr>kd_major := m\<rparr>);
     c \<leftarrow> call env ''class_create'' [Sym ''THIS_MODULE'', Str ''forth_drv''];
     modify (\<lambda>s. s\<lparr>kd_class := c\<rparr>);
     d \<leftarrow> call env ''class_device_create'' [Num c, Num NULL, Dev m 0, Num NULL, Str ''buttons''];
     modify (\<lambda>s. s\<lparr>kd_class_dev := d\<rparr>);
     ret 0 }"

definition forth_drv_exit :: "kenv \<Rightarrow> (key_drv, unit) state" where
  "forth_drv_exit env = do {
     m \<leftarrow> gets kd_major;
     callv env ''unregister_chrdev'' [Num m, Str ''forth_drv''];
     d \<leftarrow> gets kd_class_dev;
     callv env ''class_device_unregister'' [Num d];
     c \<leftarrow> gets kd_class;
     callv env ''class_destroy'' [Num c] }"

subsection \<open>fifth_drv: asynchronous notification\<close>

definition fifth_pindesc :: "pin_desc list" where
  "fifth_pindesc =
     [\<lparr>pd_pin = ''S3C2410_GPG0'', pd_key_val = 0x01\<rparr>,
      \<lparr>pd_pin = ''S3C2410_GPG3'', pd_key_val = 0x02\<rparr>,
      \<lparr>pd_pin = ''S3C2410_GPG5'', pd_key_val = 0x03\<rparr>,
      \<lparr>pd_pin = ''S3C2410_GPG6'', pd_key_val = 0x04\<rparr>,
      \<lparr>pd_pin = ''S3C2410_GPG7'', pd_key_val = 0x05\<rparr>,
      \<lparr>pd_pin = ''S3C2410_GPG11'', pd_key_val = 0x06\<rparr>]"

definition fifth_irq_handle :: "kenv \<Rightarrow> pin_desc \<Rightarrow> (key_drv, string) state" where
  "fifth_irq_handle env pindesc = do {
     pinVal \<leftarrow> call env ''s3c2410_gpio_getpin'' [Sym (pd_pin pindesc)];
     (if pinVal \<noteq> 0
      then modify (\<lambda>s. s\<lparr>key_val := ucast (0x80 OR pd_key_val pindesc)\<rparr>)
      else modify (\<lambda>s. s\<lparr>key_val := ucast (pd_key_val pindesc)\<rparr>));
     callv env ''kill_fasync'' [Sym ''&fifth_async_queue'', Sym ''SIGIO'', Sym ''POLL_IN''];
     ret ''IRQ_HANDLED'' }"

definition fifth_drv_open :: "kenv \<Rightarrow> (key_drv, u32) state" where
  "fifth_drv_open env = do {
     callv env ''request_irq'' [Sym ''IRQ_EINT8'', Sym ''fifth_irq_handle'', Sym ''IRQT_BOTHEDGE'', Str ''k1'', Sym ''&pindesc[0]''];
     callv env ''request_irq'' [Sym ''IRQ_EINT11'', Sym ''fifth_irq_handle'', Sym ''IRQT_BOTHEDGE'', Str ''k2'', Sym ''&pindesc[1]''];
     callv env ''request_irq'' [Sym ''IRQ_EINT13'', Sym ''fifth_irq_handle'', Sym ''IRQT_BOTHEDGE'', Str ''k3'', Sym ''&pindesc[2]''];
     callv env ''request_irq'' [Sym ''IRQ_EINT14'', Sym ''fifth_irq_handle'', Sym ''IRQT_BOTHEDGE'', Str ''k4'', Sym ''&pindesc[3]''];
     callv env ''request_irq'' [Sym ''IRQ_EINT15'', Sym ''fifth_irq_handle'', Sym ''IRQT_BOTHEDGE'', Str ''k5'', Sym ''&pindesc[4]''];
     callv env ''request_irq'' [Sym ''IRQ_EINT19'', Sym ''fifth_irq_handle'', Sym ''IRQT_BOTHEDGE'', Str ''k6'', Sym ''&pindesc[5]''];
     ret 0 }"

definition fifth_drv_read :: "kenv \<Rightarrow> u32 \<Rightarrow> u32 \<Rightarrow> (key_drv, u32) state" where
  "fifth_drv_read env buf sz = (if sz \<noteq> 1 then ret (- EINVAL) else do {
     k \<leftarrow> gets key_val;
     r \<leftarrow> call env ''copy_to_user'' [Num buf, Bytes [k], Num 1];
     (if r \<noteq> 0 then ret (- EINVAL) else ret 1) })"

definition fifth_drv_release :: "kenv \<Rightarrow> (key_drv, u32) state" where
  "fifth_drv_release env = do {
     printk env ''driver release being called'';
     callv env ''free_irq'' [Sym ''IRQ_EINT8'', Sym ''&pindesc[0]''];
     callv env ''free_irq'' [Sym ''IRQ_EINT11'', Sym ''&pindesc[1]''];
     callv env ''free_irq'' [Sym ''IRQ_EINT13'', Sym ''&pindesc[2]''];
     callv env ''free_irq'' [Sym ''IRQ_EINT14'', Sym ''&pindesc[3]''];
     callv env ''free_irq'' [Sym ''IRQ_EINT15'', Sym ''&pindesc[4]''];
     callv env ''free_irq'' [Sym ''IRQ_EINT19'', Sym ''&pindesc[5]''];
     ret 0 }"

definition fifth_drv_poll :: "kenv \<Rightarrow> (key_drv, string list) state" where
  "fifth_drv_poll env = do {
     printk env ''driver poll is being call'';
     callv env ''poll_wait'' [Sym ''fifth_waitqueue''];
     e \<leftarrow> gets ev_press;
     (if e \<noteq> 0 then ret [''POLLIN'', ''POLLRDNORM''] else ret []) }"

definition fifth_drv_fasync :: "kenv \<Rightarrow> u32 \<Rightarrow> u32 \<Rightarrow> (key_drv, u32) state" where
  "fifth_drv_fasync env fd on = do {
     printk env ''driver fasync is being called'';
     r \<leftarrow> call env ''fasync_helper'' [Num fd, Num on, Sym ''&fifth_async_queue''];
     (if 0 \<le> sint r then ret 0 else ret (- EIO)) }"

definition fifth_drv_init :: "kenv \<Rightarrow> (key_drv, u32) state" where
  "fifth_drv_init env = do {
     m \<leftarrow> call env ''register_chrdev'' [Num 0, Str ''fifth_drv'', Sym ''fifth_drv_fops''];
     modify (\<lambda>s. s\<lparr>kd_major := m\<rparr>);
     c \<leftarrow> call env ''class_create'' [Sym ''THIS_MODULE'', Str ''fifth_drv''];
     modify (\<lambda>s. s\<lparr>kd_class := c\<rparr>);
     d \<leftarrow> call env ''class_device_create'' [Num c, Num NULL, Dev m 0, Num NULL, Str ''buttons''];
     modify (\<lambda>s. s\<lparr>kd_class_dev := d\<rparr>);
     ret 0 }"

definition fifth_drv_exit :: "kenv \<Rightarrow> (key_drv, unit) state" where
  "fifth_drv_exit env = do {
     m \<leftarrow> gets kd_major;
     callv env ''unregister_chrdev'' [Num m, Str ''fifth_drv''];
     d \<leftarrow> gets kd_class_dev;
     callv env ''class_device_unregister'' [Num d];
     c \<leftarrow> gets kd_class;
     callv env ''class_destroy'' [Num c] }"

subsection \<open>Interleaving of reader, interrupts and signals\<close>

text \<open>
  One reading process beside the interrupts. The process runs outside the driver, sleeps in the
  wait, or has copied the code and not cleared the flag yet. A label records the visible part of
  a step: an interrupt with the code it stored, a call that is refused or goes to sleep, the copy
  of a code to the user with its outcome, the end of the call. \<open>Wake\<close> is the copy after a normal
  return of \<^verbatim>\<open>wait_event_interruptible\<close> (its condition holds), \<open>Signal\<close> the copy after its return
  because of a signal, whose result the drivers ignore.
\<close>

datatype reader = Running | Sleeping u32 | Copied

datatype klabel = Irq pin_desc u8 | Call u32 | Wake "u32 option" u8 | Signal "u32 option" u8 | Clear u32

fun after_copy :: "u32 option \<Rightarrow> reader" where
  "after_copy (Some r) = Running"
| "after_copy None = Copied"

type_synonym irq_op = "kenv \<Rightarrow> pin_desc \<Rightarrow> (key_drv, string) state"
type_synonym begin_op = "u32 \<Rightarrow> u32 option"
type_synonym copy_op = "kenv \<Rightarrow> u32 \<Rightarrow> (key_drv, u32 option) state"
type_synonym clear_op = "(key_drv, u32) state"
type_synonym key_conf = "key_drv \<times> reader"

inductive key_step :: "irq_op \<Rightarrow> begin_op \<Rightarrow> copy_op \<Rightarrow> clear_op \<Rightarrow> kenv \<Rightarrow> key_conf \<Rightarrow> klabel \<Rightarrow> key_conf \<Rightarrow> bool"
  for irq rbegin rcopy rclear env where
  interrupt: "t = exec (irq env d) s \<Longrightarrow>
     key_step irq rbegin rcopy rclear env (s, p) (Irq d (key_val t)) (t, p)"
| refuse: "rbegin sz = Some r \<Longrightarrow>
     key_step irq rbegin rcopy rclear env (s, Running) (Call r) (s, Running)"
| sleep: "rbegin sz = None \<Longrightarrow>
     key_step irq rbegin rcopy rclear env (s, Running) (Call 0) (s, Sleeping buf)"
| wake: "ev_press s \<noteq> 0 \<Longrightarrow> run_state (rcopy env buf) s = (r, t) \<Longrightarrow>
     key_step irq rbegin rcopy rclear env (s, Sleeping buf) (Wake r (key_val s)) (t, after_copy r)"
| signal: "run_state (rcopy env buf) s = (r, t) \<Longrightarrow>
     key_step irq rbegin rcopy rclear env (s, Sleeping buf) (Signal r (key_val s)) (t, after_copy r)"
| clear: "run_state rclear s = (r, t) \<Longrightarrow>
     key_step irq rbegin rcopy rclear env (s, Copied) (Clear r) (t, Running)"

inductive_cases key_step_WakeE: "key_step irq rbegin rcopy rclear env x (Wake r k) y"

inductive key_run :: "irq_op \<Rightarrow> begin_op \<Rightarrow> copy_op \<Rightarrow> clear_op \<Rightarrow> kenv \<Rightarrow> key_conf \<Rightarrow> klabel list \<Rightarrow> key_conf \<Rightarrow> bool"
  for irq rbegin rcopy rclear env x where
  none: "key_run irq rbegin rcopy rclear env x [] x"
| more: "key_run irq rbegin rcopy rclear env x ls y \<Longrightarrow> key_step irq rbegin rcopy rclear env y l z \<Longrightarrow>
     key_run irq rbegin rcopy rclear env x (ls @ [l]) z"

inductive_cases key_run_snocE: "key_run irq rbegin rcopy rclear env x (ls @ [l]) z"

text \<open>The code of the last interrupt that has not been handed to a reader yet.\<close>

fun pending_step :: "klabel \<Rightarrow> u8 option \<Rightarrow> u8 option" where
  "pending_step (Irq d k) p = Some k"
| "pending_step (Wake None k) p = None"
| "pending_step (Signal None k) p = None"
| "pending_step l p = p"

definition pending :: "klabel list \<Rightarrow> u8 option" where
  "pending ls = fold pending_step ls None"

lemma pending_snoc [simp]: "pending (ls @ [l]) = pending_step l (pending ls)"
  by (simp add: pending_def)

lemma pending_Nil [simp]: "pending [] = None"
  by (simp add: pending_def)

text \<open>
  Whether some interrupt fell between the copy of a code and the clearing of the flag:
  the first component says that a copy is not cleared yet, the second that it happened.
\<close>

fun race_step :: "klabel \<Rightarrow> bool \<times> bool \<Rightarrow> bool \<times> bool" where
  "race_step (Irq d k) (c, b) = (c, b \<or> c)"
| "race_step (Wake None k) (c, b) = (True, b)"
| "race_step (Signal None k) (c, b) = (True, b)"
| "race_step (Clear r) (c, b) = (False, b)"
| "race_step l cb = cb"

definition raced :: "klabel list \<Rightarrow> bool \<times> bool" where
  "raced ls = fold race_step ls (False, False)"

lemma raced_snoc [simp]: "raced (ls @ [l]) = race_step l (raced ls)"
  by (simp add: raced_def)

lemma raced_Nil [simp]: "raced [] = (False, False)"
  by (simp add: raced_def)

text \<open>
  The contract between an interrupt handler and a blocking read: the handler raises the event
  flag; the copy keeps flag and code; the last part clears the flag and returns 1.
\<close>

locale key_reader =
  fixes irq :: irq_op and rbegin :: begin_op and rcopy :: copy_op and rclear :: clear_op
  assumes irq_ev: "ev_press (exec (irq env d) s) \<noteq> 0"
    and rcopy_keeps: "run_state (rcopy env buf) s = (r, t) \<Longrightarrow> ev_press t = ev_press s \<and> key_val t = key_val s"
    and rclear_ev: "ev_press (exec rclear s) = 0"
begin

text \<open>
  Outside the window between copy and clear, a raised flag stands for an undelivered code; the
  converse holds as long as no interrupt fell into that window.
\<close>

definition agrees :: "klabel list \<Rightarrow> key_conf \<Rightarrow> bool" where
  "agrees ls x \<longleftrightarrow> (case x of (s, p) \<Rightarrow>
     fst (raced ls) = (p = Copied) \<and>
     (p \<noteq> Copied \<longrightarrow> ev_press s \<noteq> 0 \<longrightarrow> pending ls = Some (key_val s)) \<and>
     (\<not> snd (raced ls) \<longrightarrow> pending ls \<noteq> None \<longrightarrow> p \<noteq> Copied \<and> ev_press s \<noteq> 0))"

lemma step_agrees:
  assumes "key_step irq rbegin rcopy rclear env x l y" and "agrees ls x"
  shows "agrees (ls @ [l]) y"
  using assms
proof cases
  case (interrupt t d s p)
  have "ev_press t \<noteq> 0" unfolding interrupt(4) by (rule irq_ev)
  then show ?thesis unfolding interrupt(1-3) using assms(2) interrupt(1)
    by (cases "raced ls") (auto simp: agrees_def)
next
  case (wake s buf r t)
  have "ev_press t = ev_press s" "key_val t = key_val s"
    using rcopy_keeps [OF wake(5)] by simp_all
  then show ?thesis using assms(2) wake(4) unfolding wake(1-3)
    by (cases r; cases "raced ls") (simp_all add: agrees_def)
next
  case (signal buf s r t)
  have "ev_press t = ev_press s" "key_val t = key_val s"
    using rcopy_keeps [OF signal(4)] by simp_all
  then show ?thesis using assms(2) unfolding signal(1-3)
    by (cases "ev_press s = 0"; cases r; cases "raced ls") (simp_all add: agrees_def)
next
  case (clear s r t)
  have "ev_press t = 0" using rclear_ev [of s] clear(4) by simp
  then show ?thesis using assms(2) unfolding clear(1-3)
    by (cases "raced ls") (auto simp: agrees_def)
next
  case (refuse sz r s)
  then show ?thesis using assms(2) by (cases "ev_press s = 0") (simp_all add: agrees_def)
next
  case (sleep sz s buf)
  then show ?thesis using assms(2) by (cases "ev_press s = 0") (simp_all add: agrees_def)
qed

lemma run_agrees:
  "key_run irq rbegin rcopy rclear env x ls y \<Longrightarrow> ev_press (fst x) = 0 \<Longrightarrow> snd x = Running \<Longrightarrow> agrees ls y"
proof (induction rule: key_run.induct)
  case none
  then show ?case by (cases x) (simp add: agrees_def)
next
  case (more ls y l z)
  then show ?case using step_agrees by blast
qed

lemma wake_delivers:
  assumes "key_run irq rbegin rcopy rclear env x (ls @ [Wake r k]) y"
    and "ev_press (fst x) = 0" and "snd x = Running"
  shows "pending ls = Some k"
proof -
  obtain z where run: "key_run irq rbegin rcopy rclear env x ls z"
    and step: "key_step irq rbegin rcopy rclear env z (Wake r k) y"
    using assms(1) by (auto elim: key_run_snocE)
  have "agrees ls z" using run assms(2,3) by (rule run_agrees)
  with step show ?thesis by (elim key_step_WakeE) (auto simp: agrees_def)
qed

lemma wake_enabled:
  assumes "key_run irq rbegin rcopy rclear env x ls (s, Sleeping buf)"
    and "ev_press (fst x) = 0" "snd x = Running" and "pending ls = Some k" "\<not> snd (raced ls)"
  shows "\<exists>r t. key_step irq rbegin rcopy rclear env (s, Sleeping buf) (Wake r k) (t, after_copy r)"
proof -
  have "agrees ls (s, Sleeping buf)" using run_agrees [OF assms(1-3)] .
  then have "ev_press s \<noteq> 0" "key_val s = k" using assms(4,5) by (auto simp: agrees_def)
  moreover obtain r t where "run_state (rcopy env buf) s = (r, t)" by fastforce
  ultimately show ?thesis using key_step.wake by blast
qed

end

interpretation third_reader: key_reader third_irq_handle third_drv_read_begin third_drv_read_copy third_drv_read_clear
  by unfold_locales
    (auto simp: third_irq_handle_def third_drv_read_copy_def third_drv_read_clear_def split: if_splits)

interpretation forth_reader: key_reader forth_irq_handle forth_drv_read_begin forth_drv_read_copy forth_drv_read_clear
  by unfold_locales
    (auto simp: forth_irq_handle_def forth_drv_read_copy_def forth_drv_read_clear_def split: if_splits)

subsection \<open>second_drv: what a read returns, and its registers\<close>

definition key_pins :: "nat list" where
  "key_pins = [0, 3, 5, 6, 7, 11]"

lemma second_read_run:
  "run_state (second_drv_read env buf 6) s =
     (let v = env (length (trace s)) (QRd (gpgdat s));
          q = QCall ''copy_to_user'' [Num buf, Bytes (map (\<lambda>n. of_bool (bit v n)) key_pins), Num 6];
          r = env (Suc (length (trace s))) q
      in (if r = 0 then 0 else 6, s\<lparr>trace := trace s @ [Ev (QRd (gpgdat s)) v, Ev q r]\<rparr>))"
  unfolding second_drv_read_def Let_def and_push_bit_one
  by (simp add: key_pins_def of_bool_def)

text \<open>
  C26. A read of six bytes from second_drv hands the user one byte per key, in the order of the
  pins GPG0, 3, 5, 6, 7, 11, each the level of that pin in one single read of the data register;
  any other size is refused with -EINVAL before the hardware is touched. The returned count is
  inverted: 0 when the copy succeeded, 6 when it did not.
\<close>

theorem second_drv_read_keys:
  "run_state (second_drv_read env buf sz) s =
     (if sz \<noteq> 6 then (- EINVAL, s) else
      let v = env (length (trace s)) (QRd (gpgdat s));
          q = QCall ''copy_to_user'' [Num buf, Bytes (map (\<lambda>n. of_bool (bit v n)) [0, 3, 5, 6, 7, 11]), Num 6];
          r = env (Suc (length (trace s))) q
      in (if r = 0 then 0 else 6, s\<lparr>trace := trace s @ [Ev (QRd (gpgdat s)) v, Ev q r]\<rparr>))"
proof (cases "sz = 6")
  case True
  then show ?thesis using second_read_run [of env buf s] by (simp only: key_pins_def) simp
next
  case False
  then show ?thesis by (simp add: second_drv_read_def)
qed

lemma second_open_run:
  "run_state (second_drv_open env) s = (let v = env (length (trace s)) (QRd (gpgcon s)) in
     (0, s\<lparr>trace := trace s @ [Ev (QRd (gpgcon s)) v, Wr (gpgcon s) (v AND NOT 0xC0FCC3)]\<rparr>))"
  by (simp add: second_drv_open_def Let_def)

lemma second_maps:
  assumes "unat p + 16 \<le> 2 ^ 32"
  shows "maps (''ioremap'', [Num a, Num 16], p) p" "maps (''ioremap'', [Num a, Num 16], p) (p + 4)"
proof -
  have "unat (p + 4) = unat p + 4" using assms by (simp add: unat_word_ariths)
  then show "maps (''ioremap'', [Num a, Num 16], p) p" "maps (''ioremap'', [Num a, Num 16], p) (p + 4)"
    by (simp_all add: maps_def)
qed

lemma second_loaded_mapped:
  assumes "second_loaded R s"
  shows "list_ex (\<lambda>x. maps x (gpgcon s)) (held s)" "list_ex (\<lambda>x. maps x (gpgdat s)) (held s)"
  using assms second_maps [of "gpgcon s"] by (auto simp: second_loaded_def)

lemma second_fops_ghost:
  assumes "second_loaded R s"
  shows "\<exists>es. exec (second_drv_fops env x) s = s\<lparr>trace := trace s @ es\<rparr> \<and>
    fold gstep es (held s, viol s) = (held s, viol s)"
proof (cases x)
  case Second_open
  show ?thesis unfolding Second_open second_drv_fops.simps second_open_run Let_def snd_conv
    using second_loaded_mapped [OF assms] by (intro exI conjI) (rule refl, simp)
next
  case (Second_read buf sz)
  show ?thesis
  proof (cases "sz = 6")
    case True
    show ?thesis unfolding Second_read second_drv_fops.simps True second_read_run Let_def snd_conv
      using second_loaded_mapped [OF assms] by (intro exI conjI) (rule refl, simp add: ghost_simps)
  next
    case False
    have "exec (second_drv_fops env x) s = s\<lparr>trace := trace s @ []\<rparr>"
      using False by (simp add: Second_read second_drv_read_def)
    then show ?thesis by (intro exI conjI) (assumption, simp)
  qed
qed

lemma second_fops_keeps:
  assumes "second_loaded R s"
  shows "second_loaded R (exec (second_drv_fops env x) s)" "viol (exec (second_drv_fops env x) s) = viol s"
proof -
  obtain es where es: "exec (second_drv_fops env x) s = s\<lparr>trace := trace s @ es\<rparr>"
    "fold gstep es (held s, viol s) = (held s, viol s)"
    using second_fops_ghost [OF assms] by blast
  have tr: "trace (exec (second_drv_fops env x) s) = trace s @ es" using es(1) by simp
  have "held (exec (second_drv_fops env x) s) = held s"
    using held_viol_cases(1) [OF tr] es(2) by simp
  then show "second_loaded R (exec (second_drv_fops env x) s)"
    using assms es(1) by (simp add: second_loaded_def)
  show "viol (exec (second_drv_fops env x) s) = viol s"
    using held_viol_cases(2) [OF tr] es(2) by simp
qed

lemma second_init_ghost:
  "second_granted (exec (second_drv_init env) s) \<Longrightarrow>
    second_loaded (held s) (exec (second_drv_init env) s) \<and> viol (exec (second_drv_init env) s) = viol s"
  by (cases "ghost (trace s)")
    (simp add: second_granted_def second_loaded_def second_drv_init_def held_def viol_def ghost_simps)

lemma second_exit_ghost:
  "second_loaded R s \<Longrightarrow>
    held (exec (second_drv_exit env) s) = R \<and> viol (exec (second_drv_exit env) s) = viol s"
  by (cases "ghost (trace s)")
    (simp add: second_loaded_def second_drv_exit_def held_def viol_def ghost_simps)

interpretation second_mod: safe_kmodule second_drv_init second_drv_fops second_drv_exit
  second_granted second_loaded
  by unfold_locales (simp_all add: second_init_ghost second_exit_ghost second_fops_keeps)

text \<open>
  A complete life of second_drv, load, any sequence of opens and reads with any sizes,
  unload, returns every resource and touches no register outside its mapping and releases
  nothing it does not hold.
\<close>

theorem second_drv_session_safe:
  "second_granted (exec (second_drv_init env) s) \<Longrightarrow>
   held (exec (session second_drv_init second_drv_fops second_drv_exit env xs) s) = held s \<and>
   viol (exec (session second_drv_init second_drv_fops second_drv_exit env xs) s) = viol s"
  by (intro conjI second_mod.session_balanced second_mod.session_safe)

definition second_start :: second_drv where
  "second_start = \<lparr>trace = [], second_drv_class = 0, second_drv_class_dev = 0, gpgcon = 0, gpgdat = 0,
     second_major = 0\<rparr>"

theorem second_drv_session_safe_witness:
  "second_granted (exec (second_drv_init (\<lambda>n q. 100)) second_start) \<and>
   viol (exec (session second_drv_init second_drv_fops second_drv_exit (\<lambda>n q. 100)
     [Second_open, Second_read 0x8000 6, Second_read 0x8000 1]) second_start) = []"
proof -
  have g: "second_granted (exec (second_drv_init (\<lambda>n q. 100)) second_start)"
    by (simp add: second_granted_def second_drv_init_def second_start_def)
  have "viol second_start = []" by (simp add: second_start_def viol_def ghost_def)
  with second_drv_session_safe [OF g, of "[Second_open, Second_read 0x8000 6, Second_read 0x8000 1]"] g
  show ?thesis by simp
qed

subsection \<open>Interrupt lines over the life of an open file\<close>

text \<open>
  The answers of \<^verbatim>\<open>request_irq\<close> to the six requests of an open that starts in \<open>s\<close>: all granted, or
  all refused, as the kernel does for lines that are in use and not shared.
\<close>

definition irqs_granted :: "kenv \<Rightarrow> 's kworld_scheme \<Rightarrow> bool" where
  "irqs_granted env s \<longleftrightarrow>
     (\<forall>i<6. \<forall>xs. env (length (trace s) + i) (QCall ''request_irq'' xs) = 0)"

definition irqs_refused :: "kenv \<Rightarrow> 's kworld_scheme \<Rightarrow> bool" where
  "irqs_refused env s \<longleftrightarrow>
     (\<forall>i<6. \<forall>xs. env (length (trace s) + i) (QCall ''request_irq'' xs) \<noteq> 0)"

text \<open>The six lines.\<close>

definition irq_lines :: "irq_line list" where
  "irq_lines = [(''IRQ_EINT8'', ''k1'', ''&pindesc[0]''), (''IRQ_EINT11'', ''k2'', ''&pindesc[1]''),
     (''IRQ_EINT13'', ''k3'', ''&pindesc[2]''), (''IRQ_EINT14'', ''k4'', ''&pindesc[3]''),
     (''IRQ_EINT15'', ''k5'', ''&pindesc[4]''), (''IRQ_EINT19'', ''k6'', ''&pindesc[5]'')]"

lemma distinct_irq_lines: "distinct (map irq_free irq_lines)"
  by (simp add: irq_lines_def)

definition req_qs :: "string \<Rightarrow> kreq list" where
  "req_qs h = map (\<lambda>x. QCall ''request_irq'' (irq_req h x)) irq_lines"

definition free_qs :: "kreq list" where
  "free_qs = map (\<lambda>x. QCall ''free_irq'' (irq_free x)) irq_lines"

lemma length_qs [simp]: "length (req_qs h) = 6" "length free_qs = 6" "length irq_lines = 6"
  by (simp_all add: req_qs_def free_qs_def irq_lines_def)

lemma nth_req_qs: "i < 6 \<Longrightarrow> \<exists>xs. req_qs h ! i = QCall ''request_irq'' xs"
  using length_qs(1) [of h] by (auto simp: req_qs_def)

lemma req_answers:
  "irqs_granted env s \<Longrightarrow> list_all (\<lambda>r. r = 0) (answers env (length (trace s)) (req_qs h))"
  "irqs_refused env s \<Longrightarrow> list_all (\<lambda>r. r \<noteq> 0) (answers env (length (trace s)) (req_qs h))"
  unfolding irqs_granted_def irqs_refused_def
  by (rule list_all_answers; metis nth_req_qs length_qs(1))+

lemmas six_defs = req_qs_def free_qs_def irq_lines_def req_event_def free_event_def

lemma third_open_run: "exec (third_drv_open env) s = s\<lparr>trace := trace s @
    map2 (req_event ''third_irq_handle'') irq_lines (answers env (length (trace s)) (req_qs ''third_irq_handle''))\<rparr>"
  by (simp add: third_drv_open_def six_defs)

lemma forth_open_run: "exec (forth_drv_open env) s = s\<lparr>trace := trace s @
    map2 (req_event ''forth_irq_handle'') irq_lines (answers env (length (trace s)) (req_qs ''forth_irq_handle''))\<rparr>"
  by (simp add: forth_drv_open_def six_defs)

lemma third_release_run: "exec (third_drv_release env) s = s\<lparr>trace := trace s @
    map2 free_event irq_lines (answers env (length (trace s)) free_qs)\<rparr>"
  by (simp add: third_drv_release_def six_defs)

lemma forth_release_run: "exec (forth_drv_release env) s = s\<lparr>trace := trace s @
    map2 free_event irq_lines (answers env (length (trace s)) free_qs)\<rparr>"
  by (simp add: forth_drv_release_def six_defs)

text \<open>
  The contract of a driver that requests its lines in open and frees them in release: between
  the two neither the handler nor a read acquires, releases or touches anything.
\<close>

locale irq_user = key_reader irq rbegin rcopy rclear
  for irq :: irq_op and rbegin :: begin_op and rcopy :: copy_op and rclear :: clear_op +
  fixes opn :: "kenv \<Rightarrow> (key_drv, u32) state" and rel :: "kenv \<Rightarrow> (key_drv, u32) state"
  assumes irq_ghost: "ghost (trace (exec (irq env d) s)) = ghost (trace s)"
    and rcopy_ghost: "ghost (trace (exec (rcopy env buf) s)) = ghost (trace s)"
    and rclear_ghost: "ghost (trace (exec rclear s)) = ghost (trace s)"
    and rel_ghost: "irqs_granted env s \<Longrightarrow> ghost (trace t) = ghost (trace (exec (opn env) s)) \<Longrightarrow>
      ghost (trace (exec (rel env) t)) = ghost (trace s)"
begin

lemma step_ghost:
  "key_step irq rbegin rcopy rclear env x l y \<Longrightarrow> ghost (trace (fst y)) = ghost (trace (fst x))"
proof (induction rule: key_step.induct)
  case (wake s buf r t)
  then show ?case using rcopy_ghost [of env buf s] by simp
next
  case (signal buf s r t)
  then show ?case using rcopy_ghost [of env buf s] by simp
next
  case (clear s r t)
  then show ?case using rclear_ghost [of s] by simp
qed (simp_all add: irq_ghost)

lemma run_ghost:
  "key_run irq rbegin rcopy rclear env x ls y \<Longrightarrow> ghost (trace (fst y)) = ghost (trace (fst x))"
  by (induction rule: key_run.induct) (simp_all add: step_ghost)

lemma open_release:
  assumes "irqs_granted env s" "key_run irq rbegin rcopy rclear env (exec (opn env) s, Running) ls (t, p)"
  shows "held (exec (rel env) t) = held s \<and> viol (exec (rel env) t) = viol s"
  using rel_ghost [OF assms(1)] run_ghost [OF assms(2)] by (simp add: held_def viol_def)

end

lemma third_rel_ghost:
  assumes "irqs_granted env s" "ghost (trace t) = ghost (trace (exec (third_drv_open env) s))"
  shows "ghost (trace (exec (third_drv_release env) t)) = ghost (trace s)"
proof (cases "ghost (trace s)")
  case (Pair hs v)
  with assms have "ghost (trace t) = (rev (map (irq_rec ''third_irq_handle'') irq_lines) @ hs, v)"
    by (simp add: third_open_run ghost_append fold_req req_answers)
  with Pair show ?thesis
    by (simp add: third_release_run ghost_append fold_free distinct_irq_lines)
qed

lemma forth_rel_ghost:
  assumes "irqs_granted env s" "ghost (trace t) = ghost (trace (exec (forth_drv_open env) s))"
  shows "ghost (trace (exec (forth_drv_release env) t)) = ghost (trace s)"
proof (cases "ghost (trace s)")
  case (Pair hs v)
  with assms have "ghost (trace t) = (rev (map (irq_rec ''forth_irq_handle'') irq_lines) @ hs, v)"
    by (simp add: forth_open_run ghost_append fold_req req_answers)
  with Pair show ?thesis
    by (simp add: forth_release_run ghost_append fold_free distinct_irq_lines)
qed

lemma third_irq_ghost: "ghost (trace (exec (third_irq_handle env d) s)) = ghost (trace s)"
  by (cases "ghost (trace s)") (simp add: third_irq_handle_def ghost_simps)

lemma forth_irq_ghost: "ghost (trace (exec (forth_irq_handle env d) s)) = ghost (trace s)"
  by (cases "ghost (trace s)") (simp add: forth_irq_handle_def ghost_simps)

lemma third_rcopy_ghost: "ghost (trace (exec (third_drv_read_copy env buf) s)) = ghost (trace s)"
  by (cases "ghost (trace s)") (simp add: third_drv_read_copy_def ghost_simps)

lemma third_rclear_ghost: "ghost (trace (exec third_drv_read_clear s)) = ghost (trace s)"
  by (simp add: third_drv_read_clear_def)

lemma forth_rcopy_ghost: "ghost (trace (exec (forth_drv_read_copy env buf) s)) = ghost (trace s)"
  by (cases "ghost (trace s)") (simp add: forth_drv_read_copy_def ghost_simps)

lemma forth_rclear_ghost: "ghost (trace (exec forth_drv_read_clear s)) = ghost (trace s)"
  by (simp add: forth_drv_read_clear_def)

interpretation third_user: irq_user third_irq_handle third_drv_read_begin third_drv_read_copy third_drv_read_clear
  third_drv_open third_drv_release
  by unfold_locales (fact third_irq_ghost, fact third_rcopy_ghost, fact third_rclear_ghost, erule (1) third_rel_ghost)

interpretation forth_user: irq_user forth_irq_handle forth_drv_read_begin forth_drv_read_copy forth_drv_read_clear
  forth_drv_open forth_drv_release
  by unfold_locales (fact forth_irq_ghost, fact forth_rcopy_ghost, fact forth_rclear_ghost, erule (1) forth_rel_ghost)

subsection \<open>third_drv and forth_drv: properties\<close>

text \<open>A state with an idle driver, for concrete runs.\<close>

definition key_start :: key_drv where
  "key_start = \<lparr>trace = [], kd_class = 0, kd_class_dev = 0, kd_major = 0, ev_press = 0, key_val = 0\<rparr>"

text \<open>
  C14. The interrupt handler of third_drv stores a code from which key and edge can be read
  back: for each of the six keys the low seven bits are that key's number, different for
  different keys, and bit 7 is set exactly when the pin was read high (the key was released);
  the event flag is raised.
\<close>

theorem third_irq_key_code:
  assumes "d \<in> set third_pindesc"
  shows "ucast (key_val (exec (third_irq_handle env d) s)) AND 0x7F = pd_key_val d \<and>
    (bit (key_val (exec (third_irq_handle env d) s)) 7 \<longleftrightarrow>
       env (length (trace s)) (QCall ''s3c2410_gpio_getpin'' [Sym (pd_pin d)]) \<noteq> 0) \<and>
    ev_press (exec (third_irq_handle env d) s) = 1 \<and> distinct (map pd_key_val third_pindesc)"
  using assms by (auto simp: third_pindesc_def third_irq_handle_def)

theorem third_irq_key_code_witness:
  "\<lparr>pd_pin = ''S3C2410_GPG5'', pd_key_val = 0x03\<rparr> \<in> set third_pindesc \<and>
   bit (key_val (exec (third_irq_handle (\<lambda>n q. 1) \<lparr>pd_pin = ''S3C2410_GPG5'', pd_key_val = 0x03\<rparr>) key_start)) 7"
  using third_irq_key_code [of "\<lparr>pd_pin = ''S3C2410_GPG5'', pd_key_val = 0x03\<rparr>" "\<lambda>n q. 1" key_start]
  by (simp add: third_pindesc_def)

text \<open>A concrete run: a reader sleeps, the second key is pressed, the reader is woken.\<close>

definition key2 :: pin_desc where
  "key2 = \<lparr>pd_pin = ''S3C2410_GPG3'', pd_key_val = 0x02\<rparr>"

abbreviation third_run :: "kenv \<Rightarrow> key_conf \<Rightarrow> klabel list \<Rightarrow> key_conf \<Rightarrow> bool" where
  "third_run \<equiv> key_run third_irq_handle third_drv_read_begin third_drv_read_copy third_drv_read_clear"

abbreviation third_step :: "kenv \<Rightarrow> key_conf \<Rightarrow> klabel \<Rightarrow> key_conf \<Rightarrow> bool" where
  "third_step \<equiv> key_step third_irq_handle third_drv_read_begin third_drv_read_copy third_drv_read_clear"

abbreviation quiet :: kenv where
  "quiet \<equiv> (\<lambda>n q. 0)"

lemma third_step_sleep: "third_step env (s, Running) (Call 0) (s, Sleeping buf)"
  by (rule key_step.sleep [where sz = 1]) (simp add: third_drv_read_begin_def)

lemma third_step_irq: "third_step quiet (s, p) (Irq key2 2) (exec (third_irq_handle quiet key2) s, p)"
  using key_step.interrupt [of "exec (third_irq_handle quiet key2) s" third_irq_handle quiet key2 s]
  by (simp add: third_irq_handle_def key2_def)

lemma third_copy_quiet:
  "run_state (third_drv_read_copy quiet buf) s = (None, exec (third_drv_read_copy quiet buf) s)"
  by (simp add: third_drv_read_copy_def)

lemma third_step_clear: "third_step env (s, Copied) (Clear 1) (exec third_drv_read_clear s, Running)"
  by (rule key_step.clear) (simp add: third_drv_read_clear_def)

text \<open>After the interrupt, and after the copy that follows it.\<close>

definition pressed :: key_drv where
  "pressed = exec (third_irq_handle quiet key2) key_start"

definition copied :: key_drv where
  "copied = exec (third_drv_read_copy quiet 0) pressed"

lemma third_step_wake: "third_step quiet (pressed, Sleeping 0) (Wake None 2) (copied, Copied)"
proof -
  have "ev_press pressed \<noteq> 0" "key_val pressed = 2"
    by (simp_all add: pressed_def third_irq_handle_def key2_def)
  with key_step.wake [of pressed third_drv_read_copy quiet 0, OF _ third_copy_quiet]
  show ?thesis by (simp add: copied_def)
qed

lemma third_run_sleep_irq: "third_run quiet (key_start, Running) [Call 0, Irq key2 2] (pressed, Sleeping 0)"
  using key_run.more [OF key_run.more [OF key_run.none third_step_sleep] third_step_irq]
  by (simp add: pressed_def)

lemma third_run_wake:
  "third_run quiet (key_start, Running) ([Call 0, Irq key2 2] @ [Wake None 2]) (copied, Copied)"
  by (rule key_run.more [OF third_run_sleep_irq third_step_wake])





text \<open>
  The window is real: a key event that arrives between the copy and the clearing of the flag
  is lost. There is a run after which an interrupt is undelivered and the flag is down, so that
  the next reader sleeps although a key was pressed.
\<close>

theorem third_lost_key:
  "\<exists>ls s. third_run quiet (key_start, Running) ls (s, Sleeping 0) \<and> pending ls = Some 2 \<and>
     \<not> (\<exists>r k y. third_step quiet (s, Sleeping 0) (Wake r k) y)"
proof -
  let ?s = "exec third_drv_read_clear (exec (third_irq_handle quiet key2) copied)"
  have run: "third_run quiet (key_start, Running)
      (((([Call 0, Irq key2 2] @ [Wake None 2]) @ [Irq key2 2]) @ [Clear 1]) @ [Call 0]) (?s, Sleeping 0)"
    by (rule key_run.more [OF key_run.more [OF key_run.more [OF third_run_wake third_step_irq]
          third_step_clear] third_step_sleep])
  have "ev_press ?s = 0" by (simp add: third_drv_read_clear_def)
  then have "\<not> (\<exists>r k y. third_step quiet (?s, Sleeping 0) (Wake r k) y)"
    by (auto elim: key_step_WakeE)
  moreover have "pending (((([Call 0, Irq key2 2] @ [Wake None 2]) @ [Irq key2 2]) @ [Clear 1]) @ [Call 0]) = Some 2"
    by (simp add: pending_def)
  ultimately show ?thesis using run by blast
qed

text \<open>
  A signal breaks the guarantee of a fresh code: the drivers ignore the result of
  \<^verbatim>\<open>wait_event_interruptible\<close>, so a reader interrupted by a signal before any key was pressed
  copies a stale code and returns one byte instead of an error.
\<close>

theorem third_signal_stale:
  "\<exists>y. third_run quiet (key_start, Running) ([Call 0] @ [Signal None 0] @ [Clear 1]) y \<and> pending [Call 0] = None"
proof -
  have one: "third_run quiet (key_start, Running) [Call 0] (key_start, Sleeping 0)"
    using key_run.more [OF key_run.none third_step_sleep] by simp
  have "third_step quiet (key_start, Sleeping 0) (Signal None 0) (exec (third_drv_read_copy quiet 0) key_start, Copied)"
    using key_step.signal [of third_drv_read_copy quiet 0 key_start, OF third_copy_quiet]
    by (simp add: key_start_def)
  from key_run.more [OF key_run.more [OF one this] third_step_clear]
  show ?thesis by (auto simp: pending_def)
qed

text \<open>
  An open of third_drv to which all six lines are granted, followed by any interleaving of
  reads, interrupts and signals and by the release, gives every line back and frees none that it
  does not hold.
\<close>

theorem third_open_release:
  "irqs_granted env s \<Longrightarrow>
   third_run env (exec (third_drv_open env) s, Running) ls (t, p) \<Longrightarrow>
   held (exec (third_drv_release env) t) = held s \<and> viol (exec (third_drv_release env) t) = viol s"
  by (rule third_user.open_release)

theorem third_open_release_witness:
  "irqs_granted (\<lambda>n q. 0) key_start \<and>
   held (exec (third_drv_release (\<lambda>n q. 0)) (exec (third_drv_open (\<lambda>n q. 0)) key_start)) = []"
proof -
  have g: "irqs_granted (\<lambda>n q. 0) key_start" by (simp add: irqs_granted_def)
  from third_open_release [OF g key_run.none] g show ?thesis
    by (simp add: held_def ghost_def key_start_def)
qed

text \<open>
  The device can be opened twice, although the second open gets none of the lines: its
  release frees the lines of the first opener, who gets no interrupt any more and whose own
  release then frees six lines that nobody holds.
\<close>

theorem third_double_open:
  assumes "irqs_granted env s" and "irqs_refused env (exec (third_drv_open env) s)"
    and "\<not> list_ex (\<lambda>(f, xs, r). f = ''request_irq'') (held s)"
  shows "held (exec (do { third_drv_open env; third_drv_open env; third_drv_release env }) s) = held s \<and>
    length (viol (exec (do { third_drv_open env; third_drv_open env; third_drv_release env;
      third_drv_release env }) s)) = length (viol s) + 6"
proof -
  let ?h = "''third_irq_handle''"
  obtain hs v where hv: "ghost (trace s) = (hs, v)" by fastforce
  let ?s1 = "exec (third_drv_open env) s"
  let ?s2 = "exec (third_drv_open env) ?s1"
  let ?s3 = "exec (third_drv_release env) ?s2"
  have "ghost (trace ?s1) = (rev (map (irq_rec ?h) irq_lines) @ hs, v)"
    using hv assms(1) by (simp add: third_open_run ghost_append fold_req req_answers)
  then have "ghost (trace ?s2) = (rev (map (irq_rec ?h) irq_lines) @ hs, v)"
    using req_answers(2) [OF assms(2), of ?h]
    by (simp add: third_open_run [of env ?s1] ghost_append fold_req_refused)
  then have g3: "ghost (trace ?s3) = (hs, v)"
    by (simp add: third_release_run ghost_append fold_free distinct_irq_lines)
  have "list_all (\<lambda>x. \<not> list_ex (frees x) hs) irq_lines"
    using assms(3) hv by (auto simp: held_def list_all_iff list_ex_iff frees_def)
  with g3 have g4: "ghost (trace (exec (third_drv_release env) ?s3)) =
      (hs, v @ map2 free_event irq_lines (answers env (length (trace ?s3)) free_qs))"
    by (simp add: third_release_run [of env ?s3] ghost_append fold_free_unheld)
  from g3 g4 hv show ?thesis
    by (simp add: held_def viol_def run_state_bind split_def)
qed

theorem third_double_open_witness:
  "held (exec (do { third_drv_open (\<lambda>n q. if n < 6 then 0 else - EBUSY);
       third_drv_open (\<lambda>n q. if n < 6 then 0 else - EBUSY);
       third_drv_release (\<lambda>n q. if n < 6 then 0 else - EBUSY) }) key_start) = []"
proof -
  let ?env = "\<lambda>(n :: nat) (q :: kreq). if n < 6 then 0 else - EBUSY"
  have "length (trace (exec (third_drv_open ?env) key_start)) = 6"
    by (simp add: third_open_run key_start_def)
  then have "irqs_refused ?env (exec (third_drv_open ?env) key_start)" by (simp add: irqs_refused_def)
  moreover have "irqs_granted ?env key_start" by (simp add: irqs_granted_def key_start_def)
  ultimately show ?thesis
    using third_double_open [of ?env key_start] by (simp add: held_def ghost_def key_start_def)
qed

abbreviation forth_run :: "kenv \<Rightarrow> key_conf \<Rightarrow> klabel list \<Rightarrow> key_conf \<Rightarrow> bool" where
  "forth_run \<equiv> key_run forth_irq_handle forth_drv_read_begin forth_drv_read_copy forth_drv_read_clear"



subsection \<open>fifth_drv\<close>

datatype fifth_op = Fifth_open | Fifth_read u32 u32 | Fifth_release | Fifth_poll | Fifth_fasync u32 u32 |
  Fifth_irq pin_desc

fun fifth_drv_step :: "kenv \<Rightarrow> fifth_op \<Rightarrow> key_drv \<Rightarrow> key_drv" where
  "fifth_drv_step env Fifth_open s = exec (fifth_drv_open env) s"
| "fifth_drv_step env (Fifth_read buf sz) s = exec (fifth_drv_read env buf sz) s"
| "fifth_drv_step env Fifth_release s = exec (fifth_drv_release env) s"
| "fifth_drv_step env Fifth_poll s = exec (fifth_drv_poll env) s"
| "fifth_drv_step env (Fifth_fasync fd on) s = exec (fifth_drv_fasync env fd on) s"
| "fifth_drv_step env (Fifth_irq d) s = exec (fifth_irq_handle env d) s"

lemmas fifth_defs = fifth_drv_open_def fifth_drv_read_def fifth_drv_release_def fifth_drv_poll_def
  fifth_drv_fasync_def fifth_irq_handle_def

lemma fifth_step_ev: "ev_press (fifth_drv_step env x s) = ev_press s"
  by (cases x) (simp_all add: fifth_defs)

lemma fifth_steps_ev: "ev_press (fold (fifth_drv_step env) xs s) = ev_press s"
  by (induction xs arbitrary: s) (simp_all add: fifth_step_ev)

text \<open>
  In fifth_drv the event flag is never set, so after any sequence of file operations and key
  interrupts poll still reports the device as not readable, while a read of one byte never
  waits: it hands over the last code at once. Only the signal tells a process about a key.
\<close>

theorem fifth_poll_never_ready:
  assumes "ev_press s = 0"
  shows "result (fifth_drv_poll env) (fold (fifth_drv_step env) xs s) = []"
  using assms by (simp add: fifth_drv_poll_def fifth_steps_ev)

theorem fifth_poll_never_ready_witness:
  "result (fifth_drv_poll (\<lambda>n q. 0)) (fold (fifth_drv_step (\<lambda>n q. 0)) [Fifth_open, Fifth_irq key2] key_start) = []"
  by (rule fifth_poll_never_ready) (simp add: key_start_def)

end
