(* ===== verification/Lcd.thy ===== *)
theory Lcd
  imports Kernel
begin

section \<open>lcd: the frame buffer driver\<close>

text \<open>
  \<^verbatim>\<open>10th_lcd/lcd.c\<close>: the description of the frame buffer handed to the kernel, the registers of the
  LCD controller and of the pins it uses, and the palette. The C function \<^verbatim>\<open>lcd_init\<close> is split at its
  own numbered comments into the parts that follow one another.
\<close>

record fb_bitfield =
  bf_offset :: nat
  bf_length :: nat

record fb_info =
  fb_id :: string
  smem_len :: u32
  smem_start :: u32
  fix_type :: string
  fix_visual :: string
  line_length :: u32
  xres :: u32
  yres :: u32
  xres_virtual :: u32
  yres_virtual :: u32
  bits_per_pixel :: u32
  var_red :: fb_bitfield
  var_green :: fb_bitfield
  var_blue :: fb_bitfield
  var_activate :: string
  fbops :: string
  fb_pseudo_palette :: string
  screen_size :: u32
  screen_base :: u32

record lcd_drv = kworld +
  s3c_lcd :: u32
  lcd_fb :: fb_info
  lcd_gpbcon :: u32
  lcd_gpbdat :: u32
  lcd_gpccon :: u32
  lcd_gpdcon :: u32
  lcd_gpgcon :: u32
  lcd_regs :: u32

subsection \<open>The palette\<close>

definition chan_to_field :: "u32 \<Rightarrow> fb_bitfield \<Rightarrow> u32" where
  "chan_to_field chan bf = push_bit (bf_offset bf) (drop_bit (16 - bf_length bf) (chan AND 0xffff))"

datatype fb_error = Palette_overrun

text \<open>
  \<^verbatim>\<open>pseudo_palette\<close> has 16 entries; a write behind them overwrites other memory and is an error of the
  model.
\<close>

definition s3c_lcdfb_setcolreg ::
  "u32 \<Rightarrow> u32 \<Rightarrow> u32 \<Rightarrow> u32 \<Rightarrow> fb_info \<Rightarrow> u32 list \<Rightarrow> fb_error + (u32 \<times> u32 list)" where
  "s3c_lcdfb_setcolreg regno red green blue info pal =
     (if regno > 16 then Inr (1, pal)
      else let val = chan_to_field red (var_red info) OR chan_to_field green (var_green info) OR
                     chan_to_field blue (var_blue info)
           in if unat regno < length pal then Inr (0, pal[unat regno := val])
              else Inl Palette_overrun)"

subsection \<open>Loading\<close>

text \<open>The description set up in parts 1 and 2; the other fields keep what the allocation left.\<close>

definition lcd_info :: "fb_info \<Rightarrow> fb_info" where
  "lcd_info f = f\<lparr>fb_id := ''mylcd'', smem_len := 320 * 240 * 16 div 8,
     fix_type := ''FB_TYPE_PACKED_PIXELS'', fix_visual := ''FB_VISUAL_TRUECOLOR'',
     line_length := 240 * 16 div 8, xres := 240, yres := 320, xres_virtual := 240, yres_virtual := 320,
     bits_per_pixel := 16,
     var_red := \<lparr>bf_offset = 11, bf_length = 5\<rparr>, var_green := \<lparr>bf_offset = 5, bf_length = 6\<rparr>,
     var_blue := \<lparr>bf_offset = 0, bf_length = 5\<rparr>, var_activate := ''FB_ACTIVATE_NOW'',
     fbops := ''&s3c_lcdfb_ops'', fb_pseudo_palette := ''pseudo_palette'', screen_size := 0\<rparr>"

definition lcd_init_info :: "kenv \<Rightarrow> (lcd_drv, unit) state" where
  "lcd_init_info env = do {
     p \<leftarrow> call env ''framebuffer_alloc'' [Num 0, Num NULL];
     modify (\<lambda>s. s\<lparr>s3c_lcd := p\<rparr>);
     use p;
     modify (\<lambda>s. s\<lparr>lcd_fb := lcd_info (lcd_fb s)\<rparr>) }"

definition lcd_init_gpio :: "kenv \<Rightarrow> (lcd_drv, unit) state" where
  "lcd_init_gpio env = do {
     b \<leftarrow> call env ''ioremap'' [Num 0x56000010, Num 8];
     modify (\<lambda>s. s\<lparr>lcd_gpbcon := b\<rparr>);
     modify (\<lambda>s. s\<lparr>lcd_gpbdat := b + 4\<rparr>);
     c \<leftarrow> call env ''ioremap'' [Num 0x56000020, Num 4];
     modify (\<lambda>s. s\<lparr>lcd_gpccon := c\<rparr>);
     d \<leftarrow> call env ''ioremap'' [Num 0x56000030, Num 4];
     modify (\<lambda>s. s\<lparr>lcd_gpdcon := d\<rparr>);
     g \<leftarrow> call env ''ioremap'' [Num 0x56000060, Num 4];
     modify (\<lambda>s. s\<lparr>lcd_gpgcon := g\<rparr>);
     reg_clear env c 0xffc003cc;
     reg_set env c 0xaa955699;
     reg_clear env d 0xffc0fff0;
     reg_set env d 0xaa95aaa1;
     reg_set env g (push_bit (4*2) 3) }"

text \<open>The offsets of \<^verbatim>\<open>struct lcd_regs\<close>, whose size is 104.\<close>

abbreviation (input) lcdcon1 :: "u32 \<Rightarrow> u32" where "lcdcon1 p \<equiv> p"
abbreviation (input) lcdcon2 :: "u32 \<Rightarrow> u32" where "lcdcon2 p \<equiv> p + 4"
abbreviation (input) lcdcon3 :: "u32 \<Rightarrow> u32" where "lcdcon3 p \<equiv> p + 8"
abbreviation (input) lcdcon4 :: "u32 \<Rightarrow> u32" where "lcdcon4 p \<equiv> p + 12"
abbreviation (input) lcdcon5 :: "u32 \<Rightarrow> u32" where "lcdcon5 p \<equiv> p + 16"
abbreviation (input) lcdsaddr1 :: "u32 \<Rightarrow> u32" where "lcdsaddr1 p \<equiv> p + 20"
abbreviation (input) lcdsaddr2 :: "u32 \<Rightarrow> u32" where "lcdsaddr2 p \<equiv> p + 24"
abbreviation (input) lcdsaddr3 :: "u32 \<Rightarrow> u32" where "lcdsaddr3 p \<equiv> p + 28"

definition lcd_init_regs :: "kenv \<Rightarrow> (lcd_drv, unit) state" where
  "lcd_init_regs env = do {
     p \<leftarrow> call env ''ioremap'' [Num 0x4D000000, Num 104];
     modify (\<lambda>s. s\<lparr>lcd_regs := p\<rparr>);
     wr (lcdcon1 p) 0x00000878;
     wr (lcdcon2 p) 0x004fc109;
     wr (lcdcon3 p) 0x00c8ef00;
     wr (lcdcon4 p) 0x00000004;
     wr (lcdcon5 p) 0x00000f41 }"

definition lcd_init_start :: "kenv \<Rightarrow> (lcd_drv, u32) state" where
  "lcd_init_start env = do {
     p \<leftarrow> gets lcd_regs;
     len \<leftarrow> gets (\<lambda>s. smem_len (lcd_fb s));
     b \<leftarrow> call env ''dma_alloc_writecombine'' [Num NULL, Num len, Sym ''&s3c_lcd->fix.smem_start'', Sym ''GFP_KERNEL''];
     st \<leftarrow> out env ''dma_alloc_writecombine'' 0;
     modify (\<lambda>s. s\<lparr>lcd_fb := (lcd_fb s)\<lparr>smem_start := st, screen_base := b\<rparr>\<rparr>);
     wr (lcdsaddr1 p) 0x19c60000;
     wr (lcdsaddr2 p) 0x19c72c00;
     wr (lcdsaddr3 p) 0x000000f0;
     reg_set env (lcdcon1 p) (push_bit 0 1);
     reg_set env (lcdcon5 p) (push_bit 3 1);
     fb \<leftarrow> gets s3c_lcd;
     callv env ''register_framebuffer'' [Num fb];
     ret 0 }"

definition lcd_init :: "kenv \<Rightarrow> (lcd_drv, u32) state" where
  "lcd_init env = do { lcd_init_info env; lcd_init_gpio env; lcd_init_regs env; lcd_init_start env }"

definition lcd_exit :: "kenv \<Rightarrow> (lcd_drv, unit) state" where
  "lcd_exit env = do {
     fb \<leftarrow> gets s3c_lcd;
     callv env ''unregister_framebuffer'' [Num fb];
     p \<leftarrow> gets lcd_regs;
     reg_clear env (lcdcon1 p) (push_bit 0 1);
     reg_clear env (lcdcon1 p) (push_bit 3 1);
     use fb;
     f \<leftarrow> gets lcd_fb;
     callv env ''dma_free_writecombine'' [Num NULL, Num (smem_len f), Num (screen_base f), Num (smem_start f)];
     callv env ''iounmap'' [Num p];
     b \<leftarrow> gets lcd_gpbcon;
     callv env ''iounmap'' [Num b];
     c \<leftarrow> gets lcd_gpccon;
     callv env ''iounmap'' [Num c];
     d \<leftarrow> gets lcd_gpdcon;
     callv env ''iounmap'' [Num d];
     g \<leftarrow> gets lcd_gpgcon;
     callv env ''iounmap'' [Num g];
     callv env ''framebuffer_release'' [Num fb] }"

subsection \<open>Colours\<close>

text \<open>The 16-bit pixel of a colour given by three 16-bit channels: their top 5, 6 and 5 bits.\<close>

definition rgb565 :: "u32 \<Rightarrow> u32 \<Rightarrow> u32 \<Rightarrow> u32" where
  "rgb565 r g b = chan_to_field r \<lparr>bf_offset = 11, bf_length = 5\<rparr> OR
     chan_to_field g \<lparr>bf_offset = 5, bf_length = 6\<rparr> OR chan_to_field b \<lparr>bf_offset = 0, bf_length = 5\<rparr>"

lemma and_ffff: "v AND 0xffff = take_bit 16 (v :: u32)"
  by (simp add: take_bit_eq_mask mask_eq_exp_minus_1)

lemma bit_chan_to_field:
  "bit (chan_to_field v bf) n \<longleftrightarrow> bf_offset bf \<le> n \<and> n < 32 \<and>
     n - bf_offset bf + (16 - bf_length bf) < 16 \<and> bit v (n - bf_offset bf + (16 - bf_length bf))"
  by (auto simp: chan_to_field_def and_ffff bit_push_bit_iff bit_drop_bit_eq bit_take_bit_iff add_ac
      dest: bit_imp_le_length)

lemma bit_rgb565:
  "bit (rgb565 r g b) n \<longleftrightarrow>
     (if n < 5 then bit b (n + 11) else if n < 11 then bit g (n + 5) else n < 16 \<and> bit r n)"
  by (auto simp: rgb565_def bit_or_iff bit_chan_to_field add.commute)

lemma rgb565_fields:
  "drop_bit 11 (rgb565 r g b) = drop_bit 11 (take_bit 16 r)"
  "take_bit 6 (drop_bit 5 (rgb565 r g b)) = drop_bit 10 (take_bit 16 g)"
  "take_bit 5 (rgb565 r g b) = drop_bit 11 (take_bit 16 b)"
  "take_bit 16 (rgb565 r g b) = rgb565 r g b"
  by (rule bit_word_eqI; auto simp: bit_drop_bit_eq bit_take_bit_iff bit_rgb565 add_ac)+

text \<open>
  C17. setcolreg stores in entry \<open>regno\<close> the 565 pixel of the colour: its top five bits are the top
  five bits of the red channel, the next six the top six of green, the last five the top five of
  blue, nothing above bit 15; the other entries are unchanged.
\<close>

theorem setcolreg_rgb565:
  assumes "length pal = 16" and "regno < 16"
  shows "\<exists>v. s3c_lcdfb_setcolreg regno red green blue (lcd_info f) pal = Inr (0, pal[unat regno := v]) \<and>
    drop_bit 11 v = drop_bit 11 (take_bit 16 red) \<and>
    take_bit 6 (drop_bit 5 v) = drop_bit 10 (take_bit 16 green) \<and>
    take_bit 5 v = drop_bit 11 (take_bit 16 blue) \<and> take_bit 16 v = v"
proof -
  have "unat regno < 16" using assms(2) by (simp add: word_less_nat_alt)
  moreover have "\<not> regno > 16" using assms(2) by simp
  ultimately have "s3c_lcdfb_setcolreg regno red green blue (lcd_info f) pal =
      Inr (0, pal[unat regno := rgb565 red green blue])"
    using assms(1) by (simp add: s3c_lcdfb_setcolreg_def rgb565_def lcd_info_def)
  with rgb565_fields show ?thesis by blast
qed

definition fb_zero :: fb_info where
  "fb_zero = \<lparr>fb_id = [], smem_len = 0, smem_start = 0, fix_type = [], fix_visual = [], line_length = 0,
     xres = 0, yres = 0, xres_virtual = 0, yres_virtual = 0, bits_per_pixel = 0,
     var_red = \<lparr>bf_offset = 0, bf_length = 0\<rparr>, var_green = \<lparr>bf_offset = 0, bf_length = 0\<rparr>,
     var_blue = \<lparr>bf_offset = 0, bf_length = 0\<rparr>, var_activate = [], fbops = [],
     fb_pseudo_palette = [], screen_size = 0, screen_base = 0\<rparr>"

theorem setcolreg_rgb565_witness:
  "\<exists>v. s3c_lcdfb_setcolreg 3 0xFFFF 0x8000 0x0800 (lcd_info fb_zero) (replicate 16 0) =
      Inr (0, (replicate 16 0)[3 := v]) \<and> take_bit 5 v = 1"
  using setcolreg_rgb565 [where pal = "replicate 16 0" and regno = 3 and red = "0xFFFF" and green = "0x8000"
      and blue = "0x0800" and f = fb_zero] by auto

text \<open>
  The bound of setcolreg is one too high: entry 16 is accepted and written behind the palette of
  16 entries; only larger numbers are refused.
\<close>

theorem setcolreg_overrun:
  assumes "length pal = 16"
  shows "s3c_lcdfb_setcolreg regno red green blue info pal = Inl Palette_overrun \<longleftrightarrow> regno = 16"
proof -
  have "(unat regno < 16) = (regno < 16)" by (simp add: word_less_nat_alt)
  then show ?thesis using assms by (auto simp: s3c_lcdfb_setcolreg_def Let_def)
qed

theorem setcolreg_overrun_witness:
  "s3c_lcdfb_setcolreg 16 0 0 0 fb_zero (replicate 16 0) = Inl Palette_overrun"
  using setcolreg_overrun [where pal = "replicate 16 0" and regno = 16 and red = 0 and green = 0
      and blue = 0 and info = fb_zero] by simp

subsection \<open>The controller\<close>

lemmas lcd_defs = lcd_init_def lcd_init_info_def lcd_init_gpio_def lcd_init_regs_def lcd_init_start_def

text \<open>Fields of the controller registers, from the S3C2440 manual.\<close>

definition linecnt :: "u32 \<Rightarrow> u32" where "linecnt con2 = take_bit 10 (drop_bit 14 con2) + 1"
definition columns :: "u32 \<Rightarrow> u32" where "columns con3 = take_bit 11 (drop_bit 8 con3) + 1"
definition bppmode :: "u32 \<Rightarrow> u32" where "bppmode con1 = take_bit 4 (drop_bit 1 con1)"


text \<open>
  The start address is a constant: the controller shows the memory that was allocated for the
  frame buffer only if that happens to lie at 0x338c0000. (The register holds bits 30 to 1 of
  the address.)
\<close>

theorem lcd_shows_buffer_iff:
  "let t = exec (lcd_init env) s; p = lcd_regs t; es = drop (length (trace s)) (trace t) in
   (\<exists>a1. last_wr (lcdsaddr1 p) es = Some a1 \<and>
      (push_bit 1 a1 = smem_start (lcd_fb t) \<longleftrightarrow> smem_start (lcd_fb t) = 0x338c0000))"
  by (auto simp: lcd_defs Let_def)

lemma lcd_exit_no_con5:
  "last_wr (lcdcon5 (lcd_regs t)) (drop (length (trace t)) (trace (exec (lcd_exit env) t))) = None"
  by (simp add: lcd_exit_def Let_def)

text \<open>
  Unloading leaves the panel powered: the last write to LCDCON5 on loading sets its power bit,
  and exit never writes LCDCON5; it clears bit 3 of LCDCON1 instead, which belongs to the pixel
  format.
\<close>

theorem lcd_exit_leaves_power:
  "let t = exec (lcd_init env) s; u = exec (lcd_exit env) t; p = lcd_regs t in
   (\<exists>v. last_wr (lcdcon5 p) (drop (length (trace s)) (trace t)) = Some v \<and> bit v 3) \<and>
   last_wr (lcdcon5 p) (drop (length (trace t)) (trace u)) = None"
proof -
  let ?t = "exec (lcd_init env) s"
  have "\<exists>v. last_wr (lcdcon5 (lcd_regs ?t)) (drop (length (trace s)) (trace ?t)) = Some v \<and> bit v 3"
    by (simp add: lcd_defs Let_def bit_or_iff)
  then show ?thesis using lcd_exit_no_con5 [of ?t env] by (simp only: Let_def)
qed

subsection \<open>Resources\<close>

text \<open>Five different mappings, the last one of 104 bytes, and everything else granted.\<close>

definition lcd_granted :: "kenv \<Rightarrow> u32 \<Rightarrow> u32 \<Rightarrow> u32 \<Rightarrow> u32 \<Rightarrow> u32 \<Rightarrow> u32 \<Rightarrow> u32 \<Rightarrow> bool" where
  "lcd_granted env fb b c d g p m \<longleftrightarrow>
     fb \<noteq> NULL \<and> m \<noteq> NULL \<and> NULL \<notin> set [b, c, d, g, p] \<and> distinct [b, c, d, g, p] \<and>
     always env ''framebuffer_alloc'' fb \<and> always env ''dma_alloc_writecombine'' m \<and>
     always env ''register_framebuffer'' 0 \<and>
     (\<forall>n. env n (QCall ''ioremap'' [Num 0x56000010, Num 8]) = b \<and>
          env n (QCall ''ioremap'' [Num 0x56000020, Num 4]) = c \<and>
          env n (QCall ''ioremap'' [Num 0x56000030, Num 4]) = d \<and>
          env n (QCall ''ioremap'' [Num 0x56000060, Num 4]) = g \<and>
          env n (QCall ''ioremap'' [Num 0x4D000000, Num 104]) = p)"

definition lcd_fits :: "u32 \<Rightarrow> bool" where
  "lcd_fits p \<longleftrightarrow> unat p + 104 \<le> 2 ^ 32"

lemma lcd_maps:
  assumes "lcd_fits p"
  shows "maps (''ioremap'', [Num a, Num 104], p) p"
    "k \<in> {4, 8, 12, 16, 20, 24, 28} \<Longrightarrow> maps (''ioremap'', [Num a, Num 104], p) (p + k)"
proof -
  show "maps (''ioremap'', [Num a, Num 104], p) p" by (simp add: maps_def)
  assume "k \<in> {4, 8, 12, 16, 20, 24, 28}"
  then have "unat (p + k) = unat p + unat k" "unat k \<le> 28"
    using assms by (auto simp: lcd_fits_def unat_word_ariths)
  then show "maps (''ioremap'', [Num a, Num 104], p) (p + k)" by (simp add: maps_def)
qed

lemma maps_four: "maps (''ioremap'', [Num a, Num 4], p) p"
  by (simp add: maps_def)

definition lcd_held :: "u32 \<Rightarrow> u32 \<Rightarrow> u32 \<Rightarrow> u32 \<Rightarrow> u32 \<Rightarrow> u32 \<Rightarrow> u32 \<Rightarrow> u32 \<Rightarrow> kres list" where
  "lcd_held len fb b c d g p m =
     [(''register_framebuffer'', [Num fb], 0),
      (''dma_alloc_writecombine'', [Num NULL, Num len, Sym ''&s3c_lcd->fix.smem_start'', Sym ''GFP_KERNEL''], m),
      (''ioremap'', [Num 0x4D000000, Num 104], p), (''ioremap'', [Num 0x56000060, Num 4], g),
      (''ioremap'', [Num 0x56000030, Num 4], d), (''ioremap'', [Num 0x56000020, Num 4], c),
      (''ioremap'', [Num 0x56000010, Num 8], b), (''framebuffer_alloc'', [Num 0, Num NULL], fb)]"

lemma lcd_init_ghost:
  assumes "lcd_granted env fb b c d g p m" and "lcd_fits p"
  shows "ghost (trace (exec (lcd_init env) s)) = (lcd_held 153600 fb b c d g p m @ held s, viol s)"
  using assms(1) lcd_maps [OF assms(2)] maps_four
  by (cases "ghost (trace s)")
    (simp add: lcd_granted_def always_def lcd_defs lcd_info_def Let_def lcd_held_def held_def viol_def
      allocates_def ghost_simps)

lemma lcd_init_state:
  assumes "lcd_granted env fb b c d g p m"
  shows "s3c_lcd (exec (lcd_init env) s) = fb" "lcd_regs (exec (lcd_init env) s) = p"
    "lcd_gpbcon (exec (lcd_init env) s) = b" "lcd_gpccon (exec (lcd_init env) s) = c"
    "lcd_gpdcon (exec (lcd_init env) s) = d" "lcd_gpgcon (exec (lcd_init env) s) = g"
    "screen_base (lcd_fb (exec (lcd_init env) s)) = m" "smem_len (lcd_fb (exec (lcd_init env) s)) = 153600"
  using assms by (simp_all add: lcd_granted_def always_def lcd_defs lcd_info_def Let_def)

lemma lcd_exit_ghost:
  assumes "ghost (trace t) = (lcd_held len fb b c d g p m @ R, v)"
    and "s3c_lcd t = fb" "lcd_regs t = p" "lcd_gpbcon t = b" "lcd_gpccon t = c" "lcd_gpdcon t = d" "lcd_gpgcon t = g"
      "screen_base (lcd_fb t) = m" "smem_len (lcd_fb t) = len"
    and "distinct [b, c, d, g, p]" "lcd_fits p"
  shows "ghost (trace (exec (lcd_exit env) t)) = (R, v)"
  using assms(1-10) lcd_maps [OF assms(11)]
  by (simp add: lcd_exit_def lcd_held_def Let_def allocates_def ghost_simps)

text \<open>
  Loading and unloading the LCD driver returns the frame buffer object, the DMA memory, the
  registration and all five mappings, and touches only registers inside its mappings.
\<close>

theorem lcd_load_unload:
  assumes "lcd_granted env fb b c d g p m" and "lcd_fits p"
  shows "held (exec (do { _ \<leftarrow> lcd_init env; lcd_exit env }) s) = held s \<and>
    viol (exec (do { _ \<leftarrow> lcd_init env; lcd_exit env }) s) = viol s"
proof -
  have "distinct [b, c, d, g, p]" using assms(1) by (simp add: lcd_granted_def)
  from lcd_exit_ghost [OF lcd_init_ghost [OF assms] lcd_init_state [OF assms(1)] this assms(2), of env]
  show ?thesis by (simp add: exec_bind held_def viol_def del: run_state_bind)
qed

definition lcd_start :: lcd_drv where
  "lcd_start = \<lparr>trace = [], s3c_lcd = 0, lcd_fb = fb_zero, lcd_gpbcon = 0, lcd_gpbdat = 0, lcd_gpccon = 0,
     lcd_gpdcon = 0, lcd_gpgcon = 0, lcd_regs = 0\<rparr>"

theorem lcd_load_unload_witness:
  "let env = (\<lambda>n q. case q of QCall f xs \<Rightarrow> if f = ''register_framebuffer'' then 0
       else if f = ''ioremap'' then (case hd xs of Num a \<Rightarrow> a | _ \<Rightarrow> 0) else 0x1000 | _ \<Rightarrow> 0) in
   lcd_granted env 0x1000 0x56000010 0x56000020 0x56000030 0x56000060 0x4D000000 0x1000 \<and>
   viol (exec (do { _ \<leftarrow> lcd_init env; lcd_exit env }) lcd_start) = []"
proof -
  let ?env = "\<lambda>(n :: nat) q. case q of QCall f xs \<Rightarrow> if f = ''register_framebuffer'' then 0
       else if f = ''ioremap'' then (case hd xs of Num a \<Rightarrow> a | _ \<Rightarrow> 0) else 0x1000 | _ \<Rightarrow> (0 :: u32)"
  have g: "lcd_granted ?env 0x1000 0x56000010 0x56000020 0x56000030 0x56000060 0x4D000000 0x1000"
    by (simp add: lcd_granted_def always_def)
  have "lcd_fits 0x4D000000" by (simp add: lcd_fits_def)
  from lcd_load_unload [OF g this, of lcd_start] g show ?thesis
    by (simp add: Let_def viol_def [of lcd_start] ghost_def [of "trace lcd_start"]) (simp add: lcd_start_def)
qed

end
