(* ===== verification/LcdStages.thy ===== *)
theory LcdStages
  imports Lcd
begin

section \<open>lcd: the stages before the final driver\<close>

text \<open>
  \<^verbatim>\<open>10th_lcd\<close> keeps four working stages of the driver beside the final one: \<^verbatim>\<open>16bpp\<close>, \<^verbatim>\<open>24bpp\<close>, \<^verbatim>\<open>wds\<close> and
  \<^verbatim>\<open>nice\<close>. They share their code and differ in constants, which \<open>lcd_stage\<close> collects; \<open>stage_init\<close> is
  the code. The palette functions and the exit function are those of the final driver.
\<close>

record lcd_stage =
  st_smem_len :: u32
  st_line_length :: u32
  st_red :: fb_bitfield
  st_green :: fb_bitfield
  st_blue :: fb_bitfield
  st_screen_size :: u32
  st_con1 :: u32
  st_con2 :: u32
  st_con3 :: u32
  st_con4 :: u32
  st_con5 :: u32

definition lcd16 :: lcd_stage where
  "lcd16 = \<lparr>st_smem_len = 320 * 240 * 16 div 8, st_line_length = 240 * 16 div 8,
     st_red = \<lparr>bf_offset = 11, bf_length = 5\<rparr>, st_green = \<lparr>bf_offset = 5, bf_length = 6\<rparr>,
     st_blue = \<lparr>bf_offset = 0, bf_length = 5\<rparr>, st_screen_size = 0,
     st_con1 = push_bit 8 8 OR push_bit 5 3 OR push_bit 1 0x0c,
     st_con2 = push_bit 24 0 OR push_bit 14 319 OR push_bit 6 4 OR push_bit 0 9,
     st_con3 = push_bit 19 25 OR push_bit 8 239 OR push_bit 0 0,
     st_con4 = push_bit 0 4,
     st_con5 = push_bit 11 1 OR push_bit 10 1 OR push_bit 9 1 OR push_bit 8 1 OR push_bit 6 1 OR push_bit 0 1\<rparr>"

definition lcd24 :: lcd_stage where
  "lcd24 = \<lparr>st_smem_len = 320 * 240 * 32 div 8, st_line_length = 240 * 32 div 8,
     st_red = \<lparr>bf_offset = 16, bf_length = 8\<rparr>, st_green = \<lparr>bf_offset = 8, bf_length = 8\<rparr>,
     st_blue = \<lparr>bf_offset = 0, bf_length = 8\<rparr>, st_screen_size = 320 * 240 * 32 div 8,
     st_con1 = push_bit 8 8 OR push_bit 5 3 OR push_bit 1 0x0d,
     st_con2 = push_bit 24 0 OR push_bit 14 319 OR push_bit 6 4 OR push_bit 0 9,
     st_con3 = push_bit 19 25 OR push_bit 8 239 OR push_bit 0 0,
     st_con4 = push_bit 0 4,
     st_con5 = push_bit 11 0 OR push_bit 10 1 OR push_bit 9 1 OR push_bit 8 1 OR push_bit 6 1 OR push_bit 0 1\<rparr>"

definition lcd_wds :: lcd_stage where
  "lcd_wds = \<lparr>st_smem_len = 320 * 240 * 16 div 8, st_line_length = 240 * 16 div 8,
     st_red = \<lparr>bf_offset = 11, bf_length = 5\<rparr>, st_green = \<lparr>bf_offset = 5, bf_length = 6\<rparr>,
     st_blue = \<lparr>bf_offset = 0, bf_length = 5\<rparr>, st_screen_size = 320 * 240 * 32 div 8,
     st_con1 = 0x00000878, st_con2 = 0x004fc109, st_con3 = 0x00c8ef00, st_con4 = 0x00000004,
     st_con5 = 0x00000f41\<rparr>"

definition lcd_nice :: lcd_stage where
  "lcd_nice = \<lparr>st_smem_len = 320 * 240 * 32 div 8, st_line_length = 240 * 32 div 8,
     st_red = \<lparr>bf_offset = 16, bf_length = 8\<rparr>, st_green = \<lparr>bf_offset = 8, bf_length = 8\<rparr>,
     st_blue = \<lparr>bf_offset = 0, bf_length = 8\<rparr>, st_screen_size = 320 * 240 * 32 div 8,
     st_con1 = push_bit 8 8 OR push_bit 5 3 OR push_bit 1 0x0d,
     st_con2 = push_bit 24 0 OR push_bit 14 319 OR push_bit 6 4 OR push_bit 0 9,
     st_con3 = push_bit 19 25 OR push_bit 8 239 OR push_bit 0 0,
     st_con4 = push_bit 0 4,
     st_con5 = push_bit 11 0 OR push_bit 10 1 OR push_bit 9 1 OR push_bit 8 1 OR push_bit 6 1 OR push_bit 0 1\<rparr>"

definition stage_info :: "lcd_stage \<Rightarrow> fb_info \<Rightarrow> fb_info" where
  "stage_info st f = f\<lparr>fb_id := ''mylcd'', smem_len := st_smem_len st,
     fix_type := ''FB_TYPE_PACKED_PIXELS'', fix_visual := ''FB_VISUAL_TRUECOLOR'',
     line_length := st_line_length st, xres := 240, yres := 320, xres_virtual := 240, yres_virtual := 320,
     bits_per_pixel := 16, var_red := st_red st, var_green := st_green st, var_blue := st_blue st,
     var_activate := ''FB_ACTIVATE_NOW'', fbops := ''&s3c_lcdfb_ops'', fb_pseudo_palette := ''pseudo_palette'',
     screen_size := st_screen_size st\<rparr>"

definition stage_init_info :: "lcd_stage \<Rightarrow> kenv \<Rightarrow> (lcd_drv, unit) state" where
  "stage_init_info st env = do {
     p \<leftarrow> call env ''framebuffer_alloc'' [Num 0, Num NULL];
     modify (\<lambda>s. s\<lparr>s3c_lcd := p\<rparr>);
     use p;
     modify (\<lambda>s. s\<lparr>lcd_fb := stage_info st (lcd_fb s)\<rparr>) }"

definition stage_init_gpio :: "kenv \<Rightarrow> (lcd_drv, unit) state" where
  "stage_init_gpio env = do {
     b \<leftarrow> call env ''ioremap'' [Num 0x56000010, Num 8];
     modify (\<lambda>s. s\<lparr>lcd_gpbcon := b\<rparr>);
     modify (\<lambda>s. s\<lparr>lcd_gpbdat := b + 4\<rparr>);
     c \<leftarrow> call env ''ioremap'' [Num 0x56000020, Num 4];
     modify (\<lambda>s. s\<lparr>lcd_gpccon := c\<rparr>);
     d \<leftarrow> call env ''ioremap'' [Num 0x56000030, Num 4];
     modify (\<lambda>s. s\<lparr>lcd_gpdcon := d\<rparr>);
     g \<leftarrow> call env ''ioremap'' [Num 0x56000060, Num 4];
     modify (\<lambda>s. s\<lparr>lcd_gpgcon := g\<rparr>);
     wr c 0xaaaaaaaa;
     wr d 0xaaaaaaaa;
     reg_set env g (push_bit 8 3) }"

definition stage_init_regs :: "lcd_stage \<Rightarrow> kenv \<Rightarrow> (lcd_drv, unit) state" where
  "stage_init_regs st env = do {
     p \<leftarrow> call env ''ioremap'' [Num 0x4D000000, Num 104];
     modify (\<lambda>s. s\<lparr>lcd_regs := p\<rparr>);
     wr (lcdcon1 p) (st_con1 st);
     wr (lcdcon2 p) (st_con2 st);
     wr (lcdcon3 p) (st_con3 st);
     wr (lcdcon4 p) (st_con4 st);
     wr (lcdcon5 p) (st_con5 st) }"

definition stage_init_start :: "kenv \<Rightarrow> (lcd_drv, u32) state" where
  "stage_init_start env = do {
     p \<leftarrow> gets lcd_regs;
     len \<leftarrow> gets (\<lambda>s. smem_len (lcd_fb s));
     b \<leftarrow> call env ''dma_alloc_writecombine'' [Num NULL, Num len, Sym ''&s3c_lcd->fix.smem_start'', Sym ''GFP_KERNEL''];
     st \<leftarrow> out env ''dma_alloc_writecombine'' 0;
     modify (\<lambda>s. s\<lparr>lcd_fb := (lcd_fb s)\<lparr>smem_start := st, screen_base := b\<rparr>\<rparr>);
     wr (lcdsaddr1 p) (drop_bit 1 st AND NOT (push_bit 30 3));
     wr (lcdsaddr2 p) (drop_bit 1 (st + len) AND 0x1fffff);
     wr (lcdsaddr3 p) (320 * 32 div 16);
     reg_set env (lcdcon1 p) (push_bit 0 1);
     reg_set env (lcdcon5 p) (push_bit 3 1);
     fb \<leftarrow> gets s3c_lcd;
     callv env ''register_framebuffer'' [Num fb];
     ret 0 }"

definition stage_init :: "lcd_stage \<Rightarrow> kenv \<Rightarrow> (lcd_drv, u32) state" where
  "stage_init st env = do {
     stage_init_info st env; stage_init_gpio env; stage_init_regs st env; stage_init_start env }"

text \<open>The module functions of the stages.\<close>

definition lcd16_init :: "kenv \<Rightarrow> (lcd_drv, u32) state" where "lcd16_init = stage_init lcd16"
definition lcd24_init :: "kenv \<Rightarrow> (lcd_drv, u32) state" where "lcd24_init = stage_init lcd24"
definition lcd_wds_init :: "kenv \<Rightarrow> (lcd_drv, u32) state" where "lcd_wds_init = stage_init lcd_wds"
definition lcd_nice_init :: "kenv \<Rightarrow> (lcd_drv, u32) state" where "lcd_nice_init = stage_init lcd_nice"

definition lcd16_exit :: "kenv \<Rightarrow> (lcd_drv, unit) state" where "lcd16_exit = lcd_exit"
definition lcd24_exit :: "kenv \<Rightarrow> (lcd_drv, unit) state" where "lcd24_exit = lcd_exit"
definition lcd_wds_exit :: "kenv \<Rightarrow> (lcd_drv, unit) state" where "lcd_wds_exit = lcd_exit"
definition lcd_nice_exit :: "kenv \<Rightarrow> (lcd_drv, unit) state" where "lcd_nice_exit = lcd_exit"

lemmas stage_defs = stage_init_def stage_init_info_def stage_init_gpio_def stage_init_regs_def
  stage_init_start_def
lemmas stage_inits = lcd16_init_def lcd24_init_def lcd_wds_init_def lcd_nice_init_def
lemmas stage_exits = lcd16_exit_def lcd24_exit_def lcd_wds_exit_def lcd_nice_exit_def
lemmas stage_consts = lcd16_def lcd24_def lcd_wds_def lcd_nice_def

subsection \<open>Comparing the stages\<close>

lemma stage_screen_size:
  "result (stage_init (st\<lparr>st_screen_size := n\<rparr>) env) s = result (stage_init st env) s"
  "exec (stage_init (st\<lparr>st_screen_size := n\<rparr>) env) s =
     (let t = exec (stage_init st env) s in t\<lparr>lcd_fb := (lcd_fb t)\<lparr>screen_size := n\<rparr>\<rparr>)"
  by (simp_all add: stage_defs stage_info_def Let_def)

lemma lcd_wds_lcd16: "lcd_wds = lcd16\<lparr>st_screen_size := 320 * 240 * 32 div 8\<rparr>"
  by (simp add: stage_consts)


lemma lcd_saddr1:
  assumes "even st" and "st < (2 :: u32) ^ 31"
  shows "push_bit 1 (drop_bit 1 st AND NOT (push_bit 30 3)) = (st :: u32)"
proof -
  have m: "NOT (push_bit 30 3) = (mask 30 :: u32)" by (simp add: mask_eq_exp_minus_1)
  have t: "take_bit 31 st = st"
    using assms(2) by (simp add: word_unat_eq_iff take_bit_eq_mod unat_mod_distrib word_less_nat_alt)
  have "push_bit 1 (take_bit 30 (drop_bit 1 st)) = push_bit 1 (drop_bit 1 (take_bit 31 st))"
    by (simp add: drop_bit_take_bit)
  also have "\<dots> = st div 2 * 2" using t by (simp add: push_bit_eq_mult drop_bit_eq_div)
  also have "\<dots> = st" using assms(1) by (metis even_iff_mod_2_eq_zero div_mult_mod_eq add.right_neutral)
  finally show ?thesis unfolding m by (simp add: take_bit_eq_mask)
qed

text \<open>
  Every stage shows the memory that was allocated for the frame buffer, wherever it lies below 2 GB
  (the final driver shows a constant address instead).
\<close>

theorem lcd_stage_shows_buffer:
  assumes "even (smem_start (lcd_fb (exec (stage_init st env) s)))"
    and "smem_start (lcd_fb (exec (stage_init st env) s)) < 2 ^ 31"
  shows "let t = exec (stage_init st env) s; p = lcd_regs t; es = drop (length (trace s)) (trace t) in
   (\<exists>a1. last_wr (lcdsaddr1 p) es = Some a1 \<and> push_bit 1 a1 = smem_start (lcd_fb t))"
proof -
  let ?t = "exec (stage_init st env) s"
  have "last_wr (lcdsaddr1 (lcd_regs ?t)) (drop (length (trace s)) (trace ?t)) =
      Some (drop_bit 1 (smem_start (lcd_fb ?t)) AND NOT (push_bit 30 3))"
    by (simp add: stage_defs Let_def)
  with lcd_saddr1 [OF assms] show ?thesis by (simp only: Let_def) blast
qed

text \<open>
  In all four stages the controller steps 1280 bytes from line to line, whereas the kernel is told
  a line of 480 or 960 bytes; the final driver corrects this. In the stages with 8 bits per
  colour the kernel is moreover told 16 bits per pixel.
\<close>

theorem lcd_stage_pitch:
  "let t = exec (stage_init st env) s; p = lcd_regs t; es = drop (length (trace s)) (trace t) in
   \<exists>a3. last_wr (lcdsaddr3 p) es = Some a3 \<and> 2 * take_bit 11 a3 = 1280 \<and>
     line_length (lcd_fb t) = st_line_length st \<and> bits_per_pixel (lcd_fb t) = 16 \<and>
     st_line_length lcd16 = 480 \<and> st_line_length lcd_wds = 480 \<and>
     st_line_length lcd24 = 960 \<and> st_line_length lcd_nice = 960"
  by (simp add: stage_defs stage_info_def Let_def lcd16_def lcd24_def lcd_wds_def lcd_nice_def)

definition stage_env :: kenv where
  "stage_env n q = (case q of
     QCall f xs \<Rightarrow> if f = ''register_framebuffer'' then 0
       else if f = ''ioremap'' then (case hd xs of Num a \<Rightarrow> a | _ \<Rightarrow> 0) else 0x1000
   | QOut f i \<Rightarrow> 0x33000000 | QRd a \<Rightarrow> 0)"

theorem lcd_stage_shows_buffer_witness:
  "smem_start (lcd_fb (exec (stage_init lcd16 stage_env) lcd_start)) = 0x33000000 \<and>
   (\<exists>a1. last_wr (lcdsaddr1 (lcd_regs (exec (stage_init lcd16 stage_env) lcd_start)))
     (trace (exec (stage_init lcd16 stage_env) lcd_start)) = Some a1 \<and> push_bit 1 a1 = 0x33000000)"
proof -
  have s: "smem_start (lcd_fb (exec (stage_init lcd16 stage_env) lcd_start)) = 0x33000000"
    by (simp add: stage_defs stage_env_def)
  have t: "length (trace lcd_start) = 0" by (simp add: lcd_start_def)
  show ?thesis
    using lcd_stage_shows_buffer [of lcd16 stage_env lcd_start] unfolding s t Let_def by simp
qed

subsection \<open>Resources\<close>

lemma stage_init_ghost:
  assumes "lcd_granted env fb b c d g p m" and "lcd_fits p"
  shows "ghost (trace (exec (stage_init st env) s)) = (lcd_held (st_smem_len st) fb b c d g p m @ held s, viol s)"
  using assms(1) lcd_maps [OF assms(2)] maps_four
  by (cases "ghost (trace s)")
    (simp add: lcd_granted_def always_def stage_defs stage_info_def Let_def lcd_held_def held_def viol_def
      allocates_def ghost_simps)

lemma stage_init_state:
  fixes s :: lcd_drv and st :: lcd_stage
  assumes "lcd_granted env fb b c d g p m"
  defines "t \<equiv> exec (stage_init st env) s"
  shows "s3c_lcd t = fb" "lcd_regs t = p" "lcd_gpbcon t = b" "lcd_gpccon t = c" "lcd_gpdcon t = d"
    "lcd_gpgcon t = g" "screen_base (lcd_fb t) = m" "smem_len (lcd_fb t) = st_smem_len st"
  using assms(1) unfolding t_def
  by (simp_all add: lcd_granted_def always_def stage_defs stage_info_def Let_def)

lemma stage_load_unload:
  assumes "lcd_granted env fb b c d g p m" and "lcd_fits p"
  shows "held (exec (do { _ \<leftarrow> stage_init st env; lcd_exit env }) s) = held s"
    "viol (exec (do { _ \<leftarrow> stage_init st env; lcd_exit env }) s) = viol s"
proof -
  have "distinct [b, c, d, g, p]" using assms(1) by (simp add: lcd_granted_def)
  from lcd_exit_ghost [OF stage_init_ghost [OF assms] stage_init_state [OF assms(1)] this assms(2), of env]
  show "held (exec (do { _ \<leftarrow> stage_init st env; lcd_exit env }) s) = held s"
    "viol (exec (do { _ \<leftarrow> stage_init st env; lcd_exit env }) s) = viol s"
    by (simp_all add: exec_bind held_def viol_def del: run_state_bind)
qed

text \<open>
  Each of the four stages can be loaded and unloaded: all kernel objects are given back and no access
  lies outside the mappings.
\<close>

theorem lcd_stages_load_unload:
  assumes "lcd_granted env fb b c d g p m" and "lcd_fits p"
    and "(ini, ext) \<in> {(lcd16_init, lcd16_exit), (lcd24_init, lcd24_exit), (lcd_wds_init, lcd_wds_exit),
      (lcd_nice_init, lcd_nice_exit)}"
  shows "held (exec (do { _ \<leftarrow> ini env; ext env }) s) = held s \<and>
    viol (exec (do { _ \<leftarrow> ini env; ext env }) s) = viol s"
  using assms(3) stage_load_unload [OF assms(1,2)] unfolding stage_inits stage_exits by blast

theorem lcd_stages_load_unload_witness:
  "lcd_granted stage_env 0x1000 0x56000010 0x56000020 0x56000030 0x56000060 0x4D000000 0x1000 \<and>
   held (exec (do { _ \<leftarrow> lcd24_init stage_env; lcd24_exit stage_env }) lcd_start) = []"
proof -
  have g: "lcd_granted stage_env 0x1000 0x56000010 0x56000020 0x56000030 0x56000060 0x4D000000 0x1000"
    by (simp add: lcd_granted_def always_def stage_env_def)
  have f: "lcd_fits 0x4D000000" by (simp add: lcd_fits_def)
  have "held lcd_start = []" by (simp add: held_def ghost_def lcd_start_def)
  with lcd_stages_load_unload [OF g f, of lcd24_init lcd24_exit lcd_start] g show ?thesis by simp
qed

end
