(* ===== verification/Buttons.thy ===== *)
theory Buttons
  imports Irq
begin

section \<open>buttons: keys through the input subsystem, debounced by a timer\<close>

text \<open>
  \<^verbatim>\<open>8th_buttons/buttons.c\<close>. An interrupt stores which key it was and restarts a 10 ms timer; when
  the timer expires the level of that key's pin is reported as an input event. The table
  \<^verbatim>\<open>pindesc\<close> is constant; the pointer \<^verbatim>\<open>irq_pd\<close> into it is \<open>None\<close> (NULL) or the entry.
\<close>

record bpin =
  bd_irq :: string
  bd_name :: string
  bd_pin :: string
  bd_key_val :: string

definition buttons_pindesc :: "bpin list" where
  "buttons_pindesc =
     [\<lparr>bd_irq = ''IRQ_EINT8'', bd_name = ''K1'', bd_pin = ''S3C2410_GPG0'', bd_key_val = ''KEY_L''\<rparr>,
      \<lparr>bd_irq = ''IRQ_EINT11'', bd_name = ''K2'', bd_pin = ''S3C2410_GPG3'', bd_key_val = ''KEY_S''\<rparr>,
      \<lparr>bd_irq = ''IRQ_EINT13'', bd_name = ''K3'', bd_pin = ''S3C2410_GPG5'', bd_key_val = ''KEY_ENTER''\<rparr>,
      \<lparr>bd_irq = ''IRQ_EINT14'', bd_name = ''K4'', bd_pin = ''S3C2410_GPG6'', bd_key_val = ''KEY_C''\<rparr>,
      \<lparr>bd_irq = ''IRQ_EINT15'', bd_name = ''K5'', bd_pin = ''S3C2410_GPG7'', bd_key_val = ''KEY_A''\<rparr>,
      \<lparr>bd_irq = ''IRQ_EINT19'', bd_name = ''K6'', bd_pin = ''S3C2410_GPG11'', bd_key_val = ''KEY_T''\<rparr>]"

text \<open>The entries with their addresses.\<close>

definition buttons_table :: "(bpin \<times> string) list" where
  "buttons_table = zip buttons_pindesc
     [''&pindesc[0]'', ''&pindesc[1]'', ''&pindesc[2]'', ''&pindesc[3]'', ''&pindesc[4]'', ''&pindesc[5]'']"

record buttons_drv = kworld +
  buttons_input_dev :: u32
  irq_pd :: "bpin option"

definition buttons_irq :: "kenv \<Rightarrow> bpin \<Rightarrow> (buttons_drv, string) state" where
  "buttons_irq env dev_id = do {
     modify (\<lambda>s. s\<lparr>irq_pd := Some dev_id\<rparr>);
     jiffies \<leftarrow> call env ''jiffies'' [];
     HZ \<leftarrow> call env ''HZ'' [];
     callv env ''mod_timer'' [Sym ''&buttons_timer'', Num (jiffies + HZ div 100)];
     ret ''IRQ_HANDLED'' }"

definition buttons_timer_function :: "kenv \<Rightarrow> (buttons_drv, unit) state" where
  "buttons_timer_function env = do {
     pd \<leftarrow> gets irq_pd;
     (case pd of None \<Rightarrow> skip | Some pindesc \<Rightarrow> do {
        pinval \<leftarrow> call env ''s3c2410_gpio_getpin'' [Sym (bd_pin pindesc)];
        dev \<leftarrow> gets buttons_input_dev;
        (if pinval \<noteq> 0
         then do {
           callv env ''input_event'' [Num dev, Sym ''EV_KEY'', Sym (bd_key_val pindesc), Num 0];
           callv env ''input_sync'' [Num dev] }
         else do {
           callv env ''input_event'' [Num dev, Sym ''EV_KEY'', Sym (bd_key_val pindesc), Num 1];
           callv env ''input_sync'' [Num dev] }) }) }"

text \<open>\<^verbatim>\<open>set_bit(b, dev->field)\<close>: the device object is dereferenced.\<close>

definition dev_set_bit :: "kenv \<Rightarrow> string \<Rightarrow> u32 \<Rightarrow> string \<Rightarrow> ('s kworld_scheme, unit) state" where
  "dev_set_bit env b dev field = do { use dev; callv env ''set_bit'' [Sym b, Num dev, Sym field] }"

fun buttons_request_irqs :: "kenv \<Rightarrow> (bpin \<times> string) list \<Rightarrow> (buttons_drv, u32) state" where
  "buttons_request_irqs env [] = ret 0"
| "buttons_request_irqs env ((d, a) # xs) = do {
     r \<leftarrow> call env ''request_irq''
       [Sym (bd_irq d), Sym ''buttons_irq'', Sym ''IRQT_BOTHEDGE'', Str (bd_name d), Sym a];
     (if r \<noteq> 0 then ret (- EAGAIN) else buttons_request_irqs env xs) }"

definition buttons_init :: "kenv \<Rightarrow> (buttons_drv, u32) state" where
  "buttons_init env = do {
     p \<leftarrow> call env ''input_allocate_device'' [];
     modify (\<lambda>s. s\<lparr>buttons_input_dev := p\<rparr>);
     (if p = NULL then ret (- ENOMEM) else do {
        dev_set_bit env ''EV_KEY'' p ''evbit'';
        dev_set_bit env ''EV_REP'' p ''evbit'';
        dev_set_bit env ''KEY_L'' p ''keybit'';
        dev_set_bit env ''KEY_S'' p ''keybit'';
        dev_set_bit env ''KEY_C'' p ''keybit'';
        dev_set_bit env ''KEY_A'' p ''keybit'';
        dev_set_bit env ''KEY_T'' p ''keybit'';
        dev_set_bit env ''KEY_ENTER'' p ''keybit'';
        callv env ''input_register_device'' [Num p];
        callv env ''init_timer'' [Sym ''&buttons_timer''];
        callv env ''add_timer'' [Sym ''&buttons_timer''];
        buttons_request_irqs env buttons_table }) }"

definition buttons_exit :: "kenv \<Rightarrow> (buttons_drv, unit) state" where
  "buttons_exit env = do {
     each (\<lambda>(d, a). callv env ''free_irq'' [Sym (bd_irq d), Sym a]) buttons_table;
     callv env ''del_timer'' [Sym ''&buttons_timer''];
     dev \<leftarrow> gets buttons_input_dev;
     callv env ''input_unregister_device'' [Num dev];
     callv env ''input_free_device'' [Num dev] }"

text \<open>What may happen between init and exit: interrupts and expiries of the timer.\<close>

datatype buttons_op = Buttons_irq bpin | Buttons_timer

fun buttons_event :: "kenv \<Rightarrow> buttons_op \<Rightarrow> (buttons_drv, u32) state" where
  "buttons_event env (Buttons_irq d) = do { _ \<leftarrow> buttons_irq env d; ret 0 }"
| "buttons_event env Buttons_timer = do { buttons_timer_function env; ret 0 }"

subsection \<open>What the timer reports\<close>

lemma buttons_irq_pd: "irq_pd (exec (buttons_irq env d) s) = Some d"
  by (simp add: buttons_irq_def)

lemma buttons_irq_dev: "buttons_input_dev (exec (buttons_irq env d) s) = buttons_input_dev s"
  by (simp add: buttons_irq_def)

lemma buttons_irqs_state:
  "irq_pd (exec (each (\<lambda>d. do { _ \<leftarrow> buttons_irq env d; skip }) ds) s) =
     (if ds = [] then irq_pd s else Some (last ds))"
  "buttons_input_dev (exec (each (\<lambda>d. do { _ \<leftarrow> buttons_irq env d; skip }) ds) s) = buttons_input_dev s"
  by (induction ds arbitrary: s) (simp_all add: exec_bind buttons_irq_pd buttons_irq_dev del: run_state_bind)

text \<open>
  C28. When the debounce timer expires after the interrupts \<open>ds\<close>, exactly one key is reported:
  that of the last interrupt, with value 1 (pressed) when its pin is read low at that moment and
  0 when it is high, followed by one synchronisation. The interrupts before it leave no trace,
  so of two keys that change within one window only one is seen. An expiry before the first
  interrupt reports nothing.
\<close>

theorem buttons_timer_reports_last:
  fixes ds :: "bpin list" and env :: kenv
  assumes "irq_pd s = None"
  defines "t \<equiv> exec (each (\<lambda>d. do { _ \<leftarrow> buttons_irq env d; skip }) ds) s"
  shows "exec (buttons_timer_function env) t =
    (if ds = [] then t else
       let n = length (trace t); dev = buttons_input_dev s; d = last ds;
           pin = QCall ''s3c2410_gpio_getpin'' [Sym (bd_pin d)];
           ev = QCall ''input_event'' [Num dev, Sym ''EV_KEY'', Sym (bd_key_val d), Num (of_bool (env n pin = 0))];
           sy = QCall ''input_sync'' [Num dev]
       in t\<lparr>trace := trace t @ [Ev pin (env n pin), Ev ev (env (Suc n) ev), Ev sy (env (Suc (Suc n)) sy)]\<rparr>)"
proof -
  have "irq_pd t = (if ds = [] then None else Some (last ds))" "buttons_input_dev t = buttons_input_dev s"
    unfolding t_def buttons_irqs_state using assms(1) by simp_all
  then show ?thesis by (simp add: buttons_timer_function_def Let_def)
qed

definition buttons_start :: buttons_drv where
  "buttons_start = \<lparr>trace = [], buttons_input_dev = 0, irq_pd = None\<rparr>"

theorem buttons_timer_reports_last_witness:
  "last (trace (exec (buttons_timer_function (\<lambda>n q. 0)) (exec (each (\<lambda>d. do { _ \<leftarrow> buttons_irq (\<lambda>n q. 0) d; skip })
      [buttons_pindesc ! 0, buttons_pindesc ! 1]) buttons_start))) = Ev (QCall ''input_sync'' [Num 0]) 0"
  using buttons_timer_reports_last [of buttons_start "\<lambda>n q. 0" "[buttons_pindesc ! 0, buttons_pindesc ! 1]"]
  by (simp add: buttons_start_def Let_def)

subsection \<open>Resources of init and exit\<close>

definition buttons_lines :: "irq_line list" where
  "buttons_lines = map (\<lambda>(d, a). (bd_irq d, bd_name d, a)) buttons_table"

fun line_of :: "bpin \<times> string \<Rightarrow> irq_line" where
  "line_of (d, a) = (bd_irq d, bd_name d, a)"

abbreviation buttons_req :: "bpin \<times> string \<Rightarrow> kreq" where
  "buttons_req x \<equiv> QCall ''request_irq'' (irq_req ''buttons_irq'' (line_of x))"

text \<open>The number of lines the kernel grants before it first refuses one.\<close>

definition granted_lines :: "kenv \<Rightarrow> nat \<Rightarrow> nat" where
  "granted_lines env n = length (takeWhile (\<lambda>r. r = 0) (answers env n (map buttons_req buttons_table)))"

lemma request_irqs_run:
  "\<exists>es. exec (buttons_request_irqs env xs) s = s\<lparr>trace := trace s @ es\<rparr> \<and>
     (let k = length (takeWhile (\<lambda>r. r = 0) (answers env (length (trace s)) (map buttons_req xs))) in
      result (buttons_request_irqs env xs) s = (if k = length xs then 0 else - EAGAIN) \<and>
      (\<forall>hs v. fold gstep es (hs, v) = (rev (map (irq_rec ''buttons_irq'' \<circ> line_of) (take k xs)) @ hs, v)))"
proof (induction xs arbitrary: s)
  case Nil
  show ?case by (rule exI [where x = "[]"]) simp
next
  case (Cons x xs)
  obtain d a where x: "x = (d, a)" by (cases x)
  let ?q = "buttons_req x"
  let ?r = "env (length (trace s)) ?q"
  let ?t = "s\<lparr>trace := trace s @ [Ev ?q ?r]\<rparr>"
  show ?case
  proof (cases "?r = 0")
    case True
    obtain es where es: "exec (buttons_request_irqs env xs) ?t = ?t\<lparr>trace := trace ?t @ es\<rparr>"
      "let k = length (takeWhile (\<lambda>r. r = 0) (answers env (length (trace ?t)) (map buttons_req xs))) in
      result (buttons_request_irqs env xs) ?t = (if k = length xs then 0 else - EAGAIN) \<and>
      (\<forall>hs v. fold gstep es (hs, v) = (rev (map (irq_rec ''buttons_irq'' \<circ> line_of) (take k xs)) @ hs, v))"
      using Cons.IH [of ?t] by blast
    have run: "run_state (buttons_request_irqs env (x # xs)) s = run_state (buttons_request_irqs env xs) ?t"
      using True by (simp add: x)
    show ?thesis unfolding run
      by (rule exI [where x = "Ev ?q ?r # es"]) (use es True in \<open>simp add: Let_def irq_rec_def ghost_simps\<close>)
  next
    case False
    then show ?thesis
      by (intro exI [where x = "[Ev ?q ?r]"]) (simp add: x ghost_simps Let_def)
  qed
qed

text \<open>What init holds after the kernel granted the device, its registration and \<open>k\<close> of the lines.\<close>

definition buttons_held :: "u32 \<Rightarrow> u32 \<Rightarrow> nat \<Rightarrow> kres list" where
  "buttons_held p tm k = rev (map (irq_rec ''buttons_irq'' \<circ> line_of) (take k buttons_table)) @
     [(''add_timer'', [Sym ''&buttons_timer''], tm), (''input_register_device'', [Num p], 0),
      (''input_allocate_device'', [], p)]"

text \<open>The state in which init requests the lines.\<close>

definition buttons_ready :: "kenv \<Rightarrow> (buttons_drv, unit) state" where
  "buttons_ready env = do {
     p \<leftarrow> call env ''input_allocate_device'' [];
     modify (\<lambda>s. s\<lparr>buttons_input_dev := p\<rparr>);
     dev_set_bit env ''EV_KEY'' p ''evbit'';
     dev_set_bit env ''EV_REP'' p ''evbit'';
     dev_set_bit env ''KEY_L'' p ''keybit'';
     dev_set_bit env ''KEY_S'' p ''keybit'';
     dev_set_bit env ''KEY_C'' p ''keybit'';
     dev_set_bit env ''KEY_A'' p ''keybit'';
     dev_set_bit env ''KEY_T'' p ''keybit'';
     dev_set_bit env ''KEY_ENTER'' p ''keybit'';
     callv env ''input_register_device'' [Num p];
     callv env ''init_timer'' [Sym ''&buttons_timer''];
     callv env ''add_timer'' [Sym ''&buttons_timer''] }"

lemma buttons_init_ready:
  "env (length (trace s)) (QCall ''input_allocate_device'' []) \<noteq> NULL \<Longrightarrow>
    run_state (buttons_init env) s =
    run_state (buttons_request_irqs env buttons_table) (exec (buttons_ready env) s)"
  by (simp add: buttons_init_def buttons_ready_def dev_set_bit_def)

lemma buttons_ready_state:
  "buttons_input_dev (exec (buttons_ready env) s) = env (length (trace s)) (QCall ''input_allocate_device'' [])"
  "irq_pd (exec (buttons_ready env) s) = irq_pd s"
  "length (trace (exec (buttons_ready env) s)) = length (trace s) + 20"
  by (simp_all add: buttons_ready_def dev_set_bit_def)

text \<open>The kernel grants the device object and its registration.\<close>

definition buttons_dev_granted :: "kenv \<Rightarrow> 's kworld_scheme \<Rightarrow> bool" where
  "buttons_dev_granted env s \<longleftrightarrow>
     env (length (trace s)) (QCall ''input_allocate_device'' []) \<noteq> NULL \<and>
     env (length (trace s) + 17) (QCall ''input_register_device''
       [Num (env (length (trace s)) (QCall ''input_allocate_device'' []))]) = 0"

lemma buttons_ready_ghost:
  assumes "buttons_dev_granted env s"
  shows "\<exists>tm. ghost (trace (exec (buttons_ready env) s)) =
    (buttons_held (buttons_input_dev (exec (buttons_ready env) s)) tm 0 @ held s, viol s)"
  using assms
  by (cases "ghost (trace s)")
    (simp add: buttons_dev_granted_def buttons_ready_def dev_set_bit_def buttons_held_def held_def viol_def
      allocates_def ghost_simps eval_nat_numeral)

lemma buttons_init_outcome:
  assumes "buttons_dev_granted env s"
  defines "k \<equiv> granted_lines env (length (trace s) + 20)"
  defines "t \<equiv> exec (buttons_init env) s"
  shows "result (buttons_init env) s = (if k = 6 then 0 else - EAGAIN)"
    and "\<exists>tm. held t = buttons_held (buttons_input_dev t) tm k @ held s"
    and "viol t = viol s"
    and "irq_pd t = irq_pd s"
proof -
  let ?r = "exec (buttons_ready env) s"
  have nn: "env (length (trace s)) (QCall ''input_allocate_device'' []) \<noteq> NULL"
    using assms(1) by (simp add: buttons_dev_granted_def)
  obtain es where es: "exec (buttons_request_irqs env buttons_table) ?r = ?r\<lparr>trace := trace ?r @ es\<rparr>"
    and res: "result (buttons_request_irqs env buttons_table) ?r = (if k = length buttons_table then 0 else - EAGAIN)"
    and g: "\<forall>hs v. fold gstep es (hs, v) =
      (rev (map (irq_rec ''buttons_irq'' \<circ> line_of) (take k buttons_table)) @ hs, v)"
    using request_irqs_run [of env buttons_table ?r]
    unfolding Let_def buttons_ready_state granted_lines_def [symmetric] k_def [symmetric] by blast
  have six: "length buttons_table = 6" by (simp add: buttons_table_def buttons_pindesc_def)
  have run: "t = ?r\<lparr>trace := trace ?r @ es\<rparr>"
    unfolding t_def using buttons_init_ready [of env s] nn es by simp
  obtain tm where tm: "ghost (trace ?r) = (buttons_held (buttons_input_dev ?r) tm 0 @ held s, viol s)"
    using buttons_ready_ghost [OF assms(1)] by blast
  have gt: "ghost (trace t) = (buttons_held (buttons_input_dev t) tm k @ held s, viol s)"
    using tm g unfolding run by (simp add: ghost_append buttons_held_def)
  show "result (buttons_init env) s = (if k = 6 then 0 else - EAGAIN)"
    using buttons_init_ready [of env s] nn res six by simp
  show "\<exists>tm. held t = buttons_held (buttons_input_dev t) tm k @ held s" "viol t = viol s"
    using gt by (auto simp: held_def viol_def)
  show "irq_pd t = irq_pd s" unfolding run by (simp add: buttons_ready_state)
qed

lemma buttons_request_dev: "buttons_input_dev (exec (buttons_request_irqs env xs) s) = buttons_input_dev s"
proof -
  obtain es where "exec (buttons_request_irqs env xs) s = s\<lparr>trace := trace s @ es\<rparr>"
    using request_irqs_run by blast
  then show ?thesis by simp
qed

lemma buttons_init_dev:
  "buttons_input_dev (exec (buttons_init env) s) = env (length (trace s)) (QCall ''input_allocate_device'' [])"
  by (simp add: buttons_init_def dev_set_bit_def buttons_request_dev)

text \<open>
  init of buttons succeeds exactly when all six lines are granted. When the kernel refuses a
  line it returns -EAGAIN and keeps everything it acquired before: the device, its registration,
  the running timer and the lines granted so far, which nothing releases any more since the exit
  function of a module whose init failed is never called.
\<close>

theorem buttons_init_leak:
  assumes "buttons_dev_granted env s"
  shows "let k = granted_lines env (length (trace s) + 20); t = exec (buttons_init env) s in
    result (buttons_init env) s = (if k = 6 then 0 else - EAGAIN) \<and>
    (\<exists>tm. held t = buttons_held (buttons_input_dev t) tm k @ held s) \<and> viol t = viol s"
  using buttons_init_outcome [OF assms] by (simp add: Let_def)

theorem buttons_init_leak_witness:
  "let env = (\<lambda>n q. if n = 0 then 0x1000 else if n = 22 then - EBUSY else 0) in
   buttons_dev_granted env buttons_start \<and> result (buttons_init env) buttons_start = - EAGAIN"
proof -
  let ?env = "\<lambda>n (q :: kreq). if n = (0 :: nat) then 0x1000 else if n = 22 then - EBUSY else (0 :: u32)"
  have g: "buttons_dev_granted ?env buttons_start" by (simp add: buttons_dev_granted_def buttons_start_def)
  have "granted_lines ?env (length (trace buttons_start) + 20) = 2"
    by (simp add: granted_lines_def buttons_start_def buttons_table_def buttons_pindesc_def)
  with buttons_init_leak [OF g] g show ?thesis by (simp add: Let_def)
qed

text \<open>Everything granted, on top of resources \<open>R\<close> among which the device object does not occur.\<close>

definition fresh_dev :: "u32 \<Rightarrow> kres list \<Rightarrow> bool" where
  "fresh_dev p R \<longleftrightarrow> \<not> list_ex (\<lambda>(f, xs, r). f = ''input_allocate_device'' \<and> r = p) R"

definition buttons_loaded :: "kres list \<Rightarrow> buttons_drv \<Rightarrow> bool" where
  "buttons_loaded R s \<longleftrightarrow> fresh_dev (buttons_input_dev s) R \<and>
     (\<exists>tm. held s = buttons_held (buttons_input_dev s) tm 6 @ R)"

lemma buttons_event_ghost:
  "ghost (trace (exec (buttons_event env x) s)) = ghost (trace s) \<and>
   buttons_input_dev (exec (buttons_event env x) s) = buttons_input_dev s"
  by (cases x; cases "ghost (trace s)")
    (auto simp: buttons_irq_def buttons_timer_function_def ghost_simps split: option.splits)

lemma free_lines_run:
  "\<exists>rs. length rs = length xs \<and>
    exec (each (\<lambda>(d, a). callv env ''free_irq'' [Sym (bd_irq d), Sym a]) xs) s =
      s\<lparr>trace := trace s @ map2 free_event (map line_of xs) rs\<rparr>"
proof (induction xs arbitrary: s)
  case (Cons x xs)
  obtain d a where x: "x = (d, a)" by (cases x)
  let ?q = "QCall ''free_irq'' [Sym (bd_irq d), Sym a]"
  let ?r = "env (length (trace s)) ?q"
  let ?t = "s\<lparr>trace := trace s @ [Ev ?q ?r]\<rparr>"
  obtain rs where rs: "length rs = length xs"
    "exec (each (\<lambda>(d, a). callv env ''free_irq'' [Sym (bd_irq d), Sym a]) xs) ?t =
      ?t\<lparr>trace := trace ?t @ map2 free_event (map line_of xs) rs\<rparr>"
    using Cons.IH [of ?t] by blast
  show ?case by (rule exI [where x = "?r # rs"]) (use rs in \<open>simp add: x free_event_def\<close>)
qed simp

lemma distinct_buttons_lines: "distinct (map irq_free (map line_of buttons_table))"
  by (simp add: buttons_table_def buttons_pindesc_def)

lemma buttons_exit_outcome:
  assumes "buttons_loaded R s"
  shows "held (exec (buttons_exit env) s) = R"
    and "\<exists>r. viol (exec (buttons_exit env) s) =
      viol s @ [Ev (QCall ''input_free_device'' [Num (buttons_input_dev s)]) r]"
proof -
  obtain tm where tm: "held s = buttons_held (buttons_input_dev s) tm 6 @ R"
    using assms by (auto simp: buttons_loaded_def)
  obtain rs where rs: "length rs = length buttons_table"
    "exec (each (\<lambda>(d, a). callv env ''free_irq'' [Sym (bd_irq d), Sym a]) buttons_table) s =
      s\<lparr>trace := trace s @ map2 free_event (map line_of buttons_table) rs\<rparr>"
    using free_lines_run by blast
  let ?t = "s\<lparr>trace := trace s @ map2 free_event (map line_of buttons_table) rs\<rparr>"
  have "take 6 buttons_table = buttons_table" by (simp add: buttons_table_def buttons_pindesc_def)
  then have t: "ghost (trace ?t) = (buttons_held (buttons_input_dev s) tm 0 @ R, viol s)"
    using tm rs(1) fold_free [OF distinct_buttons_lines, of rs "''buttons_irq''"]
    by (simp add: ghost_append ghost_pair buttons_held_def)
  have "exec (buttons_exit env) s = exec (do {
     callv env ''del_timer'' [Sym ''&buttons_timer''];
     dev \<leftarrow> gets buttons_input_dev;
     callv env ''input_unregister_device'' [Num dev];
     callv env ''input_free_device'' [Num dev] }) ?t"
    unfolding buttons_exit_def exec_bind rs(2) ..
  moreover have "\<exists>r. ghost (trace (exec (do {
     callv env ''del_timer'' [Sym ''&buttons_timer''];
     dev \<leftarrow> gets buttons_input_dev;
     callv env ''input_unregister_device'' [Num dev];
     callv env ''input_free_device'' [Num dev] }) ?t)) =
     (R, viol s @ [Ev (QCall ''input_free_device'' [Num (buttons_input_dev s)]) r])"
    using t assms by (simp add: buttons_loaded_def fresh_dev_def buttons_held_def ghost_simps eq_commute)
  ultimately show "held (exec (buttons_exit env) s) = R"
    "\<exists>r. viol (exec (buttons_exit env) s) =
      viol s @ [Ev (QCall ''input_free_device'' [Num (buttons_input_dev s)]) r]"
    by (auto simp: held_def viol_def)
qed

lemma buttons_events_loaded:
  "buttons_loaded R s \<Longrightarrow>
    buttons_loaded R (exec (each (\<lambda>x. do { _ \<leftarrow> buttons_event env x; skip }) xs) s) \<and>
    buttons_input_dev (exec (each (\<lambda>x. do { _ \<leftarrow> buttons_event env x; skip }) xs) s) = buttons_input_dev s \<and>
    viol (exec (each (\<lambda>x. do { _ \<leftarrow> buttons_event env x; skip }) xs) s) = viol s"
proof (induction xs arbitrary: s)
  case (Cons x xs)
  let ?t = "exec (buttons_event env x) s"
  have g: "held ?t = held s" "viol ?t = viol s" "buttons_input_dev ?t = buttons_input_dev s"
    using buttons_event_ghost [of env x s] by (simp_all add: held_def viol_def)
  then have "buttons_loaded R ?t" using Cons.prems by (simp add: buttons_loaded_def)
  from Cons.IH [OF this] show ?case by (simp add: exec_bind g del: run_state_bind)
qed simp

text \<open>
  A complete life of buttons, load with everything granted, any sequence of interrupts and
  timer expiries, unload, gives every resource back and breaks the rules of the kernel interface
  exactly once: exit frees the input device although unregistering it has already dropped it.
\<close>

theorem buttons_session_double_free:
  assumes "buttons_dev_granted env s" and "granted_lines env (length (trace s) + 20) = 6"
    and "fresh_dev (env (length (trace s)) (QCall ''input_allocate_device'' [])) (held s)"
  shows "held (exec (session buttons_init buttons_event buttons_exit env xs) s) = held s \<and>
    (\<exists>r. viol (exec (session buttons_init buttons_event buttons_exit env xs) s) =
      viol s @ [Ev (QCall ''input_free_device''
        [Num (env (length (trace s)) (QCall ''input_allocate_device'' []))]) r])"
proof -
  let ?p = "env (length (trace s)) (QCall ''input_allocate_device'' [])"
  let ?s1 = "exec (buttons_init env) s"
  let ?s2 = "exec (each (\<lambda>x. do { _ \<leftarrow> buttons_event env x; skip }) xs) ?s1"
  have p: "buttons_input_dev ?s1 = ?p" using buttons_init_dev [of env s] .
  have l1: "buttons_loaded (held s) ?s1"
    using buttons_init_outcome(2) [OF assms(1)] assms(2,3) by (simp add: buttons_loaded_def p)
  note l2 = buttons_events_loaded [OF l1, of env xs]
  have "held (exec (buttons_exit env) ?s2) = held s"
    using l2 by (intro buttons_exit_outcome(1)) blast
  moreover have "\<exists>r. viol (exec (buttons_exit env) ?s2) =
      viol ?s2 @ [Ev (QCall ''input_free_device'' [Num (buttons_input_dev ?s2)]) r]"
    using l2 by (intro buttons_exit_outcome(2)) blast
  moreover have "viol ?s2 = viol s" "buttons_input_dev ?s2 = ?p"
    using l2 buttons_init_outcome(3) [OF assms(1)] p by simp_all
  ultimately show ?thesis by (simp add: session_def exec_bind del: run_state_bind)
qed

theorem buttons_session_double_free_witness:
  "let env = (\<lambda>n q. if n = 0 then 0x1000 else 0) in
   buttons_dev_granted env buttons_start \<and>
   (\<exists>r. viol (exec (session buttons_init buttons_event buttons_exit env [Buttons_irq (buttons_pindesc ! 2), Buttons_timer])
     buttons_start) = [Ev (QCall ''input_free_device'' [Num 0x1000]) r])"
proof -
  let ?env = "\<lambda>n (q :: kreq). if n = (0 :: nat) then 0x1000 else (0 :: u32)"
  have "buttons_dev_granted ?env buttons_start" by (simp add: buttons_dev_granted_def buttons_start_def)
  moreover have "granted_lines ?env (length (trace buttons_start) + 20) = 6"
    by (simp add: granted_lines_def buttons_start_def buttons_table_def buttons_pindesc_def)
  moreover have "held buttons_start = []" "viol buttons_start = []" "trace buttons_start = []"
    by (simp_all add: buttons_start_def held_def viol_def ghost_def)
  ultimately show ?thesis
    using buttons_session_double_free [of ?env buttons_start "[Buttons_irq (buttons_pindesc ! 2), Buttons_timer]"]
    by (simp add: fresh_dev_def Let_def)
qed

end
