(* ===== verification/Simulation.thy ===== *)
theory Simulation
  imports Kernel
begin

section \<open>Simulation of an abstract machine\<close>

text \<open>
  The contract between an event-driven driver and the abstract machine that says what it tells
  the rest of the system: every handler keeps the invariant, moves the abstract state as the
  machine does on the input the handler saw, and appends the encoding of the machine's reports to
  its output. The lemma of the locale carries the contract over all sequences of events.
\<close>

fun seen_inputs :: "('e \<Rightarrow> 's \<Rightarrow> 's) \<Rightarrow> ('s \<Rightarrow> 'e \<Rightarrow> 'i) \<Rightarrow> 'e list \<Rightarrow> 's \<Rightarrow> 'i list" where
  "seen_inputs conc sees [] s = []"
| "seen_inputs conc sees (e # es) s = sees s e # seen_inputs conc sees es (conc e s)"

fun spec_run :: "('i \<Rightarrow> 'a \<Rightarrow> 'a \<times> 'r list) \<Rightarrow> 'i list \<Rightarrow> 'a \<Rightarrow> 'a \<times> 'r list" where
  "spec_run spec [] a = (a, [])"
| "spec_run spec (i # is) a =
     (case spec i a of (b, r) \<Rightarrow> case spec_run spec is b of (c, rs) \<Rightarrow> (c, r @ rs))"

lemma fst_spec_run: "fst (spec_run spec (i # is) a) = fst (spec_run spec is (fst (spec i a)))"
  by (simp add: split_beta)

lemma snd_spec_run:
  "snd (spec_run spec (i # is) a) = snd (spec i a) @ snd (spec_run spec is (fst (spec i a)))"
  by (simp add: split_beta)

lemma spec_run_append_fst:
  "fst (spec_run spec (is @ js) a) = fst (spec_run spec js (fst (spec_run spec is a)))"
  by (induction "is" arbitrary: a) (simp_all add: split_beta)

lemma spec_run_append_snd:
  "snd (spec_run spec (is @ js) a) =
     snd (spec_run spec is a) @ snd (spec_run spec js (fst (spec_run spec is a)))"
  by (induction "is" arbitrary: a) (simp_all add: split_beta)

lemma spec_run_inv:
  assumes "\<And>i a. I a \<Longrightarrow> I (fst (spec i a)) \<and> (\<forall>r \<in> set (snd (spec i a)). Q r)" and "I a"
  shows "I (fst (spec_run spec is a)) \<and> (\<forall>r \<in> set (snd (spec_run spec is a)). Q r)"
  using assms(2)
proof (induction "is" arbitrary: a)
  case (Cons i "is")
  have "I (fst (spec i a))" "\<forall>r \<in> set (snd (spec i a)). Q r" using assms(1) [OF Cons.prems] by auto
  with Cons.IH show ?case unfolding fst_spec_run snd_spec_run by auto
qed simp

locale simulation =
  fixes conc :: "'e \<Rightarrow> 's \<Rightarrow> 's"
    and inv :: "'s \<Rightarrow> bool"
    and abs :: "'s \<Rightarrow> 'a"
    and sees :: "'s \<Rightarrow> 'e \<Rightarrow> 'i"
    and spec :: "'i \<Rightarrow> 'a \<Rightarrow> 'a \<times> 'r list"
    and outs :: "'s \<Rightarrow> 'o list"
    and enc :: "'r \<Rightarrow> 'o list"
  assumes step_inv: "inv s \<Longrightarrow> inv (conc e s)"
    and step_abs: "inv s \<Longrightarrow> abs (conc e s) = fst (spec (sees s e) (abs s))"
    and step_outs: "inv s \<Longrightarrow> outs (conc e s) = outs s @ concat (map enc (snd (spec (sees s e) (abs s))))"
begin

lemma run_inv: "inv s \<Longrightarrow> inv (fold conc es s)"
  by (induction es arbitrary: s) (simp_all add: step_inv)

lemma run_abs: "inv s \<Longrightarrow> abs (fold conc es s) = fst (spec_run spec (seen_inputs conc sees es s) (abs s))"
  by (induction es arbitrary: s) (simp_all add: step_inv step_abs split_beta)

lemma run_outs:
  "inv s \<Longrightarrow> outs (fold conc es s) =
     outs s @ concat (map enc (snd (spec_run spec (seen_inputs conc sees es s) (abs s))))"
  by (induction es arbitrary: s) (simp_all add: step_inv step_abs step_outs split_beta)

end

end
