(* ===== verification/Touch.thy ===== *)
theory Touch
  imports Buttons Simulation
begin

section \<open>s3c_ts: the touch screen driver\<close>

text \<open>
  \<^verbatim>\<open>11th_ts/s3c_ts.c\<close>. Three handlers share the ADC registers: the pen interrupt, the interrupt at
  the end of a conversion and a timer that keeps measuring while the pen is down. Four
  conversions are averaged into one report. The abstract machine \<open>ts_spec\<close> says what the input
  subsystem is told; the handlers refine it.
\<close>

record s3c_ts = kworld +
  s3c_ts_input_dev :: u32
  s3c_ts_regs :: u32
  adc_cnt :: nat
  adc_x :: "u32 list"
  adc_y :: "u32 list"

text \<open>The offsets of \<^verbatim>\<open>struct s3c_ts_regs\<close>; its size is 24.\<close>

abbreviation (input) adccon :: "u32 \<Rightarrow> u32" where "adccon p \<equiv> p"
abbreviation (input) adctsc :: "u32 \<Rightarrow> u32" where "adctsc p \<equiv> p + 4"
abbreviation (input) adcdly :: "u32 \<Rightarrow> u32" where "adcdly p \<equiv> p + 8"
abbreviation (input) adcdat0 :: "u32 \<Rightarrow> u32" where "adcdat0 p \<equiv> p + 12"
abbreviation (input) adcdat1 :: "u32 \<Rightarrow> u32" where "adcdat1 p \<equiv> p + 16"

definition enter_wait_pen_down_mode :: "(s3c_ts, unit) state" where
  "enter_wait_pen_down_mode = do { p \<leftarrow> gets s3c_ts_regs; wr (adctsc p) 0xd3 }"

definition enter_wait_pen_up_mode :: "(s3c_ts, unit) state" where
  "enter_wait_pen_up_mode = do { p \<leftarrow> gets s3c_ts_regs; wr (adctsc p) 0x1d3 }"

definition enter_masure_xy_mode :: "(s3c_ts, unit) state" where
  "enter_masure_xy_mode = do { p \<leftarrow> gets s3c_ts_regs; wr (adctsc p) (push_bit 2 1) }"

definition start_adc_mode :: "kenv \<Rightarrow> (s3c_ts, unit) state" where
  "start_adc_mode env = do { p \<leftarrow> gets s3c_ts_regs; reg_set env (adccon p) (push_bit 0 1) }"

definition s3c_ts_timer_function :: "kenv \<Rightarrow> (s3c_ts, unit) state" where
  "s3c_ts_timer_function env = do {
     p \<leftarrow> gets s3c_ts_regs;
     dev \<leftarrow> gets s3c_ts_input_dev;
     d \<leftarrow> rd env (adcdat0 p);
     (if d AND push_bit 15 1 \<noteq> 0
      then do {
        callv env ''input_report_abs'' [Num dev, Sym ''ABS_PRESSURE'', Num 0];
        callv env ''input_report_key'' [Num dev, Sym ''BTN_TOUCH'', Num 0];
        callv env ''input_sync'' [Num dev];
        enter_wait_pen_down_mode }
      else do {
        enter_masure_xy_mode;
        start_adc_mode env }) }"

definition pen_down_up_irq :: "kenv \<Rightarrow> (s3c_ts, string) state" where
  "pen_down_up_irq env = do {
     p \<leftarrow> gets s3c_ts_regs;
     dev \<leftarrow> gets s3c_ts_input_dev;
     d \<leftarrow> rd env (adcdat0 p);
     (if d AND push_bit 15 1 \<noteq> 0
      then do {
        callv env ''input_report_abs'' [Num dev, Sym ''ABS_PRESSURE'', Num 0];
        callv env ''input_report_key'' [Num dev, Sym ''BTN_TOUCH'', Num 0];
        callv env ''input_sync'' [Num dev];
        enter_wait_pen_down_mode }
      else do {
        enter_masure_xy_mode;
        start_adc_mode env });
     ret ''IRQ_HANDLED'' }"

definition adc_irq :: "kenv \<Rightarrow> (s3c_ts, string) state" where
  "adc_irq env = do {
     p \<leftarrow> gets s3c_ts_regs;
     dev \<leftarrow> gets s3c_ts_input_dev;
     dat0 \<leftarrow> rd env (adcdat0 p);
     dat1 \<leftarrow> rd env (adcdat1 p);
     up \<leftarrow> rd env (adcdat0 p);
     (if up AND push_bit 15 1 \<noteq> 0
      then do {
        modify (\<lambda>s. s\<lparr>adc_cnt := 0\<rparr>);
        callv env ''input_report_abs'' [Num dev, Sym ''ABS_PRESSURE'', Num 0];
        callv env ''input_report_key'' [Num dev, Sym ''BTN_TOUCH'', Num 0];
        callv env ''input_sync'' [Num dev];
        enter_wait_pen_down_mode }
      else do {
        modify (\<lambda>s. s\<lparr>adc_x := (adc_x s)[adc_cnt s := dat0 AND 0x3ff]\<rparr>);
        modify (\<lambda>s. s\<lparr>adc_y := (adc_y s)[adc_cnt s := dat1 AND 0x3ff]\<rparr>);
        modify (\<lambda>s. s\<lparr>adc_cnt := adc_cnt s + 1\<rparr>);
        cnt \<leftarrow> gets adc_cnt;
        (if cnt = 4
         then do {
           x \<leftarrow> gets adc_x;
           y \<leftarrow> gets adc_y;
           callv env ''input_report_abs'' [Num dev, Sym ''ABS_X'', Num ((x ! 0 + x ! 1 + x ! 2 + x ! 3) div 4)];
           callv env ''input_report_abs'' [Num dev, Sym ''ABS_Y'', Num ((y ! 0 + y ! 1 + y ! 2 + y ! 3) div 4)];
           callv env ''input_report_abs'' [Num dev, Sym ''ABS_PRESSURE'', Num 1];
           callv env ''input_report_key'' [Num dev, Sym ''BTN_TOUCH'', Num 1];
           callv env ''input_sync'' [Num dev];
           modify (\<lambda>s. s\<lparr>adc_cnt := 0\<rparr>);
           enter_wait_pen_up_mode;
           jiffies \<leftarrow> call env ''jiffies'' [];
           HZ \<leftarrow> call env ''HZ'' [];
           callv env ''mod_timer'' [Sym ''&ts_timer'', Num (jiffies + HZ div 100)] }
         else do {
           enter_masure_xy_mode;
           start_adc_mode env }) });
     ret ''IRQ_HANDLED'' }"

definition s3c_ts_init :: "kenv \<Rightarrow> (s3c_ts, u32) state" where
  "s3c_ts_init env = do {
     dev \<leftarrow> call env ''input_allocate_device'' [];
     modify (\<lambda>s. s\<lparr>s3c_ts_input_dev := dev\<rparr>);
     (if dev = NULL then do { printk env ''Unable to allocate the input device !!''; ret (- ENOMEM) } else do {
     use dev; callv env ''set_bit'' [Sym ''EV_KEY'', Num dev, Sym ''evbit''];
     use dev; callv env ''set_bit'' [Sym ''EV_ABS'', Num dev, Sym ''evbit''];
     use dev; callv env ''set_bit'' [Sym ''BTN_TOUCH'', Num dev, Sym ''keybit''];
     callv env ''input_set_abs_params'' [Num dev, Sym ''ABS_X'', Num 0, Num 0x3FF, Num 0, Num 0];
     callv env ''input_set_abs_params'' [Num dev, Sym ''ABS_Y'', Num 0, Num 0x3FF, Num 0, Num 0];
     callv env ''input_set_abs_params'' [Num dev, Sym ''ABS_PRESSURE'', Num 0, Num 1, Num 0, Num 0];
     callv env ''input_register_device'' [Num dev];
     clk \<leftarrow> call env ''clk_get'' [Num NULL, Str ''adc''];
     e \<leftarrow> call env ''IS_ERR'' [Num clk];
     (if e \<noteq> 0 then call env ''PTR_ERR'' [Num clk] else do {
     callv env ''clk_enable'' [Num clk];
     p \<leftarrow> call env ''ioremap'' [Num 0x58000000, Num 24];
     modify (\<lambda>s. s\<lparr>s3c_ts_regs := p\<rparr>);
     (if p = NULL then do { printk env '' unable to remap memory''; ret (- EAGAIN) } else do {
     wr (adccon p) (push_bit 14 1 OR push_bit 6 49 OR push_bit 0 0);
     r1 \<leftarrow> call env ''request_irq'' [Sym ''IRQ_TC'', Sym ''pen_down_up_irq'', Sym ''IRQF_SAMPLE_RANDOM'', Str ''ts_pen'', Num NULL];
     (if r1 \<noteq> 0 then do { printk env ''request_irq error''; ret (- EAGAIN) } else do {
     r2 \<leftarrow> call env ''request_irq'' [Sym ''IRQ_ADC'', Sym ''adc_irq'', Sym ''IRQF_SAMPLE_RANDOM'', Str ''adc'', Num NULL];
     (if r2 \<noteq> 0 then do { printk env ''request_irq error''; ret (- EAGAIN) } else do {
     wr (adcdly p) 0xffff;
     callv env ''init_timer'' [Sym ''&ts_timer''];
     callv env ''add_timer'' [Sym ''&ts_timer''];
     enter_wait_pen_down_mode;
     ret 0 }) }) }) }) }) }"

definition s3c_ts_exit :: "kenv \<Rightarrow> (s3c_ts, unit) state" where
  "s3c_ts_exit env = do {
     callv env ''free_irq'' [Sym ''IRQ_TC'', Num NULL];
     callv env ''free_irq'' [Sym ''IRQ_ADC'', Num NULL];
     p \<leftarrow> gets s3c_ts_regs;
     callv env ''iounmap'' [Num p];
     dev \<leftarrow> gets s3c_ts_input_dev;
     callv env ''input_unregister_device'' [Num dev];
     callv env ''input_free_device'' [Num dev];
     callv env ''del_timer'' [Sym ''&ts_timer''] }"

datatype ts_op = Ts_pen | Ts_adc | Ts_timer

fun ts_event :: "kenv \<Rightarrow> ts_op \<Rightarrow> (s3c_ts, u32) state" where
  "ts_event env Ts_pen = do { _ \<leftarrow> pen_down_up_irq env; ret 0 }"
| "ts_event env Ts_adc = do { _ \<leftarrow> adc_irq env; ret 0 }"
| "ts_event env Ts_timer = do { s3c_ts_timer_function env; ret 0 }"

subsection \<open>The abstract machine\<close>

text \<open>
  Inputs: the pen interrupt and the timer see whether the pen is up; the end of a conversion
  sees that and two raw coordinates. The state is the list of samples collected so far.
\<close>

datatype ts_input = Pen bool | Timer bool | Sample bool u32 u32

datatype ts_report = Release | Touch nat nat

definition mean4 :: "nat list \<Rightarrow> nat" where
  "mean4 vs = sum_list vs div 4"

fun ts_spec :: "ts_input \<Rightarrow> (nat \<times> nat) list \<Rightarrow> (nat \<times> nat) list \<times> ts_report list" where
  "ts_spec (Pen up) acc = (acc, if up then [Release] else [])"
| "ts_spec (Timer up) acc = (acc, if up then [Release] else [])"
| "ts_spec (Sample up dx dy) acc =
     (if up then ([], [Release])
      else let acc' = acc @ [(unat (dx AND 0x3ff), unat (dy AND 0x3ff))]
           in if length acc' = 4 then ([], [Touch (mean4 (map fst acc')) (mean4 (map snd acc'))])
              else (acc', []))"

text \<open>What the input subsystem is told for a report, and what it is told in a piece of trace.\<close>

fun report_reqs :: "u32 \<Rightarrow> ts_report \<Rightarrow> kreq list" where
  "report_reqs dev Release =
     [QCall ''input_report_abs'' [Num dev, Sym ''ABS_PRESSURE'', Num 0],
      QCall ''input_report_key'' [Num dev, Sym ''BTN_TOUCH'', Num 0],
      QCall ''input_sync'' [Num dev]]"
| "report_reqs dev (Touch x y) =
     [QCall ''input_report_abs'' [Num dev, Sym ''ABS_X'', Num (of_nat x)],
      QCall ''input_report_abs'' [Num dev, Sym ''ABS_Y'', Num (of_nat y)],
      QCall ''input_report_abs'' [Num dev, Sym ''ABS_PRESSURE'', Num 1],
      QCall ''input_report_key'' [Num dev, Sym ''BTN_TOUCH'', Num 1],
      QCall ''input_sync'' [Num dev]]"

abbreviation input_reqs :: "kevent list \<Rightarrow> kreq list" where
  "input_reqs \<equiv> reqs_of [''input_report_abs'', ''input_report_key'', ''input_sync'']"

text \<open>What the hardware shows a handler that starts in \<open>s\<close>.\<close>

fun ts_sees :: "kenv \<Rightarrow> s3c_ts \<Rightarrow> ts_op \<Rightarrow> ts_input" where
  "ts_sees env s Ts_pen = Pen (bit (env (length (trace s)) (QRd (adcdat0 (s3c_ts_regs s)))) 15)"
| "ts_sees env s Ts_timer = Timer (bit (env (length (trace s)) (QRd (adcdat0 (s3c_ts_regs s)))) 15)"
| "ts_sees env s Ts_adc =
     Sample (bit (env (length (trace s) + 2) (QRd (adcdat0 (s3c_ts_regs s)))) 15)
       (env (length (trace s)) (QRd (adcdat0 (s3c_ts_regs s))))
       (env (length (trace s) + 1) (QRd (adcdat1 (s3c_ts_regs s))))"

definition ts_inv :: "s3c_ts \<Rightarrow> bool" where
  "ts_inv s \<longleftrightarrow> adc_cnt s < 4 \<and> length (adc_x s) = 4 \<and> length (adc_y s) = 4 \<and>
     (\<forall>v \<in> set (adc_x s) \<union> set (adc_y s). v \<le> 0x3ff)"

definition ts_abs :: "s3c_ts \<Rightarrow> (nat \<times> nat) list" where
  "ts_abs s = zip (map unat (take (adc_cnt s) (adc_x s))) (map unat (take (adc_cnt s) (adc_y s)))"

lemma and_bit15: "(v AND 0x8000 = (0 :: u32)) = (\<not> bit v 15)"
proof -
  have "push_bit 15 1 = (0x8000 :: u32)" by simp
  with and_push_bit_one [of v 15] show ?thesis by metis
qed

lemma and_3ff_le: "v AND 0x3ff \<le> (0x3ff :: u32)"
  by (rule word_and_le1)

lemma mean4_word:
  assumes "a \<le> (0x3ff :: u32)" "b \<le> 0x3ff" "c \<le> 0x3ff" "d \<le> 0x3ff"
  shows "(a + b + c + d) div 4 = of_nat (mean4 [unat a, unat b, unat c, unat d])"
    and "mean4 [unat a, unat b, unat c, unat d] \<le> 0x3ff"
proof -
  have le: "unat a \<le> 1023" "unat b \<le> 1023" "unat c \<le> 1023" "unat d \<le> 1023"
    using assms by (simp_all add: word_le_nat_alt)
  have "unat (a + b + c + d) = unat a + unat b + unat c + unat d"
    using le by (simp add: unat_word_ariths)
  then have "unat ((a + b + c + d) div 4) = mean4 [unat a, unat b, unat c, unat d]"
    by (simp only: unat_div mean4_def) simp
  then show "(a + b + c + d) div 4 = of_nat (mean4 [unat a, unat b, unat c, unat d])"
    by (metis of_nat_unat ucast_id)
  show "mean4 [unat a, unat b, unat c, unat d] \<le> 0x3ff"
    using le by (simp add: mean4_def)
qed

subsection \<open>Refinement\<close>

lemmas ts_defs = pen_down_up_irq_def s3c_ts_timer_function_def adc_irq_def
  enter_wait_pen_down_mode_def enter_wait_pen_up_mode_def enter_masure_xy_mode_def start_adc_mode_def

definition ts_simulates :: "s3c_ts \<Rightarrow> s3c_ts \<Rightarrow> (nat \<times> nat) list \<times> ts_report list \<Rightarrow> bool" where
  "ts_simulates s t spec \<longleftrightarrow> ts_inv t \<and> ts_abs t = fst spec \<and>
     s3c_ts_input_dev t = s3c_ts_input_dev s \<and>
     input_reqs (trace t) = input_reqs (trace s) @
       concat (map (report_reqs (s3c_ts_input_dev s)) (snd spec))"

lemmas sim_defs = ts_simulates_def ts_inv_def ts_abs_def

lemma ts_pen_refines:
  "ts_inv s \<Longrightarrow> ts_simulates s (exec (pen_down_up_irq env) s) (ts_spec (ts_sees env s Ts_pen) (ts_abs s))"
  by (simp add: ts_defs sim_defs and_bit15 Let_def)

lemma ts_timer_refines:
  "ts_inv s \<Longrightarrow> ts_simulates s (exec (s3c_ts_timer_function env) s) (ts_spec (ts_sees env s Ts_timer) (ts_abs s))"
  by (simp add: ts_defs sim_defs and_bit15 Let_def)

text \<open>The four slots of an array of samples, and their zip up to the counter.\<close>

lemma four_slots:
  assumes "length xs = 4"
  obtains a b c d where "xs = [a, b, c, d]"
  using assms by (auto simp: numeral_eq_Suc length_Suc_conv)

lemma ts_adc_refines:
  assumes "ts_inv s"
  shows "ts_simulates s (exec (adc_irq env) s) (ts_spec (ts_sees env s Ts_adc) (ts_abs s))"
proof -
  from assms have len: "length (adc_x s) = 4" "length (adc_y s) = 4" and cnt: "adc_cnt s < 4"
    by (auto simp: ts_inv_def)
  obtain a b c d where x: "adc_x s = [a, b, c, d]" using len(1) by (rule four_slots)
  obtain e f g h where y: "adc_y s = [e, f, g, h]" using len(2) by (rule four_slots)
  have le: "a \<le> 0x3ff" "b \<le> 0x3ff" "c \<le> 0x3ff" "d \<le> 0x3ff"
    "e \<le> 0x3ff" "f \<le> 0x3ff" "g \<le> 0x3ff" "h \<le> 0x3ff"
    using assms by (auto simp: ts_inv_def x y)
  consider "adc_cnt s = 0" | "adc_cnt s = 1" | "adc_cnt s = 2" | "adc_cnt s = 3" using cnt by linarith
  then show ?thesis
    by cases
      (simp_all add: ts_defs sim_defs and_bit15 Let_def x y le and_3ff_le mean4_word eval_nat_numeral)
qed

definition ts_conc :: "kenv \<Rightarrow> ts_op \<Rightarrow> s3c_ts \<Rightarrow> s3c_ts" where
  "ts_conc env e s = exec (ts_event env e) s"

lemma ts_event_refines:
  "ts_inv s \<Longrightarrow> ts_simulates s (ts_conc env e s) (ts_spec (ts_sees env s e) (ts_abs s))"
  using ts_pen_refines ts_timer_refines ts_adc_refines
  by (cases e) (simp_all add: ts_conc_def exec_bind del: run_state_bind ts_sees.simps ts_spec.simps)

interpretation ts_sim: simulation "ts_conc env" "\<lambda>s. ts_inv s \<and> s3c_ts_input_dev s = dev" ts_abs
  "ts_sees env" ts_spec "\<lambda>s. input_reqs (trace s)" "report_reqs dev" for env dev
  by unfold_locales (use ts_event_refines in \<open>auto simp: ts_simulates_def\<close>)

text \<open>
  C3. For every sequence of pen interrupts, conversions and timer expiries, what the driver
  tells the input subsystem is what the abstract machine reports on the inputs it saw: a release
  whenever a handler finds the pen up, and one touch for every four conversions, with the means
  of the four x and of the four y values; the arrays are never indexed out of bounds.
\<close>

theorem ts_run_refines:
  assumes "ts_inv s"
  shows "let t = fold (ts_conc env) es s;
      spec = spec_run ts_spec (seen_inputs (ts_conc env) (ts_sees env) es s) (ts_abs s) in
    ts_inv t \<and> ts_abs t = fst spec \<and>
    input_reqs (trace t) = input_reqs (trace s) @ concat (map (report_reqs (s3c_ts_input_dev s)) (snd spec))"
  using assms ts_sim.run_inv [of s "s3c_ts_input_dev s" env es] ts_sim.run_abs [of s "s3c_ts_input_dev s" env es]
    ts_sim.run_outs [of s "s3c_ts_input_dev s" env es]
  by (simp add: Let_def)

definition ts_start :: s3c_ts where
  "ts_start = \<lparr>trace = [], s3c_ts_input_dev = 1, s3c_ts_regs = 0x1000, adc_cnt = 0,
     adc_x = [0, 0, 0, 0], adc_y = [0, 0, 0, 0]\<rparr>"

lemma ts_start_inv: "ts_inv ts_start"
  by (simp add: ts_start_def ts_inv_def)

theorem ts_run_refines_witness:
  "let t = fold (ts_conc (\<lambda>n q. 8)) [Ts_pen, Ts_adc, Ts_adc, Ts_adc, Ts_adc] ts_start in
   ts_inv t \<and> input_reqs (trace t) = report_reqs 1 (Touch 8 8)"
proof -
  have "snd (spec_run ts_spec (seen_inputs (ts_conc (\<lambda>n q. 8)) (ts_sees (\<lambda>n q. 8))
      [Ts_pen, Ts_adc, Ts_adc, Ts_adc, Ts_adc] ts_start) (ts_abs ts_start)) = [Touch 8 8]"
    by (simp add: ts_abs_def ts_start_def mean4_def)
  with ts_run_refines [OF ts_start_inv, of "\<lambda>n q. 8" "[Ts_pen, Ts_adc, Ts_adc, Ts_adc, Ts_adc]"]
  show ?thesis by (simp add: Let_def ts_start_def)
qed

subsection \<open>Range of the coordinates\<close>

definition small_pairs :: "(nat \<times> nat) list \<Rightarrow> bool" where
  "small_pairs acc \<longleftrightarrow> (\<forall>(x, y) \<in> set acc. x \<le> 0x3ff \<and> y \<le> 0x3ff)"

fun small_report :: "ts_report \<Rightarrow> bool" where
  "small_report Release = True"
| "small_report (Touch x y) = (x \<le> 0x3ff \<and> y \<le> 0x3ff)"

lemma unat_and_3ff: "unat (v AND 0x3ff :: u32) \<le> 0x3ff"
  using and_3ff_le [of v] by (simp add: word_le_nat_alt)

lemma mean4_le:
  assumes "length vs = 4" "\<forall>v \<in> set vs. v \<le> b"
  shows "mean4 vs \<le> b"
proof -
  obtain p q r s where "vs = [p, q, r, s]" using assms(1) by (rule four_slots)
  moreover from this have "p + (q + (r + s)) \<le> 4 * b" using assms(2) by simp
  ultimately show ?thesis by (simp add: mean4_def)
qed

lemma ts_spec_small:
  assumes "small_pairs acc"
  shows "small_pairs (fst (ts_spec i acc)) \<and> (\<forall>r \<in> set (snd (ts_spec i acc)). small_report r)"
proof (cases i)
  case (Sample up dx dy)
  let ?acc = "acc @ [(unat (dx AND 0x3ff), unat (dy AND 0x3ff))]"
  have small: "small_pairs ?acc" using assms unat_and_3ff by (auto simp: small_pairs_def)
  then have "length ?acc = 4 \<Longrightarrow> mean4 (map fst ?acc) \<le> 0x3ff \<and> mean4 (map snd ?acc) \<le> 0x3ff"
    by (intro conjI mean4_le) (auto simp: small_pairs_def)
  with small Sample show ?thesis by (auto simp: Let_def small_pairs_def)
qed (use assms in auto)

lemma ts_run_small:
  assumes "ts_inv s"
  shows "\<forall>r \<in> set (snd (spec_run ts_spec is (ts_abs s))). small_report r"
proof -
  have "small_pairs (ts_abs s)"
    using assms by (fastforce simp: ts_inv_def ts_abs_def small_pairs_def word_le_nat_alt
        dest: set_zip_leftD set_zip_rightD in_set_takeD)
  then show ?thesis
    using spec_run_inv [where spec = ts_spec and I = small_pairs and Q = small_report, OF ts_spec_small] by blast
qed

text \<open>
  Every coordinate the driver reports lies in the range 0 to 0x3ff it announced to the input
  subsystem, and every pressure is 0 or 1, whatever the ADC returns.
\<close>

theorem ts_reports_in_range:
  assumes "ts_inv s"
  shows "\<exists>reqs. input_reqs (trace (fold (ts_conc env) es s)) = input_reqs (trace s) @ reqs \<and>
    (\<forall>v. QCall ''input_report_abs'' [Num (s3c_ts_input_dev s), Sym ''ABS_X'', Num v] \<in> set reqs \<longrightarrow> v \<le> 0x3ff) \<and>
    (\<forall>v. QCall ''input_report_abs'' [Num (s3c_ts_input_dev s), Sym ''ABS_Y'', Num v] \<in> set reqs \<longrightarrow> v \<le> 0x3ff) \<and>
    (\<forall>v. QCall ''input_report_abs'' [Num (s3c_ts_input_dev s), Sym ''ABS_PRESSURE'', Num v] \<in> set reqs \<longrightarrow> v \<le> 1)"
proof -
  let ?is = "seen_inputs (ts_conc env) (ts_sees env) es s"
  let ?rs = "snd (spec_run ts_spec ?is (ts_abs s))"
  have rs: "\<forall>r \<in> set ?rs. small_report r" using assms by (rule ts_run_small)
  have le: "of_nat n \<le> (0x3ff :: u32)" if "n \<le> 0x3ff" for n
    using that by (simp add: word_le_nat_alt unat_of_nat)
  have "v \<le> 0x3ff" if "QCall ''input_report_abs'' [Num d, Sym c, Num v] \<in> set (report_reqs d r)"
    "small_report r" "c = ''ABS_X'' \<or> c = ''ABS_Y''" for d c v r
    using that by (cases r) (auto simp: le)
  moreover have "v \<le> 1" if "QCall ''input_report_abs'' [Num d, Sym ''ABS_PRESSURE'', Num v] \<in> set (report_reqs d r)"
    for d v r
    using that by (cases r) auto
  ultimately have "(\<forall>v. QCall ''input_report_abs'' [Num (s3c_ts_input_dev s), Sym ''ABS_X'', Num v]
        \<in> set (concat (map (report_reqs (s3c_ts_input_dev s)) ?rs)) \<longrightarrow> v \<le> 0x3ff) \<and>
    (\<forall>v. QCall ''input_report_abs'' [Num (s3c_ts_input_dev s), Sym ''ABS_Y'', Num v]
        \<in> set (concat (map (report_reqs (s3c_ts_input_dev s)) ?rs)) \<longrightarrow> v \<le> 0x3ff) \<and>
    (\<forall>v. QCall ''input_report_abs'' [Num (s3c_ts_input_dev s), Sym ''ABS_PRESSURE'', Num v]
        \<in> set (concat (map (report_reqs (s3c_ts_input_dev s)) ?rs)) \<longrightarrow> v \<le> 1)"
    using rs by fastforce
  moreover have "input_reqs (trace (fold (ts_conc env) es s)) =
      input_reqs (trace s) @ concat (map (report_reqs (s3c_ts_input_dev s)) ?rs)"
    using assms ts_sim.run_outs [of s "s3c_ts_input_dev s" env es] by simp
  ultimately show ?thesis by blast
qed

theorem ts_reports_in_range_witness:
  "\<exists>reqs. input_reqs (trace (fold (ts_conc (\<lambda>n q. 8)) [Ts_adc] ts_start)) = [] @ reqs \<and>
     (\<forall>v. QCall ''input_report_abs'' [Num 1, Sym ''ABS_X'', Num v] \<in> set reqs \<longrightarrow> v \<le> 0x3ff)"
  using ts_reports_in_range [OF ts_start_inv, of "\<lambda>n q. 8" "[Ts_adc]"] by (auto simp: ts_start_def)

subsection \<open>Samples of two touches in one report\<close>

lemma ts_start_simps: "trace ts_start = []" "s3c_ts_regs ts_start = 0x1000" "adc_cnt ts_start = 0"
  by (simp_all add: ts_start_def)

lemma ts_conc_pen:
  "length (trace (ts_conc env Ts_pen s)) = length (trace s) +
     (if bit (env (length (trace s)) (QRd (adcdat0 (s3c_ts_regs s)))) 15 then 5 else 4)"
  "s3c_ts_regs (ts_conc env Ts_pen s) = s3c_ts_regs s" "adc_cnt (ts_conc env Ts_pen s) = adc_cnt s"
  by (simp_all add: ts_conc_def ts_defs and_bit15 Let_def)

lemma ts_conc_timer:
  "length (trace (ts_conc env Ts_timer s)) = length (trace s) +
     (if bit (env (length (trace s)) (QRd (adcdat0 (s3c_ts_regs s)))) 15 then 5 else 4)"
  "s3c_ts_regs (ts_conc env Ts_timer s) = s3c_ts_regs s" "adc_cnt (ts_conc env Ts_timer s) = adc_cnt s"
  by (simp_all add: ts_conc_def ts_defs and_bit15 Let_def)

lemma ts_conc_adc:
  assumes "adc_cnt s \<noteq> 3" "\<not> bit (env (length (trace s) + 2) (QRd (adcdat0 (s3c_ts_regs s)))) 15"
  shows "length (trace (ts_conc env Ts_adc s)) = length (trace s) + 6"
    "s3c_ts_regs (ts_conc env Ts_adc s) = s3c_ts_regs s" "adc_cnt (ts_conc env Ts_adc s) = adc_cnt s + 1"
  using assms by (simp_all add: ts_conc_def ts_defs and_bit15 Let_def)

text \<open>
  The counter of collected samples is reset only by the conversion interrupt. When the timer
  finds the pen up in the middle of a measurement, the samples stay, and the next touch is
  averaged with them: two samples at 100 from one touch and two at 900 from the next one give a
  report at 500, where the pen never was.
\<close>

theorem ts_mixes_touches:
  "\<exists>env. seen_inputs (ts_conc env) (ts_sees env) [Ts_pen, Ts_adc, Ts_adc, Ts_timer, Ts_pen, Ts_adc, Ts_adc] ts_start =
      [Pen False, Sample False 100 100, Sample False 100 100, Timer True,
       Pen False, Sample False 900 900, Sample False 900 900] \<and>
    input_reqs (trace (fold (ts_conc env) [Ts_pen, Ts_adc, Ts_adc, Ts_timer, Ts_pen, Ts_adc, Ts_adc] ts_start)) =
      report_reqs 1 Release @ report_reqs 1 (Touch 500 500)"
proof (intro exI conjI)
  let ?env = "\<lambda>(n :: nat) (q :: kreq). if n = 16 then 0x8000 else if n < 16 then 100 else (900 :: u32)"
  let ?es = "[Ts_pen, Ts_adc, Ts_adc, Ts_timer, Ts_pen, Ts_adc, Ts_adc]"
  show seen: "seen_inputs (ts_conc ?env) (ts_sees ?env) ?es ts_start =
      [Pen False, Sample False 100 100, Sample False 100 100, Timer True,
       Pen False, Sample False 900 900, Sample False 900 900]"
    by (simp add: ts_conc_pen ts_conc_timer ts_conc_adc ts_start_simps)
  have "input_reqs (trace (fold (ts_conc ?env) ?es ts_start)) = input_reqs (trace ts_start) @
      concat (map (report_reqs 1) (snd (spec_run ts_spec (seen_inputs (ts_conc ?env) (ts_sees ?env) ?es ts_start) (ts_abs ts_start))))"
    using ts_start_inv by (intro ts_sim.run_outs) (simp add: ts_start_def)
  then show "input_reqs (trace (fold (ts_conc ?env) ?es ts_start)) =
      report_reqs 1 Release @ report_reqs 1 (Touch 500 500)"
    unfolding seen by (simp add: ts_abs_def ts_start_def mean4_def Let_def)
qed

subsection \<open>Something is always armed\<close>

text \<open>
  What a handler left in the registers: the detector waits for the pen to go down, or a
  conversion was started in measuring mode, or the detector waits for the pen to go up and the
  timer runs.
\<close>

definition ts_armed :: "bool \<Rightarrow> u32 \<Rightarrow> kevent list \<Rightarrow> bool" where
  "ts_armed up p es \<longleftrightarrow>
     (if up then last_wr (adctsc p) es = Some 0xd3
      else last_wr (adctsc p) es = Some 4 \<and> (\<exists>v. last_wr (adccon p) es = Some v \<and> bit v 0) \<or>
           last_wr (adctsc p) es = Some 0x1d3 \<and> calls ''mod_timer'' es)"

fun pen_up :: "ts_input \<Rightarrow> bool" where
  "pen_up (Pen up) = up"
| "pen_up (Timer up) = up"
| "pen_up (Sample up dx dy) = up"

text \<open>
  C20. No handler leaves the screen dead: when it saw the pen up it waits for the next touch; when
  it saw the pen down it has either started the next conversion or armed both the pen-up
  detector and the timer, so another interrupt follows in each case.
\<close>

theorem ts_always_armed:
  "ts_armed (pen_up (ts_sees env s e)) (s3c_ts_regs s)
     (drop (length (trace s)) (trace (ts_conc env e s)))"
  by (cases e) (simp_all add: ts_conc_def ts_defs ts_armed_def and_bit15 Let_def bit_simps)

subsection \<open>Resources\<close>

text \<open>What init holds when every request was granted.\<close>

definition ts_held :: "u32 \<Rightarrow> u32 \<Rightarrow> u32 \<Rightarrow> u32 \<Rightarrow> kres list" where
  "ts_held dev p clk tm =
     [(''add_timer'', [Sym ''&ts_timer''], tm),
      (''request_irq'', [Sym ''IRQ_ADC'', Sym ''adc_irq'', Sym ''IRQF_SAMPLE_RANDOM'', Str ''adc'', Num NULL], 0),
      (''request_irq'', [Sym ''IRQ_TC'', Sym ''pen_down_up_irq'', Sym ''IRQF_SAMPLE_RANDOM'', Str ''ts_pen'', Num NULL], 0),
      (''ioremap'', [Num 0x58000000, Num 24], p),
      (''clk_enable'', [Num clk], 0), (''clk_get'', [Num NULL, Str ''adc''], clk),
      (''input_register_device'', [Num dev], 0), (''input_allocate_device'', [], dev)]"

text \<open>A mapping of 24 bytes at \<open>p\<close> does not wrap around.\<close>

definition ts_fits :: "u32 \<Rightarrow> bool" where
  "ts_fits p \<longleftrightarrow> unat p + 24 \<le> 2 ^ 32"

text \<open>A kernel that grants everything init asks for.\<close>

definition ts_granted :: "kenv \<Rightarrow> u32 \<Rightarrow> u32 \<Rightarrow> u32 \<Rightarrow> bool" where
  "ts_granted env dev clk p \<longleftrightarrow>
     dev \<noteq> NULL \<and> clk \<noteq> NULL \<and> p \<noteq> NULL \<and> ts_fits p \<and>
     always env ''input_allocate_device'' dev \<and> always env ''input_register_device'' 0 \<and>
     always env ''clk_get'' clk \<and> always env ''IS_ERR'' 0 \<and> always env ''clk_enable'' 0 \<and>
     always env ''ioremap'' p \<and> always env ''request_irq'' 0"

lemma ts_maps:
  assumes "ts_fits p"
  shows "maps (''ioremap'', [Num a, Num 24], p) p"
    "maps (''ioremap'', [Num a, Num 24], p) (p + 4)"
    "maps (''ioremap'', [Num a, Num 24], p) (p + 8)"
    "maps (''ioremap'', [Num a, Num 24], p) (p + 12)"
    "maps (''ioremap'', [Num a, Num 24], p) (p + 16)"
proof -
  have "unat (p + 4) = unat p + 4" "unat (p + 8) = unat p + 8" "unat (p + 12) = unat p + 12"
    "unat (p + 16) = unat p + 16"
    using assms by (simp_all add: ts_fits_def unat_word_ariths)
  then show "maps (''ioremap'', [Num a, Num 24], p) p"
    "maps (''ioremap'', [Num a, Num 24], p) (p + 4)"
    "maps (''ioremap'', [Num a, Num 24], p) (p + 8)"
    "maps (''ioremap'', [Num a, Num 24], p) (p + 12)"
    "maps (''ioremap'', [Num a, Num 24], p) (p + 16)"
    by (simp_all add: maps_def)
qed

lemma ts_init_granted:
  assumes "ts_granted env dev clk p"
  shows "result (s3c_ts_init env) s = 0"
    and "s3c_ts_input_dev (exec (s3c_ts_init env) s) = dev" "s3c_ts_regs (exec (s3c_ts_init env) s) = p"
    and "\<exists>tm. ghost (trace (exec (s3c_ts_init env) s)) = (ts_held dev p clk tm @ held s, viol s)"
proof -
  note g = assms [unfolded ts_granted_def always_def]
  show "result (s3c_ts_init env) s = 0"
    "s3c_ts_input_dev (exec (s3c_ts_init env) s) = dev" "s3c_ts_regs (exec (s3c_ts_init env) s) = p"
    using g by (simp_all add: s3c_ts_init_def enter_wait_pen_down_mode_def)
  have "ts_fits p" using g by simp
  from ts_maps [OF this] show "\<exists>tm. ghost (trace (exec (s3c_ts_init env) s)) = (ts_held dev p clk tm @ held s, viol s)"
    using g
    by (cases "ghost (trace s)")
      (simp add: s3c_ts_init_def enter_wait_pen_down_mode_def ts_held_def held_def viol_def allocates_def ghost_simps)
qed

definition ts_loaded :: "kres list \<Rightarrow> u32 \<Rightarrow> s3c_ts \<Rightarrow> bool" where
  "ts_loaded R clk s \<longleftrightarrow> fresh_dev (s3c_ts_input_dev s) R \<and> ts_fits (s3c_ts_regs s) \<and>
     (\<exists>tm. held s = ts_held (s3c_ts_input_dev s) (s3c_ts_regs s) clk tm @ R)"

lemma ts_init_loaded:
  assumes "ts_granted env dev clk p" "fresh_dev dev (held s)"
  shows "ts_loaded (held s) clk (exec (s3c_ts_init env) s)" "viol (exec (s3c_ts_init env) s) = viol s"
proof -
  have "ts_fits p" using assms(1) by (simp add: ts_granted_def)
  then show "ts_loaded (held s) clk (exec (s3c_ts_init env) s)"
    using ts_init_granted(2,3) [OF assms(1), of s] ts_init_granted(4) [OF assms(1), of s] assms(2)
    by (auto simp: ts_loaded_def held_def)
  show "viol (exec (s3c_ts_init env) s) = viol s"
    using ts_init_granted(4) [OF assms(1), of s] by (auto simp: viol_def)
qed

lemma ts_event_ghost:
  assumes "ts_loaded R clk s"
  shows "ghost (trace (ts_conc env e s)) = ghost (trace s)"
    "s3c_ts_regs (ts_conc env e s) = s3c_ts_regs s" "s3c_ts_input_dev (ts_conc env e s) = s3c_ts_input_dev s"
proof -
  obtain tm where tm: "held s = ts_held (s3c_ts_input_dev s) (s3c_ts_regs s) clk tm @ R"
    and fits: "ts_fits (s3c_ts_regs s)"
    using assms by (auto simp: ts_loaded_def)
  show "ghost (trace (ts_conc env e s)) = ghost (trace s)"
    using tm ts_maps [OF fits]
    by (cases "ghost (trace s)"; cases e)
      (simp_all add: held_def ts_conc_def ts_defs Let_def ts_held_def ghost_simps)
  show "s3c_ts_regs (ts_conc env e s) = s3c_ts_regs s" "s3c_ts_input_dev (ts_conc env e s) = s3c_ts_input_dev s"
    by (cases e; simp add: ts_conc_def ts_defs Let_def)+
qed

lemma ts_events_loaded:
  "ts_loaded R clk s \<Longrightarrow>
    ts_loaded R clk (exec (each (\<lambda>x. do { _ \<leftarrow> ts_event env x; skip }) xs) s) \<and>
    viol (exec (each (\<lambda>x. do { _ \<leftarrow> ts_event env x; skip }) xs) s) = viol s \<and>
    s3c_ts_input_dev (exec (each (\<lambda>x. do { _ \<leftarrow> ts_event env x; skip }) xs) s) = s3c_ts_input_dev s"
proof (induction xs arbitrary: s)
  case (Cons x xs)
  let ?t = "ts_conc env x s"
  have g: "held ?t = held s" "viol ?t = viol s" "s3c_ts_regs ?t = s3c_ts_regs s"
    "s3c_ts_input_dev ?t = s3c_ts_input_dev s"
    using ts_event_ghost [OF Cons.prems, of env x] by (simp_all add: held_def viol_def)
  then have "ts_loaded R clk ?t" using Cons.prems by (simp add: ts_loaded_def)
  from Cons.IH [OF this] show ?case by (simp add: exec_bind g ts_conc_def [symmetric] del: run_state_bind)
qed simp

lemma ts_exit_outcome:
  assumes "ts_loaded R clk s"
  shows "held (exec (s3c_ts_exit env) s) =
      [(''clk_enable'', [Num clk], 0), (''clk_get'', [Num NULL, Str ''adc''], clk)] @ R"
    and "\<exists>r. viol (exec (s3c_ts_exit env) s) =
      viol s @ [Ev (QCall ''input_free_device'' [Num (s3c_ts_input_dev s)]) r]"
proof -
  let ?dev = "s3c_ts_input_dev s"
  obtain tm where tm: "held s = ts_held ?dev (s3c_ts_regs s) clk tm @ R" and fresh: "fresh_dev ?dev R"
    using assms by (auto simp: ts_loaded_def)
  obtain v where g: "ghost (trace s) = (ts_held ?dev (s3c_ts_regs s) clk tm @ R, v)"
    using tm by (cases "ghost (trace s)") (simp add: held_def)
  have "\<exists>r. ghost (trace (exec (s3c_ts_exit env) s)) =
      ([(''clk_enable'', [Num clk], 0), (''clk_get'', [Num NULL, Str ''adc''], clk)] @ R,
       v @ [Ev (QCall ''input_free_device'' [Num ?dev]) r])"
    using g fresh by (simp add: fresh_dev_def s3c_ts_exit_def ts_held_def ghost_simps eq_commute)
  then show "held (exec (s3c_ts_exit env) s) =
      [(''clk_enable'', [Num clk], 0), (''clk_get'', [Num NULL, Str ''adc''], clk)] @ R"
    "\<exists>r. viol (exec (s3c_ts_exit env) s) = viol s @ [Ev (QCall ''input_free_device'' [Num ?dev]) r]"
    using g by (auto simp: held_def viol_def)
qed

text \<open>
  A complete life of the touch screen driver, load with everything granted, any sequence of
  its three handlers, unload, touches no register outside its mapping, but it leaves the ADC clock
  enabled and referenced for ever and frees the input device a second time after unregistering it.
\<close>

theorem ts_session_leaks_clock:
  assumes "ts_granted env dev clk p" and "fresh_dev dev (held s)"
  shows "held (exec (session s3c_ts_init ts_event s3c_ts_exit env xs) s) =
      [(''clk_enable'', [Num clk], 0), (''clk_get'', [Num NULL, Str ''adc''], clk)] @ held s \<and>
    (\<exists>r. viol (exec (session s3c_ts_init ts_event s3c_ts_exit env xs) s) =
      viol s @ [Ev (QCall ''input_free_device'' [Num dev]) r])"
proof -
  let ?s1 = "exec (s3c_ts_init env) s"
  let ?s2 = "exec (each (\<lambda>x. do { _ \<leftarrow> ts_event env x; skip }) xs) ?s1"
  have l2: "ts_loaded (held s) clk ?s2" "viol ?s2 = viol s" "s3c_ts_input_dev ?s2 = dev"
    using ts_events_loaded [OF ts_init_loaded(1) [OF assms], of env xs] ts_init_loaded(2) [OF assms]
      ts_init_granted(2) [OF assms(1), of s] by simp_all
  show ?thesis
    using ts_exit_outcome [OF l2(1), of env] l2(2,3) by (simp add: session_def exec_bind del: run_state_bind)
qed

theorem ts_session_leaks_clock_witness:
  "let env = (\<lambda>n q. case q of QCall f xs \<Rightarrow> if f = ''IS_ERR'' \<or> f = ''request_irq'' \<or> f = ''input_register_device'' \<or>
       f = ''clk_enable'' then 0 else 0x1000 | _ \<Rightarrow> 0) in
   ts_granted env 0x1000 0x1000 0x1000 \<and>
   held (exec (session s3c_ts_init ts_event s3c_ts_exit env [Ts_pen, Ts_adc, Ts_timer]) ts_start) =
     [(''clk_enable'', [Num 0x1000], 0), (''clk_get'', [Num NULL, Str ''adc''], 0x1000)]"
proof -
  let ?env = "\<lambda>(n :: nat) q. case q of QCall f xs \<Rightarrow> if f = ''IS_ERR'' \<or> f = ''request_irq'' \<or>
     f = ''input_register_device'' \<or> f = ''clk_enable'' then 0 else 0x1000 | _ \<Rightarrow> (0 :: u32)"
  have g: "ts_granted ?env 0x1000 0x1000 0x1000" by (simp add: ts_granted_def always_def ts_fits_def)
  have h: "held ts_start = []" by (simp add: held_def ghost_def ts_start_def)
  then have "fresh_dev 0x1000 (held ts_start)" by (simp add: fresh_dev_def)
  from ts_session_leaks_clock [OF g this, of "[Ts_pen, Ts_adc, Ts_timer]"] g h
  show ?thesis by (simp add: Let_def)
qed

end
