(* ===== verification/TouchStages.thy ===== *)
theory TouchStages
  imports Touch
begin

section \<open>s3c_ts: the stages before the final driver\<close>

text \<open>
  \<^verbatim>\<open>11th_ts/1_2th\<close> only follows the pen, \<^verbatim>\<open>11th_ts/3th\<close> adds single conversions, \<^verbatim>\<open>11th_ts/4_7th\<close> averages four of
  them and uses the timer. The stages print what the final driver reports. The functions that write
  \<^verbatim>\<open>ADCTSC\<close> and \<^verbatim>\<open>ADCCON\<close> are those of the final driver, and so are the state and the exit function of the last
  stage.
\<close>

text \<open>
  The beginning of every init function, and the requests of interrupt lines; \<open>fin\<close> is what follows when
  all are granted.
\<close>

fun ts_stage_lines :: "kenv \<Rightarrow> (string \<times> string \<times> string) list \<Rightarrow> (s3c_ts, u32) state \<Rightarrow> (s3c_ts, u32) state" where
  "ts_stage_lines env [] fin = fin"
| "ts_stage_lines env ((irq, h, n) # ls) fin = do {
     r \<leftarrow> call env ''request_irq'' [Sym irq, Sym h, Sym ''IRQF_SAMPLE_RANDOM'', Str n, Num NULL];
     (if r \<noteq> 0 then do { printk env ''request_irq error''; ret (- EAGAIN) } else ts_stage_lines env ls fin) }"

definition ts_stage_init :: "kenv \<Rightarrow> (string \<times> string \<times> string) list \<Rightarrow> (s3c_ts, u32) state \<Rightarrow> (s3c_ts, u32) state" where
  "ts_stage_init env lines fin = do {
     dev \<leftarrow> call env ''input_allocate_device'' [];
     modify (\<lambda>s. s\<lparr>s3c_ts_input_dev := dev\<rparr>);
     (if dev = NULL then do { printk env ''Unable to allocate the input device !!''; ret (- ENOMEM) } else do {
     callv env ''input_register_device'' [Num dev];
     clk \<leftarrow> call env ''clk_get'' [Num NULL, Str ''adc''];
     e \<leftarrow> call env ''IS_ERR'' [Num clk];
     (if e \<noteq> 0 then call env ''PTR_ERR'' [Num clk] else do {
     callv env ''clk_enable'' [Num clk];
     p \<leftarrow> call env ''ioremap'' [Num 0x58000000, Num 24];
     modify (\<lambda>s. s\<lparr>s3c_ts_regs := p\<rparr>);
     (if p = NULL then do { printk env '' unable to remap memory''; ret (- EAGAIN) } else do {
     wr (adccon p) (push_bit 14 1 OR push_bit 6 49 OR push_bit 0 0);
     ts_stage_lines env lines fin }) }) }) }"

subsection \<open>1_2th: the pen only\<close>

definition ts12_pen_down_up_irq :: "kenv \<Rightarrow> (s3c_ts, u32) state" where
  "ts12_pen_down_up_irq env = do {
     p \<leftarrow> gets s3c_ts_regs;
     d \<leftarrow> rd env (adcdat0 p);
     (if d AND push_bit 15 1 \<noteq> 0
      then do { printk env ''pen up''; enter_wait_pen_down_mode }
      else do { printk env ''pen donw''; enter_wait_pen_up_mode });
     ret 0 }"

definition ts12_init :: "kenv \<Rightarrow> (s3c_ts, u32) state" where
  "ts12_init env = ts_stage_init env [(''IRQ_TC'', ''pen_down_up_irq'', ''ts_pen'')]
     (do { enter_wait_pen_down_mode; ret 0 })"

definition ts12_exit :: "kenv \<Rightarrow> (s3c_ts, unit) state" where
  "ts12_exit env = do {
     callv env ''free_irq'' [Sym ''IRQ_TC'', Num NULL];
     p \<leftarrow> gets s3c_ts_regs;
     callv env ''iounmap'' [Num p];
     dev \<leftarrow> gets s3c_ts_input_dev;
     callv env ''input_unregister_device'' [Num dev];
     callv env ''input_free_device'' [Num dev] }"

subsection \<open>3th: single conversions\<close>

definition ts3_pen_down_up_irq :: "kenv \<Rightarrow> (s3c_ts, string) state" where
  "ts3_pen_down_up_irq env = do {
     p \<leftarrow> gets s3c_ts_regs;
     d \<leftarrow> rd env (adcdat0 p);
     (if d AND push_bit 15 1 \<noteq> 0
      then do { printk env ''pen up''; enter_wait_pen_down_mode }
      else do { enter_masure_xy_mode; start_adc_mode env });
     ret ''IRQ_HANDLED'' }"

text \<open>
  The arguments of \<^verbatim>\<open>printk\<close> are evaluated in an order that C leaves open; here from left to right. The
  counter only numbers the output.
\<close>

definition ts3_adc_irq :: "kenv \<Rightarrow> (s3c_ts, string) state" where
  "ts3_adc_irq env = do {
     modify (\<lambda>s. s\<lparr>adc_cnt := adc_cnt s + 1\<rparr>);
     cnt \<leftarrow> gets adc_cnt;
     p \<leftarrow> gets s3c_ts_regs;
     x \<leftarrow> rd env (adcdat0 p);
     y \<leftarrow> rd env (adcdat1 p);
     callv env ''printk'' [Str ''cnt = %d,x = %lu, y = %lu'', Num (of_nat cnt), Num (x AND 0x3ff), Num (y AND 0x3ff)];
     enter_wait_pen_up_mode;
     ret ''IRQ_HANDLED'' }"

definition ts3_init :: "kenv \<Rightarrow> (s3c_ts, u32) state" where
  "ts3_init env = ts_stage_init env [(''IRQ_TC'', ''pen_down_up_irq'', ''ts_pen''), (''IRQ_ADC'', ''adc_irq'', ''adc'')]
     (do { enter_wait_pen_down_mode; ret 0 })"

definition ts3_exit :: "kenv \<Rightarrow> (s3c_ts, unit) state" where
  "ts3_exit env = do {
     callv env ''free_irq'' [Sym ''IRQ_TC'', Num NULL];
     callv env ''free_irq'' [Sym ''IRQ_ADC'', Num NULL];
     p \<leftarrow> gets s3c_ts_regs;
     callv env ''iounmap'' [Num p];
     dev \<leftarrow> gets s3c_ts_input_dev;
     callv env ''input_unregister_device'' [Num dev];
     callv env ''input_free_device'' [Num dev] }"

subsection \<open>4_7th: averages and the timer\<close>

definition ts47_timer_function :: "kenv \<Rightarrow> (s3c_ts, unit) state" where
  "ts47_timer_function env = do {
     p \<leftarrow> gets s3c_ts_regs;
     d \<leftarrow> rd env (adcdat0 p);
     (if d AND push_bit 15 1 \<noteq> 0
      then enter_wait_pen_down_mode
      else do { enter_masure_xy_mode; start_adc_mode env }) }"

definition ts47_adc_irq :: "kenv \<Rightarrow> (s3c_ts, string) state" where
  "ts47_adc_irq env = do {
     p \<leftarrow> gets s3c_ts_regs;
     dat0 \<leftarrow> rd env (adcdat0 p);
     dat1 \<leftarrow> rd env (adcdat1 p);
     up \<leftarrow> rd env (adcdat0 p);
     (if up AND push_bit 15 1 \<noteq> 0
      then enter_wait_pen_down_mode
      else do {
        modify (\<lambda>s. s\<lparr>adc_x := (adc_x s)[adc_cnt s := dat0 AND 0x3ff]\<rparr>);
        modify (\<lambda>s. s\<lparr>adc_y := (adc_y s)[adc_cnt s := dat1 AND 0x3ff]\<rparr>);
        modify (\<lambda>s. s\<lparr>adc_cnt := adc_cnt s + 1\<rparr>);
        cnt \<leftarrow> gets adc_cnt;
        (if cnt = 4
         then do {
           x \<leftarrow> gets adc_x;
           y \<leftarrow> gets adc_y;
           callv env ''printk'' [Str ''x = %lu, y = %lu'', Num ((x ! 0 + x ! 1 + x ! 2 + x ! 3) div 4),
             Num ((y ! 0 + y ! 1 + y ! 2 + y ! 3) div 4)];
           modify (\<lambda>s. s\<lparr>adc_cnt := 0\<rparr>);
           enter_wait_pen_up_mode;
           jiffies \<leftarrow> call env ''jiffies'' [];
           HZ \<leftarrow> call env ''HZ'' [];
           callv env ''mod_timer'' [Sym ''&ts_timer'', Num (jiffies + HZ div 100)] }
         else do { enter_masure_xy_mode; start_adc_mode env }) });
     ret ''IRQ_HANDLED'' }"

definition ts47_init :: "kenv \<Rightarrow> (s3c_ts, u32) state" where
  "ts47_init env = ts_stage_init env [(''IRQ_TC'', ''pen_down_up_irq'', ''ts_pen''), (''IRQ_ADC'', ''adc_irq'', ''adc'')]
     (do { p \<leftarrow> gets s3c_ts_regs;
           wr (adcdly p) 0xffff;
           callv env ''init_timer'' [Sym ''&ts_timer''];
           callv env ''add_timer'' [Sym ''&ts_timer''];
           enter_wait_pen_down_mode;
           ret 0 })"

definition ts47_pen_down_up_irq :: "kenv \<Rightarrow> (s3c_ts, string) state" where
  "ts47_pen_down_up_irq = ts3_pen_down_up_irq"

definition ts47_exit :: "kenv \<Rightarrow> (s3c_ts, unit) state" where
  "ts47_exit = s3c_ts_exit"

fun ts47_event :: "kenv \<Rightarrow> ts_op \<Rightarrow> (s3c_ts, u32) state" where
  "ts47_event env Ts_pen = do { _ \<leftarrow> ts47_pen_down_up_irq env; ret 0 }"
| "ts47_event env Ts_adc = do { _ \<leftarrow> ts47_adc_irq env; ret 0 }"
| "ts47_event env Ts_timer = do { ts47_timer_function env; ret 0 }"

subsection \<open>The abstract machine of the last stage\<close>

text \<open>
  The machine of the final driver without the reset: a conversion that finds the pen up keeps what was
  collected. The pen interrupt prints that the pen is up, the timer says nothing.
\<close>

fun ts47_spec :: "ts_input \<Rightarrow> (nat \<times> nat) list \<Rightarrow> (nat \<times> nat) list \<times> ts_report list" where
  "ts47_spec (Pen up) acc = (acc, if up then [Release] else [])"
| "ts47_spec (Timer up) acc = (acc, [])"
| "ts47_spec (Sample up dx dy) acc =
     (if up then (acc, [])
      else let acc' = acc @ [(unat (dx AND 0x3ff), unat (dy AND 0x3ff))]
           in if length acc' = 4 then ([], [Touch (mean4 (map fst acc')) (mean4 (map snd acc'))])
              else (acc', []))"

fun ts47_print :: "ts_report \<Rightarrow> kreq list" where
  "ts47_print Release = [QCall ''printk'' [Str ''pen up'']]"
| "ts47_print (Touch x y) = [QCall ''printk'' [Str ''x = %lu, y = %lu'', Num (of_nat x), Num (of_nat y)]]"

abbreviation prints :: "kevent list \<Rightarrow> kreq list" where
  "prints \<equiv> reqs_of [''printk'']"

definition ts47_conc :: "kenv \<Rightarrow> ts_op \<Rightarrow> s3c_ts \<Rightarrow> s3c_ts" where
  "ts47_conc env e s = exec (ts47_event env e) s"

lemmas ts47_defs = ts47_pen_down_up_irq_def ts3_pen_down_up_irq_def ts47_timer_function_def ts47_adc_irq_def
  enter_wait_pen_down_mode_def enter_wait_pen_up_mode_def enter_masure_xy_mode_def start_adc_mode_def

definition ts47_simulates :: "s3c_ts \<Rightarrow> s3c_ts \<Rightarrow> (nat \<times> nat) list \<times> ts_report list \<Rightarrow> bool" where
  "ts47_simulates s t spec \<longleftrightarrow> ts_inv t \<and> ts_abs t = fst spec \<and>
     prints (trace t) = prints (trace s) @ concat (map ts47_print (snd spec))"

lemmas sim47_defs = ts47_simulates_def ts_inv_def ts_abs_def

lemma ts47_pen_refines:
  "ts_inv s \<Longrightarrow> ts47_simulates s (ts47_conc env Ts_pen s) (ts47_spec (ts_sees env s Ts_pen) (ts_abs s))"
  by (simp add: ts47_conc_def ts47_defs sim47_defs and_bit15 Let_def)

lemma ts47_timer_refines:
  "ts_inv s \<Longrightarrow> ts47_simulates s (ts47_conc env Ts_timer s) (ts47_spec (ts_sees env s Ts_timer) (ts_abs s))"
  by (simp add: ts47_conc_def ts47_defs sim47_defs and_bit15 Let_def)

lemma ts47_adc_refines:
  assumes "ts_inv s"
  shows "ts47_simulates s (ts47_conc env Ts_adc s) (ts47_spec (ts_sees env s Ts_adc) (ts_abs s))"
proof -
  from assms have len: "length (adc_x s) = 4" "length (adc_y s) = 4" and cnt: "adc_cnt s < 4"
    by (auto simp: ts_inv_def)
  obtain a b c d where x: "adc_x s = [a, b, c, d]" using len(1) by (rule four_slots)
  obtain e f g h where y: "adc_y s = [e, f, g, h]" using len(2) by (rule four_slots)
  have le: "a \<le> 0x3ff" "b \<le> 0x3ff" "c \<le> 0x3ff" "d \<le> 0x3ff"
    "e \<le> 0x3ff" "f \<le> 0x3ff" "g \<le> 0x3ff" "h \<le> 0x3ff"
    using assms by (auto simp: ts_inv_def x y)
  consider "adc_cnt s = 0" | "adc_cnt s = 1" | "adc_cnt s = 2" | "adc_cnt s = 3" using cnt by linarith
  then show ?thesis
    by cases
      (simp_all add: ts47_conc_def ts47_defs sim47_defs and_bit15 Let_def x y le and_3ff_le mean4_word eval_nat_numeral)
qed

lemma ts47_refines: "ts_inv s \<Longrightarrow> ts47_simulates s (ts47_conc env e s) (ts47_spec (ts_sees env s e) (ts_abs s))"
  by (cases e) (simp_all only: ts47_pen_refines ts47_timer_refines ts47_adc_refines)

interpretation ts47_sim: simulation "ts47_conc env" ts_inv ts_abs "ts_sees env" ts47_spec "\<lambda>s. prints (trace s)" ts47_print
  for env
  by unfold_locales (use ts47_refines in \<open>auto simp: ts47_simulates_def\<close>)

text \<open>
  For every sequence of pen interrupts, conversions and timer expiries, what the stage \<^verbatim>\<open>4_7th\<close> prints is
  what the machine without the reset reports on the inputs it saw; its arrays are never indexed out of
  bounds.
\<close>

theorem ts47_run_refines:
  assumes "ts_inv s"
  shows "let t = fold (ts47_conc env) es s;
      spec = spec_run ts47_spec (seen_inputs (ts47_conc env) (ts_sees env) es s) (ts_abs s) in
    ts_inv t \<and> ts_abs t = fst spec \<and> prints (trace t) = prints (trace s) @ concat (map ts47_print (snd spec))"
  using assms ts47_sim.run_inv ts47_sim.run_abs ts47_sim.run_outs by (simp add: Let_def)

theorem ts47_run_refines_witness:
  "let t = fold (ts47_conc (\<lambda>n q. 8)) [Ts_pen, Ts_adc, Ts_adc, Ts_adc, Ts_adc] ts_start in
   ts_inv t \<and> prints (trace t) = ts47_print (Touch 8 8)"
proof -
  have "snd (spec_run ts47_spec (seen_inputs (ts47_conc (\<lambda>n q. 8)) (ts_sees (\<lambda>n q. 8))
      [Ts_pen, Ts_adc, Ts_adc, Ts_adc, Ts_adc] ts_start) (ts_abs ts_start)) = [Touch 8 8]"
    by (simp add: ts_abs_def ts_start_def mean4_def)
  with ts47_run_refines [OF ts_start_inv, of "\<lambda>n q. 8" "[Ts_pen, Ts_adc, Ts_adc, Ts_adc, Ts_adc]"]
  show ?thesis by (simp add: Let_def ts_start_def)
qed

subsection \<open>Something is always armed\<close>

text \<open>
  The last stage arms as the final driver does. The handlers of the first two stages wait for the opposite
  edge, or start a conversion whose handler waits for the pen to go up.
\<close>

theorem ts_stages_armed:
  "ts_armed (pen_up (ts_sees env s e)) (s3c_ts_regs s) (drop (length (trace s)) (trace (ts47_conc env e s))) \<and>
   last_wr (adctsc (s3c_ts_regs s)) (drop (length (trace s)) (trace (exec (ts12_pen_down_up_irq env) s))) =
     Some (if pen_up (ts_sees env s Ts_pen) then 0xd3 else 0x1d3) \<and>
   ts_armed (pen_up (ts_sees env s Ts_pen)) (s3c_ts_regs s)
     (drop (length (trace s)) (trace (exec (ts3_pen_down_up_irq env) s))) \<and>
   last_wr (adctsc (s3c_ts_regs s)) (drop (length (trace s)) (trace (exec (ts3_adc_irq env) s))) = Some 0x1d3"
proof (intro conjI)
  show "ts_armed (pen_up (ts_sees env s e)) (s3c_ts_regs s) (drop (length (trace s)) (trace (ts47_conc env e s)))"
    by (cases e) (simp_all add: ts47_conc_def ts47_defs ts_armed_def and_bit15 Let_def bit_simps)
qed (simp_all add: ts12_pen_down_up_irq_def ts3_adc_irq_def ts47_defs ts_armed_def and_bit15 Let_def bit_simps)

subsection \<open>Loading and unloading\<close>

lemmas ts_stage_defs = ts_stage_init_def ts12_init_def ts3_init_def ts47_init_def ts12_exit_def ts3_exit_def
  ts47_exit_def s3c_ts_exit_def enter_wait_pen_down_mode_def

lemma ts_stage_loads:
  assumes "ts_granted env dev clk p"
  shows "result (ts12_init env) s = 0" "result (ts3_init env) s = 0" "result (ts47_init env) s = 0"
    and "s3c_ts_input_dev (exec (ts12_init env) s) = dev" "s3c_ts_regs (exec (ts12_init env) s) = p"
    and "s3c_ts_input_dev (exec (ts3_init env) s) = dev" "s3c_ts_regs (exec (ts3_init env) s) = p"
    and "s3c_ts_input_dev (exec (ts47_init env) s) = dev" "s3c_ts_regs (exec (ts47_init env) s) = p"
    and "last_wr (adccon p) (drop (length (trace s)) (trace (exec (ts12_init env) s))) = Some 0x4c40"
    and "last_wr (adccon p) (drop (length (trace s)) (trace (exec (ts3_init env) s))) = Some 0x4c40"
    and "last_wr (adccon p) (drop (length (trace s)) (trace (exec (ts47_init env) s))) = Some 0x4c40"
    and "last_wr (adctsc p) (drop (length (trace s)) (trace (exec (ts12_init env) s))) = Some 0xd3"
    and "last_wr (adctsc p) (drop (length (trace s)) (trace (exec (ts3_init env) s))) = Some 0xd3"
    and "last_wr (adctsc p) (drop (length (trace s)) (trace (exec (ts47_init env) s))) = Some 0xd3"
  using assms [unfolded ts_granted_def always_def] by (simp_all add: ts_stage_defs)

text \<open>
  What the stages hold when loaded: the final driver's resources, less the timer, and in the first
  stage less the interrupt of the converter.
\<close>

lemma ts_stage_init_ghost:
  assumes "ts_granted env dev clk p" "ghost (trace s) = (R, v)"
  shows "ghost (trace (exec (ts12_init env) s)) = (drop 2 (ts_held dev p clk 0) @ R, v)"
    and "ghost (trace (exec (ts3_init env) s)) = (drop 1 (ts_held dev p clk 0) @ R, v)"
    and "\<exists>tm. ghost (trace (exec (ts47_init env) s)) = (ts_held dev p clk tm @ R, v)"
proof -
  note g = assms(1) [unfolded ts_granted_def always_def]
  have "ts_fits p" using g by simp
  note simps = assms(2) ts_maps [OF this] ts_stage_defs ts_held_def allocates_def ghost_simps
  show "ghost (trace (exec (ts12_init env) s)) = (drop 2 (ts_held dev p clk 0) @ R, v)"
    "ghost (trace (exec (ts3_init env) s)) = (drop 1 (ts_held dev p clk 0) @ R, v)"
    "\<exists>tm. ghost (trace (exec (ts47_init env) s)) = (ts_held dev p clk tm @ R, v)"
    using g by (simp_all add: simps)
qed

lemma ts_stage_exit_held:
  assumes "s3c_ts_input_dev s = dev" "s3c_ts_regs s = p" "fresh_dev dev R"
  shows "ghost (trace s) = (drop 2 (ts_held dev p clk tm) @ R, v) \<Longrightarrow> held (exec (ts12_exit env) s) =
      [(''clk_enable'', [Num clk], 0), (''clk_get'', [Num NULL, Str ''adc''], clk)] @ R"
    and "ghost (trace s) = (drop 1 (ts_held dev p clk tm) @ R, v) \<Longrightarrow> held (exec (ts3_exit env) s) =
      [(''clk_enable'', [Num clk], 0), (''clk_get'', [Num NULL, Str ''adc''], clk)] @ R"
    and "ghost (trace s) = (ts_held dev p clk tm @ R, v) \<Longrightarrow> held (exec (ts47_exit env) s) =
      [(''clk_enable'', [Num clk], 0), (''clk_get'', [Num NULL, Str ''adc''], clk)] @ R"
  using assms by (simp_all add: fresh_dev_def ts12_exit_def ts3_exit_def ts47_exit_def s3c_ts_exit_def
    ts_held_def held_def ghost_simps eq_commute)

text \<open>
  Loaded with everything granted, each of the three earlier stages returns 0 with the prescaler set, no
  conversion started and the detector waiting for the pen; unloaded again, it leaves the ADC clock
  enabled and referenced, as the final driver does.
\<close>

theorem ts_stages_leak_clock:
  assumes "ts_granted env dev clk p" "fresh_dev dev (held s)"
    and "(ini, ext) \<in> {(ts12_init, ts12_exit), (ts3_init, ts3_exit), (ts47_init, ts47_exit)}"
  shows "result (ini env) s = 0 \<and>
    last_wr (adccon p) (drop (length (trace s)) (trace (exec (ini env) s))) = Some 0x4c40 \<and>
    last_wr (adctsc p) (drop (length (trace s)) (trace (exec (ini env) s))) = Some 0xd3 \<and>
    held (exec (ext env) (exec (ini env) s)) =
      [(''clk_enable'', [Num clk], 0), (''clk_get'', [Num NULL, Str ''adc''], clk)] @ held s"
proof -
  obtain R v where R: "ghost (trace s) = (R, v)" by fastforce
  then have h: "held s = R" by (simp add: held_def)
  note loads = ts_stage_loads [OF assms(1), of s] and ghosts = ts_stage_init_ghost [OF assms(1) R]
  note exits = ts_stage_exit_held [OF _ _ assms(2) [unfolded h]]
  from assms(3) consider "ini = ts12_init" "ext = ts12_exit" | "ini = ts3_init" "ext = ts3_exit"
    | "ini = ts47_init" "ext = ts47_exit" by blast
  then show ?thesis
  proof cases
    case 1
    then show ?thesis using loads exits(1) [OF loads(4,5) ghosts(1)] by (simp only: h simp_thms)
  next
    case 2
    then show ?thesis using loads exits(2) [OF loads(6,7) ghosts(2)] by (simp only: h simp_thms)
  next
    case 3
    obtain tm where "ghost (trace (exec (ts47_init env) s)) = (ts_held dev p clk tm @ R, v)" using ghosts(3) ..
    with 3 show ?thesis using loads exits(3) [OF loads(8,9)] by (simp only: h simp_thms)
  qed
qed

theorem ts_stages_leak_clock_witness:
  "let env = (\<lambda>n q. case q of QCall f xs \<Rightarrow> if f = ''IS_ERR'' \<or> f = ''request_irq'' \<or> f = ''input_register_device'' \<or>
       f = ''clk_enable'' then 0 else 0x1000 | _ \<Rightarrow> 0) in
   held (exec (ts3_exit env) (exec (ts3_init env) ts_start)) =
     [(''clk_enable'', [Num 0x1000], 0), (''clk_get'', [Num NULL, Str ''adc''], 0x1000)]"
proof -
  let ?env = "\<lambda>(n :: nat) q. case q of QCall f xs \<Rightarrow> if f = ''IS_ERR'' \<or> f = ''request_irq'' \<or>
     f = ''input_register_device'' \<or> f = ''clk_enable'' then 0 else 0x1000 | _ \<Rightarrow> (0 :: u32)"
  have g: "ts_granted ?env 0x1000 0x1000 0x1000" by (simp add: ts_granted_def always_def ts_fits_def)
  have h: "held ts_start = []" by (simp add: held_def ghost_def ts_start_def)
  then have "fresh_dev 0x1000 (held ts_start)" by (simp add: fresh_dev_def)
  from ts_stages_leak_clock [OF g this, of ts3_init ts3_exit] h
  show ?thesis by (simp only: Let_def insert_iff simp_thms append_Nil2)
qed

end
