(* ===== verification/Mouse.thy ===== *)
theory Mouse
  imports Buttons Simulation
begin

section \<open>usbmouse_as_key: a USB mouse as three keys\<close>

text \<open>
  \<^verbatim>\<open>12th_usbmouse_as_key/usbmouse_as_key.c\<close>. On every packet the driver compares the buttons with those of
  the previous packet and reports the changes as key events. The packet is the content of the
  DMA buffer when the handler runs, an argument of the model. Addresses and sizes that come from
  the endpoint descriptor are fetched from the environment.
\<close>

record usb_mouse = kworld +
  uk_input_dev :: u32
  uk_len :: u32
  usb_buf :: u32
  usb_buf_phys :: u32
  uk_urb :: u32
  pre_val :: u8

definition mouse_edge :: "kenv \<Rightarrow> u8 \<Rightarrow> nat \<Rightarrow> string \<Rightarrow> (usb_mouse, unit) state" where
  "mouse_edge env v i key = do {
     pre \<leftarrow> gets pre_val;
     dev \<leftarrow> gets uk_input_dev;
     (if pre AND push_bit i 1 \<noteq> v AND push_bit i 1
      then do {
        callv env ''input_event'' [Num dev, Sym ''EV_KEY'', Sym key, Num (if v AND push_bit i 1 \<noteq> 0 then 1 else 0)];
        callv env ''input_sync'' [Num dev] }
      else skip) }"

definition usb_mouse_as_key_irq :: "kenv \<Rightarrow> u8 list \<Rightarrow> (usb_mouse, unit) state" where
  "usb_mouse_as_key_irq env buf = do {
     mouse_edge env (buf ! 1) 0 ''KEY_L'';
     mouse_edge env (buf ! 1) 1 ''KEY_S'';
     mouse_edge env (buf ! 1) 2 ''KEY_ENTER'';
     modify (\<lambda>s. s\<lparr>pre_val := buf ! 1\<rparr>);
     u \<leftarrow> gets uk_urb;
     callv env ''usb_submit_urb'' [Num u, Sym ''GFP_KERNEL''] }"

definition usbmouse_as_key_probe :: "kenv \<Rightarrow> u32 \<Rightarrow> (usb_mouse, u32) state" where
  "usbmouse_as_key_probe env intf = do {
     dev \<leftarrow> call env ''interface_to_usbdev'' [Num intf];
     d \<leftarrow> call env ''input_allocate_device'' [];
     modify (\<lambda>s. s\<lparr>uk_input_dev := d\<rparr>);
     (if d = NULL then do { printk env ''input allocate device error''; ret (- ENOMEM) } else do {
     dev_set_bit env ''EV_KEY'' d ''evbit'';
     dev_set_bit env ''EV_REP'' d ''evbit'';
     dev_set_bit env ''KEY_L'' d ''keybit'';
     dev_set_bit env ''KEY_S'' d ''keybit'';
     dev_set_bit env ''KEY_ENTER'' d ''keybit'';
     r \<leftarrow> call env ''input_register_device'' [Num d];
     (if r \<noteq> 0 then do { printk env ''input register device error''; ret (- 1) } else do {
     addr \<leftarrow> out env ''endpoint'' 0;
     pipe \<leftarrow> call env ''usb_rcvintpipe'' [Num dev, Num addr];
     len \<leftarrow> out env ''endpoint'' 1;
     modify (\<lambda>s. s\<lparr>uk_len := len\<rparr>);
     b \<leftarrow> call env ''usb_buffer_alloc'' [Num dev, Num len, Sym ''GFP_ATOMIC'', Sym ''&usb_buf_phys''];
     phys \<leftarrow> out env ''usb_buffer_alloc'' 0;
     modify (\<lambda>s. s\<lparr>usb_buf := b, usb_buf_phys := phys\<rparr>);
     u \<leftarrow> call env ''usb_alloc_urb'' [Num 0, Sym ''GFP_KERNEL''];
     modify (\<lambda>s. s\<lparr>uk_urb := u\<rparr>);
     (if u = NULL then ret (- ENOMEM) else do {
     ival \<leftarrow> out env ''endpoint'' 2;
     callv env ''usb_fill_int_urb'' [Num u, Num dev, Num pipe, Num b, Num len, Sym ''usb_mouse_as_key_irq'', Num NULL, Num ival];
     use u;
     use u;
     callv env ''usb_submit_urb'' [Num u, Sym ''GFP_KERNEL''];
     ret 0 }) }) }) }"

definition usbmouse_as_key_disconnect :: "kenv \<Rightarrow> u32 \<Rightarrow> (usb_mouse, unit) state" where
  "usbmouse_as_key_disconnect env intf = do {
     dev \<leftarrow> call env ''interface_to_usbdev'' [Num intf];
     u \<leftarrow> gets uk_urb;
     callv env ''usb_kill_urb'' [Num u];
     callv env ''usb_free_urb'' [Num u];
     len \<leftarrow> gets uk_len;
     b \<leftarrow> gets usb_buf;
     phys \<leftarrow> gets usb_buf_phys;
     callv env ''usb_buffer_free'' [Num dev, Num len, Num b, Num phys];
     d \<leftarrow> gets uk_input_dev;
     callv env ''input_unregister_device'' [Num d];
     callv env ''input_free_device'' [Num d] }"

definition usbmouse_as_key_init :: "kenv \<Rightarrow> (usb_mouse, u32) state" where
  "usbmouse_as_key_init env = do {
     retval \<leftarrow> call env ''usb_register'' [Sym ''&usbmouse_as_key_driver''];
     (if retval = 0 then printk env ''usbmouse_as_key_v0.1:usbmouse_as_key'' else skip);
     ret retval }"

definition usbmouse_as_key_exit :: "kenv \<Rightarrow> (usb_mouse, unit) state" where
  "usbmouse_as_key_exit env = callv env ''usb_deregister'' [Sym ''&usbmouse_as_key_driver'']"

subsection \<open>The abstract machine: report what changed\<close>

fun mouse_changes :: "(nat \<times> string) list \<Rightarrow> u8 \<Rightarrow> u8 \<Rightarrow> (string \<times> bool) list" where
  "mouse_changes [] old new = []"
| "mouse_changes ((i, k) # ks) old new =
     (if bit old i = bit new i then mouse_changes ks old new else (k, bit new i) # mouse_changes ks old new)"

definition mouse_keys :: "(nat \<times> string) list" where
  "mouse_keys = [(0, ''KEY_L''), (1, ''KEY_S''), (2, ''KEY_ENTER'')]"

definition mouse_spec :: "u8 \<Rightarrow> u8 \<Rightarrow> u8 \<times> (string \<times> bool) list" where
  "mouse_spec new old = (new, mouse_changes mouse_keys old new)"

fun key_reqs :: "u32 \<Rightarrow> string \<times> bool \<Rightarrow> kreq list" where
  "key_reqs dev (k, v) =
     [QCall ''input_event'' [Num dev, Sym ''EV_KEY'', Sym k, Num (of_bool v)], QCall ''input_sync'' [Num dev]]"

definition mouse_conc :: "kenv \<Rightarrow> u8 list \<Rightarrow> usb_mouse \<Rightarrow> usb_mouse" where
  "mouse_conc env buf s = exec (usb_mouse_as_key_irq env buf) s"

abbreviation mouse_outs :: "usb_mouse \<Rightarrow> kreq list" where
  "mouse_outs s \<equiv> reqs_of [''input_event'', ''input_sync''] (trace s)"

lemma and_exp_u8: "v AND 2 ^ i = (if bit v i then 2 ^ i else (0 :: u8))"
  by (rule bit_word_eqI) (auto simp: bit_and_iff bit_exp_iff)

lemma and_exp_eq_u8: "(v AND 2 ^ i = w AND (2 ^ i :: u8)) = (bit v i = bit w i)"
  using and_exp_eq_0_iff_not_bit [of v i] and_exp_eq_0_iff_not_bit [of w i]
  by (auto simp: and_exp_u8 split: if_splits)

lemma mouse_edge_state:
  "pre_val (exec (mouse_edge env v i k) s) = pre_val s"
  "uk_input_dev (exec (mouse_edge env v i k) s) = uk_input_dev s"
  "uk_urb (exec (mouse_edge env v i k) s) = uk_urb s" "uk_len (exec (mouse_edge env v i k) s) = uk_len s"
  "usb_buf (exec (mouse_edge env v i k) s) = usb_buf s"
  by (simp_all add: mouse_edge_def)

lemma mouse_edge_outs:
  "mouse_outs (exec (mouse_edge env v i k) s) = mouse_outs s @
     concat (map (key_reqs (uk_input_dev s)) (mouse_changes [(i, k)] (pre_val s) v))"
  by (simp add: mouse_edge_def push_bit_of_1 and_exp_eq_u8 and_exp_eq_0_iff_not_bit)

lemma mouse_edge_ghost: "ghost (trace (exec (mouse_edge env v i k) s)) = ghost (trace s)"
  by (cases "ghost (trace s)") (simp add: mouse_edge_def ghost_simps)

lemma mouse_irq_refines:
  "uk_input_dev (mouse_conc env buf s) = uk_input_dev s"
  "pre_val (mouse_conc env buf s) = fst (mouse_spec (buf ! 1) (pre_val s))"
  "mouse_outs (mouse_conc env buf s) = mouse_outs s @
     concat (map (key_reqs (uk_input_dev s)) (snd (mouse_spec (buf ! 1) (pre_val s))))"
  by (simp_all add: mouse_conc_def usb_mouse_as_key_irq_def exec_bind mouse_edge_state mouse_edge_outs
      mouse_spec_def mouse_keys_def del: run_state_bind)

interpretation mouse_sim: simulation "mouse_conc env" "\<lambda>s. uk_input_dev s = dev" pre_val
  "\<lambda>s buf. buf ! 1" mouse_spec mouse_outs "key_reqs dev" for env dev
  by unfold_locales (simp_all only: mouse_irq_refines)

subsection \<open>What a consumer of the key events believes\<close>

text \<open>The state of a key as it follows from the events received so far.\<close>

fun key_view :: "string \<Rightarrow> (string \<times> bool) list \<Rightarrow> bool \<Rightarrow> bool" where
  "key_view k [] b = b"
| "key_view k ((j, v) # es) b = key_view k es (if j = k then v else b)"

lemma key_view_append: "key_view k (xs @ ys) b = key_view k ys (key_view k xs b)"
  by (induction k xs b rule: key_view.induct) simp_all

definition mouse_reports :: "kenv \<Rightarrow> u8 list list \<Rightarrow> usb_mouse \<Rightarrow> (string \<times> bool) list" where
  "mouse_reports env bufs s =
     snd (spec_run mouse_spec (seen_inputs (mouse_conc env) (\<lambda>s buf. buf ! 1) bufs s) (pre_val s))"

lemma seen_bufs: "seen_inputs (mouse_conc env) (\<lambda>s buf. buf ! 1) bufs s = map (\<lambda>buf. buf ! 1) bufs"
  by (induction bufs arbitrary: s) simp_all

lemma mouse_view_step:
  "(i, k) \<in> set mouse_keys \<Longrightarrow> key_view k (snd (mouse_spec new old)) (bit old i) = bit new i"
  by (auto simp: mouse_keys_def mouse_spec_def)

lemma mouse_view_run:
  "(i, k) \<in> set mouse_keys \<Longrightarrow>
    key_view k (snd (spec_run mouse_spec vs old)) (bit old i) = bit (last (old # vs)) i"
proof (induction vs arbitrary: old)
  case (Cons v vs)
  have "fst (mouse_spec v old) = v" by (simp add: mouse_spec_def)
  then show ?case
    using Cons.IH [OF Cons.prems, of v] mouse_view_step [OF Cons.prems, of v old]
    by (simp only: snd_spec_run key_view_append) simp
qed simp

text \<open>
  C25. For every sequence of packets the driver sends exactly the key events of the changes, and
  whoever follows those events knows after each packet which buttons of the mouse are down: the
  events of the three keys add up to the buttons of the last packet.
\<close>

theorem mouse_view_correct:
  assumes "(i, k) \<in> set mouse_keys"
  shows "mouse_outs (fold (mouse_conc env) bufs s) =
      mouse_outs s @ concat (map (key_reqs (uk_input_dev s)) (mouse_reports env bufs s)) \<and>
    key_view k (mouse_reports env bufs s) (bit (pre_val s) i) =
      (if bufs = [] then bit (pre_val s) i else bit (last bufs ! 1) i)"
proof
  show "mouse_outs (fold (mouse_conc env) bufs s) =
      mouse_outs s @ concat (map (key_reqs (uk_input_dev s)) (mouse_reports env bufs s))"
    unfolding mouse_reports_def by (rule mouse_sim.run_outs) (rule refl)
  show "key_view k (mouse_reports env bufs s) (bit (pre_val s) i) =
      (if bufs = [] then bit (pre_val s) i else bit (last bufs ! 1) i)"
    unfolding mouse_reports_def seen_bufs
    using mouse_view_run [OF assms, of "map (\<lambda>buf. buf ! 1) bufs" "pre_val s"]
    by (simp add: last_map)
qed

definition mouse_start :: usb_mouse where
  "mouse_start = \<lparr>trace = [], uk_input_dev = 1, uk_len = 4, usb_buf = 0, usb_buf_phys = 0, uk_urb = 2, pre_val = 0\<rparr>"

theorem mouse_view_correct_witness:
  "key_view ''KEY_S'' (mouse_reports (\<lambda>n q. 0) [[0, 2, 0, 0], [0, 3, 0, 0], [0, 1, 0, 0]] mouse_start) False = False \<and>
   mouse_outs (fold (mouse_conc (\<lambda>n q. 0)) [[0, 2, 0, 0]] mouse_start) = key_reqs 1 (''KEY_S'', True)"
  using mouse_view_correct [of 1 "''KEY_S''" "\<lambda>n q. 0" "[[0, 2, 0, 0], [0, 3, 0, 0], [0, 1, 0, 0]]" mouse_start]
    mouse_view_correct [of 1 "''KEY_S''" "\<lambda>n q. 0" "[[0, 2, 0, 0]]" mouse_start]
  by (simp add: mouse_keys_def mouse_start_def mouse_reports_def mouse_spec_def bit_numeral_word_iff)

text \<open>
  The previous packet is kept over an unplugging: when a mouse is removed with a button down and
  another one is connected, for which the system starts with all keys up, the first packet of
  the new mouse with that button down produces no event, and the press is never seen.
\<close>

theorem mouse_stale_after_reconnect:
  "mouse_reports env [[0, 1, 0, 0]] (exec (do {
     usb_mouse_as_key_irq env [0, 1, 0, 0];
     usbmouse_as_key_disconnect env intf;
     usbmouse_as_key_probe env intf }) s) = []"
proof -
  have probe: "pre_val (exec (usbmouse_as_key_probe env intf) t) = pre_val t" for t
    unfolding usbmouse_as_key_probe_def dev_set_bit_def by (intro keepsD keeps_rules) simp_all
  have disc: "pre_val (exec (usbmouse_as_key_disconnect env intf) t) = pre_val t" for t
    by (simp add: usbmouse_as_key_disconnect_def)
  have "pre_val (exec (usb_mouse_as_key_irq env [0, 1, 0, 0]) s) = 1"
    using mouse_irq_refines(2) [of env "[0, 1, 0, 0]" s] by (simp add: mouse_conc_def mouse_spec_def)
  then show ?thesis
    by (simp add: mouse_reports_def mouse_spec_def mouse_keys_def exec_bind probe disc del: run_state_bind)
qed

subsection \<open>Resources\<close>

definition mouse_held :: "u32 \<Rightarrow> u32 \<Rightarrow> u32 \<Rightarrow> u32 \<Rightarrow> u32 \<Rightarrow> kres list" where
  "mouse_held dev d len b u =
     [(''usb_alloc_urb'', [Num 0, Sym ''GFP_KERNEL''], u),
      (''usb_buffer_alloc'', [Num dev, Num len, Sym ''GFP_ATOMIC'', Sym ''&usb_buf_phys''], b),
      (''input_register_device'', [Num d], 0), (''input_allocate_device'', [], d)]"

text \<open>A kernel that grants the device \<open>d\<close>, the buffer \<open>b\<close> and the request block \<open>u\<close>.\<close>

definition mouse_granted :: "kenv \<Rightarrow> u32 \<Rightarrow> u32 \<Rightarrow> u32 \<Rightarrow> u32 \<Rightarrow> bool" where
  "mouse_granted env dev d b u \<longleftrightarrow> d \<noteq> NULL \<and> b \<noteq> NULL \<and>
     always env ''interface_to_usbdev'' dev \<and> always env ''input_allocate_device'' d \<and>
     always env ''input_register_device'' 0 \<and> always env ''usb_buffer_alloc'' b \<and>
     always env ''usb_alloc_urb'' u"

lemma mouse_probe_fails:
  assumes "mouse_granted env dev d b NULL"
  shows "result (usbmouse_as_key_probe env intf) s = - ENOMEM"
    and "ghost (trace (exec (usbmouse_as_key_probe env intf) s)) =
      (tl (mouse_held dev d (uk_len (exec (usbmouse_as_key_probe env intf) s)) b NULL) @ held s, viol s)"
  using assms
  by (cases "ghost (trace s)"; simp add: mouse_granted_def always_def usbmouse_as_key_probe_def dev_set_bit_def
      mouse_held_def held_def viol_def allocates_def ghost_simps)+

lemma mouse_probe_ok:
  assumes "mouse_granted env dev d b u" "u \<noteq> NULL"
  shows "result (usbmouse_as_key_probe env intf) s = 0"
    and "ghost (trace (exec (usbmouse_as_key_probe env intf) s)) =
      (mouse_held dev d (uk_len (exec (usbmouse_as_key_probe env intf) s)) b u @ held s, viol s)"
    and "uk_input_dev (exec (usbmouse_as_key_probe env intf) s) = d"
    "usb_buf (exec (usbmouse_as_key_probe env intf) s) = b" "uk_urb (exec (usbmouse_as_key_probe env intf) s) = u"
  using assms
  by (cases "ghost (trace s)"; simp add: mouse_granted_def always_def usbmouse_as_key_probe_def dev_set_bit_def
      mouse_held_def held_def viol_def allocates_def ghost_simps)+

text \<open>
  When no request block can be allocated probe returns -ENOMEM and keeps the transfer buffer, the
  registration and the input device.
\<close>

theorem mouse_probe_leak:
  assumes "mouse_granted env dev d b NULL"
  shows "result (usbmouse_as_key_probe env intf) s = - ENOMEM \<and>
    held (exec (usbmouse_as_key_probe env intf) s) =
      [(''usb_buffer_alloc'', [Num dev, Num (uk_len (exec (usbmouse_as_key_probe env intf) s)),
          Sym ''GFP_ATOMIC'', Sym ''&usb_buf_phys''], b),
       (''input_register_device'', [Num d], 0), (''input_allocate_device'', [], d)] @ held s"
  using mouse_probe_fails [OF assms, of intf s] by (simp add: held_def mouse_held_def)

theorem mouse_probe_leak_witness:
  "let env = (\<lambda>n q. case q of QCall f xs \<Rightarrow> if f = ''input_register_device'' \<or> f = ''usb_alloc_urb'' then 0 else 8 | _ \<Rightarrow> 0) in
   mouse_granted env 8 8 8 NULL \<and> result (usbmouse_as_key_probe env 5) mouse_start = - ENOMEM"
proof -
  let ?env = "\<lambda>(n :: nat) q. case q of QCall f xs \<Rightarrow> if f = ''input_register_device'' \<or> f = ''usb_alloc_urb''
      then 0 else 8 | _ \<Rightarrow> (0 :: u32)"
  have g: "mouse_granted ?env 8 8 8 NULL" by (simp add: mouse_granted_def always_def)
  with mouse_probe_leak [OF g, of 5 mouse_start] show ?thesis by (simp add: Let_def)
qed

definition mouse_loaded :: "kres list \<Rightarrow> u32 \<Rightarrow> usb_mouse \<Rightarrow> bool" where
  "mouse_loaded R dev s \<longleftrightarrow> fresh_dev (uk_input_dev s) R \<and>
     held s = mouse_held dev (uk_input_dev s) (uk_len s) (usb_buf s) (uk_urb s) @ R"

lemma mouse_irq_keeps:
  "uk_len (mouse_conc env buf s) = uk_len s" "usb_buf (mouse_conc env buf s) = usb_buf s"
  "uk_urb (mouse_conc env buf s) = uk_urb s"
  by (simp_all add: mouse_conc_def usb_mouse_as_key_irq_def exec_bind mouse_edge_state del: run_state_bind)

lemma mouse_irq_ghost: "ghost (trace (mouse_conc env buf s)) = ghost (trace s)"
proof -
  have sub: "ghost (trace (exec (callv env ''usb_submit_urb'' xs) t)) = ghost (trace t)" for t :: usb_mouse and xs
    by (cases "ghost (trace t)") (simp add: ghost_simps)
  show ?thesis
    by (simp add: mouse_conc_def usb_mouse_as_key_irq_def exec_bind mouse_edge_ghost sub
        del: run_state_bind run_callv)
qed

lemma mouse_packets_loaded:
  "mouse_loaded R dev s \<Longrightarrow> mouse_loaded R dev (fold (mouse_conc env) bufs s) \<and>
    viol (fold (mouse_conc env) bufs s) = viol s \<and>
    uk_input_dev (fold (mouse_conc env) bufs s) = uk_input_dev s"
proof (induction bufs arbitrary: s)
  case (Cons buf bufs)
  have "mouse_loaded R dev (mouse_conc env buf s)" "viol (mouse_conc env buf s) = viol s"
    using Cons.prems
    by (simp_all add: mouse_loaded_def held_def viol_def mouse_irq_ghost mouse_irq_keeps mouse_irq_refines(1))
  with Cons.IH [of "mouse_conc env buf s"] show ?case by (simp add: mouse_irq_refines(1))
qed simp

lemma mouse_disconnect_outcome:
  assumes "mouse_loaded R dev s" "always env ''interface_to_usbdev'' dev"
  shows "\<exists>r. ghost (trace (exec (usbmouse_as_key_disconnect env intf) s)) =
    (R, viol s @ [Ev (QCall ''input_free_device'' [Num (uk_input_dev s)]) r])"
proof -
  obtain v where "ghost (trace s) = (mouse_held dev (uk_input_dev s) (uk_len s) (usb_buf s) (uk_urb s) @ R, v)"
    using assms(1) by (cases "ghost (trace s)") (simp add: mouse_loaded_def held_def)
  then show ?thesis
    using assms
    by (simp add: mouse_loaded_def fresh_dev_def always_def usbmouse_as_key_disconnect_def mouse_held_def
        viol_def ghost_simps eq_commute)
qed

text \<open>
  From probe over any packets to disconnect every resource of the mouse driver is returned, and the
  one rule it breaks is the second release of the input device.
\<close>

theorem mouse_life:
  fixes bufs :: "u8 list list" and intf :: u32
  assumes "mouse_granted env dev d b u" "u \<noteq> NULL" "fresh_dev d (held s)"
  defines "t \<equiv> exec (usbmouse_as_key_disconnect env intf)
    (fold (mouse_conc env) bufs (exec (usbmouse_as_key_probe env intf) s))"
  shows "held t = held s \<and> (\<exists>r. viol t = viol s @ [Ev (QCall ''input_free_device'' [Num d]) r])"
proof -
  let ?p = "exec (usbmouse_as_key_probe env intf) s"
  note ok = mouse_probe_ok [OF assms(1,2), of intf s]
  have "mouse_loaded (held s) dev ?p" "viol ?p = viol s"
    using ok(2) assms(3) by (simp_all add: mouse_loaded_def held_def viol_def ok(3-5))
  note l = mouse_packets_loaded [OF this(1), of env bufs] this
  have "always env ''interface_to_usbdev'' dev" using assms(1) by (simp add: mouse_granted_def)
  from mouse_disconnect_outcome [OF conjunct1 [OF l(1)] this, of intf] l ok(3) show ?thesis
    unfolding t_def by (auto simp: held_def viol_def)
qed

theorem mouse_life_witness:
  "let env = (\<lambda>n q. case q of QCall f xs \<Rightarrow> if f = ''input_register_device'' then 0 else 8 | _ \<Rightarrow> 4) in
   mouse_granted env 8 8 8 8 \<and>
   held (exec (usbmouse_as_key_disconnect env 5)
    (fold (mouse_conc env) [[0, 1, 0, 0]] (exec (usbmouse_as_key_probe env 5) mouse_start))) = []"
proof -
  let ?env = "\<lambda>(n :: nat) q. case q of QCall f xs \<Rightarrow> if f = ''input_register_device'' then 0 else 8 | _ \<Rightarrow> (4 :: u32)"
  have g: "mouse_granted ?env 8 8 8 8" by (simp add: mouse_granted_def always_def)
  have h: "held mouse_start = []" by (simp add: mouse_start_def held_def ghost_def)
  have "fresh_dev 8 (held mouse_start)" by (simp add: h fresh_dev_def)
  from mouse_life [OF g _ this, of 5 "[[0, 1, 0, 0]]"] g h show ?thesis by (simp add: Let_def)
qed

end
