(* ===== verification/Ramblock.thy ===== *)
theory Ramblock
  imports Kernel
begin

section \<open>ramblock: a block device in memory\<close>

text \<open>
  \<^verbatim>\<open>13th_ramblock/ramblock.c\<close>. The content of the disk is a list of bytes. The request queue belongs to
  the block layer of the kernel: the model takes the requests that \<^verbatim>\<open>elv_next_request\<close> hands out as a
  list. A copy that leaves the buffer of the disk is an error of the model; sector and count are
  32-bit numbers and their shift by 9 wraps around as in C.
\<close>

definition RAMBLOCK_SIZE :: nat where
  "RAMBLOCK_SIZE = 1024 * 1024"

record hd_geometry =
  heads :: nat
  cylinders :: nat
  sectors :: nat

definition ramblock_getgeo :: "hd_geometry" where
  "ramblock_getgeo = \<lparr>heads = 2, cylinders = 32, sectors = RAMBLOCK_SIZE div 2 div 32 div 512\<rparr>"

datatype rq_dir = READ | WRITE

record request =
  rq_sector :: u32
  rq_current_nr_sectors :: u32
  rq_data_dir :: rq_dir
  rq_buffer :: "u8 list"

datatype blk_error = Disk_overrun | Buffer_overrun

text \<open>\<^verbatim>\<open>memcpy(dst + off, src, len)\<close> on a destination and a source of known size.\<close>

definition put_bytes :: "u8 list \<Rightarrow> nat \<Rightarrow> u8 list \<Rightarrow> u8 list" where
  "put_bytes mem off src = take off mem @ src @ drop (off + length src) mem"

definition ramblock_transfer :: "u8 list \<Rightarrow> request \<Rightarrow> blk_error + (u8 list \<times> request)" where
  "ramblock_transfer mem req =
     (let offset = unat (push_bit 9 (rq_sector req)); len = unat (push_bit 9 (rq_current_nr_sectors req)) in
      if length mem < offset + len then Inl Disk_overrun
      else if length (rq_buffer req) < len then Inl Buffer_overrun
      else if rq_data_dir req = READ
           then Inr (mem, req\<lparr>rq_buffer := put_bytes (rq_buffer req) 0 (take len (drop offset mem))\<rparr>)
           else Inr (put_bytes mem offset (take len (rq_buffer req)), req))"

fun do_ramblock_request :: "u8 list \<Rightarrow> request list \<Rightarrow> blk_error + (u8 list \<times> request list)" where
  "do_ramblock_request mem [] = Inr (mem, [])"
| "do_ramblock_request mem (req # q) =
     (case ramblock_transfer mem req of Inl e \<Rightarrow> Inl e
      | Inr (mem', r) \<Rightarrow> (case do_ramblock_request mem' q of Inl e \<Rightarrow> Inl e
                        | Inr (mem'', rs) \<Rightarrow> Inr (mem'', r # rs)))"

record ramblock_drv = kworld +
  ramblock_gendisk :: u32
  ramblock_request_queue :: u32
  rb_major :: u32
  ramblock_buf :: u32

definition ramblock_init :: "kenv \<Rightarrow> (ramblock_drv, u32) state" where
  "ramblock_init env = do {
     m \<leftarrow> call env ''register_blkdev'' [Num 0, Str ''ramblock''];
     modify (\<lambda>s. s\<lparr>rb_major := m\<rparr>);
     d \<leftarrow> call env ''alloc_disk'' [Num 16];
     modify (\<lambda>s. s\<lparr>ramblock_gendisk := d\<rparr>);
     use d; use d; use d; use d;
     q \<leftarrow> call env ''blk_init_queue'' [Sym ''do_ramblock_request'', Sym ''&ramblock_lock''];
     modify (\<lambda>s. s\<lparr>ramblock_request_queue := q\<rparr>);
     use d;
     callv env ''set_capacity'' [Num d, Num (of_nat RAMBLOCK_SIZE div 512)];
     b \<leftarrow> call env ''kzalloc'' [Num (of_nat RAMBLOCK_SIZE), Sym ''GFP_KERNEL''];
     modify (\<lambda>s. s\<lparr>ramblock_buf := b\<rparr>);
     (if b = NULL then ret (- ENOMEM) else do {
        callv env ''add_disk'' [Num d];
        ret 0 }) }"

definition ramblock_exit :: "kenv \<Rightarrow> (ramblock_drv, unit) state" where
  "ramblock_exit env = do {
     m \<leftarrow> gets rb_major;
     callv env ''unregister_blkdev'' [Num m, Str ''ramblock''];
     d \<leftarrow> gets ramblock_gendisk;
     callv env ''del_gendisk'' [Num d];
     q \<leftarrow> gets ramblock_request_queue;
     callv env ''blk_cleanup_queue'' [Num q];
     b \<leftarrow> gets ramblock_buf;
     callv env ''kfree'' [Num b] }"

subsection \<open>The disk as an array of bytes\<close>

text \<open>
  The contract of a disk: reading returns what was last written at each position. \<open>disk_after\<close> is the
  content a sequence of requests leaves when each position is looked up on its own.
\<close>

definition rq_off :: "request \<Rightarrow> nat" where "rq_off r = 512 * unat (rq_sector r)"
definition rq_len :: "request \<Rightarrow> nat" where "rq_len r = 512 * unat (rq_current_nr_sectors r)"

definition rq_ok :: "nat \<Rightarrow> request \<Rightarrow> bool" where
  "rq_ok cap r \<longleftrightarrow> unat (rq_sector r) + unat (rq_current_nr_sectors r) \<le> cap \<and>
     length (rq_buffer r) = rq_len r"

fun disk_after :: "request list \<Rightarrow> (nat \<Rightarrow> u8) \<Rightarrow> nat \<Rightarrow> u8" where
  "disk_after [] m a = m a"
| "disk_after (r # rs) m a =
     disk_after rs
       (\<lambda>a. if rq_data_dir r = WRITE \<and> rq_off r \<le> a \<and> a < rq_off r + rq_len r
             then rq_buffer r ! (a - rq_off r) else m a) a"

text \<open>The answers: a read request gets the bytes the disk has at that moment.\<close>

fun disk_answers :: "request list \<Rightarrow> (nat \<Rightarrow> u8) \<Rightarrow> request list" where
  "disk_answers [] m = []"
| "disk_answers (r # rs) m =
     (if rq_data_dir r = READ then r\<lparr>rq_buffer := map (\<lambda>i. m (rq_off r + i)) [0..<rq_len r]\<rparr> else r) #
     disk_answers rs (disk_after [r] m)"

lemma unat_push_bit_9:
  assumes "unat v \<le> 2048"
  shows "unat (push_bit 9 (v :: u32)) = 512 * unat v"
proof -
  have "unat (push_bit 9 v) = unat (v * 512)" by (simp add: push_bit_eq_mult)
  also have "\<dots> = unat v * 512" using assms by (simp add: unat_word_ariths)
  finally show ?thesis by simp
qed

lemma length_put_bytes: "off + length src \<le> length mem \<Longrightarrow> length (put_bytes mem off src) = length mem"
  by (simp add: put_bytes_def)

lemma nth_put_bytes:
  assumes "off + length src \<le> length mem" "a < length mem"
  shows "put_bytes mem off src ! a = (if off \<le> a \<and> a < off + length src then src ! (a - off) else mem ! a)"
  using assms by (auto simp: put_bytes_def nth_append)

lemma put_bytes_all: "length src = length mem \<Longrightarrow> put_bytes mem 0 src = src"
  by (simp add: put_bytes_def)

lemma transfer_ok:
  assumes "rq_ok 2048 r" "length mem = RAMBLOCK_SIZE"
  shows "\<exists>mem'. ramblock_transfer mem r = Inr (mem', hd (disk_answers [r] (\<lambda>a. mem ! a))) \<and>
    length mem' = RAMBLOCK_SIZE \<and> (\<forall>a < RAMBLOCK_SIZE. mem' ! a = disk_after [r] (\<lambda>a. mem ! a) a)"
proof -
  have sz: "unat (rq_sector r) \<le> 2048" "unat (rq_current_nr_sectors r) \<le> 2048"
    using assms(1) by (auto simp: rq_ok_def)
  have le: "rq_off r + rq_len r \<le> RAMBLOCK_SIZE"
    using assms(1) by (simp add: rq_ok_def rq_off_def rq_len_def RAMBLOCK_SIZE_def)
  have buf: "length (rq_buffer r) = rq_len r" using assms(1) by (simp add: rq_ok_def)
  have run: "ramblock_transfer mem r = (if rq_data_dir r = READ
      then Inr (mem, r\<lparr>rq_buffer := put_bytes (rq_buffer r) 0 (take (rq_len r) (drop (rq_off r) mem))\<rparr>)
      else Inr (put_bytes mem (rq_off r) (rq_buffer r), r))"
    using le buf assms(2)
    by (simp add: ramblock_transfer_def Let_def unat_push_bit_9 [OF sz(1)] unat_push_bit_9 [OF sz(2)]
        rq_off_def rq_len_def)
  show ?thesis
  proof (cases "rq_data_dir r")
    case READ
    have "take (rq_len r) (drop (rq_off r) mem) = map (\<lambda>i. mem ! (rq_off r + i)) [0..<rq_len r]"
      using le assms(2) by (intro nth_equalityI) auto
    then show ?thesis unfolding run using READ le assms(2) buf by (simp add: put_bytes_all)
  next
    case WRITE
    then show ?thesis unfolding run
      using le assms(2) buf by (auto simp: length_put_bytes nth_put_bytes)
  qed
qed

lemma disk_after_cong:
  "(\<And>a. a < n \<Longrightarrow> m a = m' a) \<Longrightarrow> a < n \<Longrightarrow> disk_after rs m a = disk_after rs m' a"
proof (induction rs arbitrary: m m')
  case (Cons r rs)
  show ?case unfolding disk_after.simps
    by (rule Cons.IH) (simp_all add: Cons.prems)
qed simp

lemma disk_answers_cong:
  assumes "\<And>a. a < RAMBLOCK_SIZE \<Longrightarrow> m a = m' a" "list_all (rq_ok 2048) rs"
  shows "disk_answers rs m = disk_answers rs m'"
  using assms
proof (induction rs arbitrary: m m')
  case (Cons r rs)
  have le: "rq_off r + rq_len r \<le> RAMBLOCK_SIZE"
    using Cons.prems(2) by (simp add: rq_ok_def rq_off_def rq_len_def RAMBLOCK_SIZE_def)
  have "disk_answers rs (disk_after [r] m) = disk_answers rs (disk_after [r] m')"
    using Cons.prems by (intro Cons.IH disk_after_cong [where n = RAMBLOCK_SIZE]) auto
  moreover have "map (\<lambda>i. m (rq_off r + i)) [0..<rq_len r] = map (\<lambda>i. m' (rq_off r + i)) [0..<rq_len r]"
    using Cons.prems(1) le by auto
  ultimately show ?case by simp
qed simp

text \<open>
  C5. Requests within the announced capacity are served without leaving the disk, in order: the queue
  is emptied, afterwards every byte of the disk is the last one written to it, and every read got
  the bytes the disk held when its turn came.
\<close>

theorem ramblock_requests_correct:
  assumes "list_all (rq_ok (RAMBLOCK_SIZE div 512)) q" and "length mem = RAMBLOCK_SIZE"
  shows "\<exists>mem'. do_ramblock_request mem q = Inr (mem', disk_answers q (\<lambda>a. mem ! a)) \<and>
    length mem' = RAMBLOCK_SIZE \<and> (\<forall>a < RAMBLOCK_SIZE. mem' ! a = disk_after q (\<lambda>a. mem ! a) a)"
proof -
  have "list_all (rq_ok 2048) q" using assms(1) by (simp add: RAMBLOCK_SIZE_def)
  then show ?thesis using assms(2)
  proof (induction q arbitrary: mem)
    case (Cons r q)
    obtain m1 where m1: "ramblock_transfer mem r = Inr (m1, hd (disk_answers [r] (\<lambda>a. mem ! a)))"
      "length m1 = RAMBLOCK_SIZE" "\<forall>a < RAMBLOCK_SIZE. m1 ! a = disk_after [r] (\<lambda>a. mem ! a) a"
      using transfer_ok [of r mem] Cons.prems by auto
    obtain m2 where m2: "do_ramblock_request m1 q = Inr (m2, disk_answers q (\<lambda>a. m1 ! a))"
      "length m2 = RAMBLOCK_SIZE" "\<forall>a < RAMBLOCK_SIZE. m2 ! a = disk_after q (\<lambda>a. m1 ! a) a"
      using Cons.IH [of m1] Cons.prems m1(2) by auto
    have ans: "disk_answers q (\<lambda>a. m1 ! a) = disk_answers q (disk_after [r] (\<lambda>a. mem ! a))"
      using m1(3) Cons.prems by (intro disk_answers_cong) auto
    have "\<forall>a < RAMBLOCK_SIZE. m2 ! a = disk_after (r # q) (\<lambda>a. mem ! a) a"
      using m2(3) m1(3)
      by (auto intro!: disk_after_cong [where n = RAMBLOCK_SIZE])
    with m1 m2 ans show ?case by (cases "rq_data_dir r = READ") auto
  qed simp
qed

theorem ramblock_requests_correct_witness:
  "let w = \<lparr>rq_sector = 1, rq_current_nr_sectors = 1, rq_data_dir = WRITE, rq_buffer = replicate 512 7\<rparr>;
       r = \<lparr>rq_sector = 1, rq_current_nr_sectors = 1, rq_data_dir = READ, rq_buffer = replicate 512 0\<rparr>;
       mem = replicate RAMBLOCK_SIZE 0 in
   list_all (rq_ok (RAMBLOCK_SIZE div 512)) [w, r] \<and>
   (\<exists>mem'. do_ramblock_request mem [w, r] = Inr (mem', [w, r\<lparr>rq_buffer := replicate 512 7\<rparr>]))"
proof -
  let ?w = "\<lparr>rq_sector = 1, rq_current_nr_sectors = 1, rq_data_dir = WRITE, rq_buffer = replicate 512 7\<rparr>"
  let ?r = "\<lparr>rq_sector = 1, rq_current_nr_sectors = 1, rq_data_dir = READ, rq_buffer = replicate 512 0\<rparr>"
  have ok: "list_all (rq_ok (RAMBLOCK_SIZE div 512)) [?w, ?r]" by (simp add: rq_ok_def rq_len_def RAMBLOCK_SIZE_def)
  have "disk_answers [?w, ?r] m = [?w, ?r\<lparr>rq_buffer := replicate 512 7\<rparr>]" for m
    by (simp add: rq_off_def rq_len_def) (rule nth_equalityI, auto simp: rq_off_def)
  with ramblock_requests_correct [OF ok, of "replicate RAMBLOCK_SIZE 0"] ok show ?thesis
    unfolding Let_def by (metis length_replicate)
qed

text \<open>
  A sector number is shifted in 32 bits: beyond the announced capacity, sector 2^23 is sector 0 again,
  and nothing in the driver refuses it.
\<close>

lemma ramblock_sector_wraps:
  "ramblock_transfer mem (r\<lparr>rq_sector := 0x800000\<rparr>) = (case ramblock_transfer mem (r\<lparr>rq_sector := 0\<rparr>) of
     Inl e \<Rightarrow> Inl e | Inr (mem', r') \<Rightarrow> Inr (mem', r'\<lparr>rq_sector := 0x800000\<rparr>))"
  by (simp add: ramblock_transfer_def Let_def)

subsection \<open>Resources\<close>

definition ramblock_granted :: "kenv \<Rightarrow> u32 \<Rightarrow> u32 \<Rightarrow> u32 \<Rightarrow> u32 \<Rightarrow> bool" where
  "ramblock_granted env m d q b \<longleftrightarrow> 0 \<le> sint m \<and> d \<noteq> NULL \<and> q \<noteq> NULL \<and>
     always env ''register_blkdev'' m \<and> always env ''alloc_disk'' d \<and> always env ''blk_init_queue'' q \<and>
     always env ''kzalloc'' b"

definition ramblock_held :: "u32 \<Rightarrow> u32 \<Rightarrow> u32 \<Rightarrow> kres list" where
  "ramblock_held m d q =
     [(''blk_init_queue'', [Sym ''do_ramblock_request'', Sym ''&ramblock_lock''], q),
      (''alloc_disk'', [Num 16], d), (''register_blkdev'', [Num 0, Str ''ramblock''], m)]"

text \<open>When the buffer cannot be allocated init returns -ENOMEM and keeps disk, queue and major number.\<close>

lemma ramblock_init_nomem:
  assumes "ramblock_granted env m d q NULL"
  shows "result (ramblock_init env) s = - ENOMEM \<and> held (exec (ramblock_init env) s) = ramblock_held m d q @ held s"
  using assms
  by (cases "ghost (trace s)")
    (simp add: ramblock_granted_def always_def ramblock_init_def ramblock_held_def held_def allocates_def ghost_simps)

lemma ramblock_init_ok:
  assumes "ramblock_granted env m d q b" "b \<noteq> NULL"
  shows "\<exists>r. ghost (trace (exec (ramblock_init env) s)) =
      ((''add_disk'', [Num d], r) # (''kzalloc'', [Num 0x100000, Sym ''GFP_KERNEL''], b) #
        ramblock_held m d q @ held s, viol s)"
    and "rb_major (exec (ramblock_init env) s) = m" "ramblock_gendisk (exec (ramblock_init env) s) = d"
    "ramblock_request_queue (exec (ramblock_init env) s) = q" "ramblock_buf (exec (ramblock_init env) s) = b"
  using assms
  by (cases "ghost (trace s)"; simp add: ramblock_granted_def always_def ramblock_init_def ramblock_held_def
      held_def viol_def allocates_def RAMBLOCK_SIZE_def ghost_simps)+

text \<open>
  The geometry reported to the kernel describes exactly the announced capacity. Unloading leaves one
  reference to the disk behind, the \<^verbatim>\<open>put_disk\<close> that is commented out, and returns everything else.
\<close>

theorem ramblock_leaks_disk:
  assumes "ramblock_granted env m d q b" "b \<noteq> NULL"
  shows "heads ramblock_getgeo * cylinders ramblock_getgeo * sectors ramblock_getgeo * 512 = RAMBLOCK_SIZE \<and>
    held (exec (do { _ \<leftarrow> ramblock_init env; ramblock_exit env }) s) = (''alloc_disk'', [Num 16], d) # held s \<and>
    viol (exec (do { _ \<leftarrow> ramblock_init env; ramblock_exit env }) s) = viol s"
proof -
  let ?t = "exec (ramblock_init env) s"
  obtain r where g: "ghost (trace ?t) = ((''add_disk'', [Num d], r) #
      (''kzalloc'', [Num 0x100000, Sym ''GFP_KERNEL''], b) # ramblock_held m d q @ held s, viol s)"
    using ramblock_init_ok(1) [OF assms] by blast
  have "ghost (trace (exec (ramblock_exit env) ?t)) = ((''alloc_disk'', [Num 16], d) # held s, viol s)"
    using g assms(2) by (simp add: ramblock_exit_def ramblock_init_ok(2-5) [OF assms] ramblock_held_def ghost_simps)
  then show ?thesis
    by (simp add: exec_bind held_def viol_def ramblock_getgeo_def RAMBLOCK_SIZE_def del: run_state_bind)
qed

definition ramblock_start :: ramblock_drv where
  "ramblock_start = \<lparr>trace = [], ramblock_gendisk = 0, ramblock_request_queue = 0, rb_major = 0, ramblock_buf = 0\<rparr>"

theorem ramblock_leaks_disk_witness:
  "ramblock_granted (\<lambda>n q. 254) 254 254 254 254 \<and>
   held (exec (do { _ \<leftarrow> ramblock_init (\<lambda>n q. 254); ramblock_exit (\<lambda>n q. 254) }) ramblock_start) =
     [(''alloc_disk'', [Num 16], 254)]"
proof -
  have g: "ramblock_granted (\<lambda>n q. 254) 254 254 254 254" by (simp add: ramblock_granted_def always_def)
  have "held ramblock_start = []" by (simp add: ramblock_start_def held_def ghost_def)
  with ramblock_leaks_disk [OF g, of ramblock_start] g show ?thesis by simp
qed

end
