(* ===== verification/Flash.thy ===== *)
theory Flash
  imports Kernel
begin

section \<open>s3c_nand and s3c_nor: the flash drivers\<close>

text \<open>
  \<^verbatim>\<open>14th_nand/s3c_nand.c\<close> gives the NAND core of the kernel four functions that drive the controller;
  \<^verbatim>\<open>15th_nor/s3c_nor.c\<close> maps a NOR chip and lets the kernel probe it. The constants \<^verbatim>\<open>NAND_CMD_NONE\<close> and
  \<^verbatim>\<open>NAND_CLE\<close> of the kernel headers are the parameters \<open>none\<close> and \<open>cle\<close>.
\<close>

record mtd_partition =
  part_name :: string
  part_size :: karg
  part_offset :: karg

definition s3c_nand_parts :: "mtd_partition list" where
  "s3c_nand_parts =
     [\<lparr>part_name = ''uboot'', part_size = Num 0x00040000, part_offset = Num 0\<rparr>,
      \<lparr>part_name = ''params'', part_size = Num 0x00020000, part_offset = Sym ''MTDPART_OFS_APPEND''\<rparr>,
      \<lparr>part_name = ''kernel'', part_size = Num 0x00200000, part_offset = Sym ''MTDPART_OFS_APPEND''\<rparr>,
      \<lparr>part_name = ''rootfs'', part_size = Sym ''MTDPART_SIZ_FULL'', part_offset = Sym ''MTDPART_OFS_APPEND''\<rparr>]"

record s3c_nand = kworld +
  s3c_nand_regs :: u32
  s3c_nand_chip :: u32
  nand_mtd_info :: u32

text \<open>The offsets of \<^verbatim>\<open>struct s3c_nand_regs\<close>, whose size is 64.\<close>

abbreviation (input) nfconf :: "u32 \<Rightarrow> u32" where "nfconf p \<equiv> p"
abbreviation (input) nfcont :: "u32 \<Rightarrow> u32" where "nfcont p \<equiv> p + 4"
abbreviation (input) nfcmd :: "u32 \<Rightarrow> u32" where "nfcmd p \<equiv> p + 8"
abbreviation (input) nfaddr :: "u32 \<Rightarrow> u32" where "nfaddr p \<equiv> p + 12"
abbreviation (input) nfstat :: "u32 \<Rightarrow> u32" where "nfstat p \<equiv> p + 32"

definition s3c2440_select_chip :: "kenv \<Rightarrow> u32 \<Rightarrow> (s3c_nand, unit) state" where
  "s3c2440_select_chip env chipnr = do {
     p \<leftarrow> gets s3c_nand_regs;
     (if chipnr = - 1 then reg_set env (nfcont p) (push_bit 1 1)
      else if chipnr = 0 then reg_clear env (nfcont p) (push_bit 1 1)
      else skip) }"

definition s3c2440_cmd_ctrl :: "u32 \<Rightarrow> u32 \<Rightarrow> u32 \<Rightarrow> u32 \<Rightarrow> (s3c_nand, unit) state" where
  "s3c2440_cmd_ctrl none cle cmd_or_addr ctrl =
     (if cmd_or_addr = none then skip else do {
        p \<leftarrow> gets s3c_nand_regs;
        (if ctrl AND cle \<noteq> 0 then wr (nfcmd p) cmd_or_addr else wr (nfaddr p) cmd_or_addr) })"

definition s3c2440_dev_ready :: "kenv \<Rightarrow> (s3c_nand, u32) state" where
  "s3c2440_dev_ready env = do {
     p \<leftarrow> gets s3c_nand_regs;
     v \<leftarrow> rd env (nfstat p);
     ret (v AND push_bit 0 1) }"

definition s3c_nand_init :: "kenv \<Rightarrow> (s3c_nand, u32) state" where
  "s3c_nand_init env = do {
     chip \<leftarrow> call env ''kzalloc'' [Sym ''sizeof(struct nand_chip)'', Sym ''GFP_KERNEL''];
     modify (\<lambda>s. s\<lparr>s3c_nand_chip := chip\<rparr>);
     p \<leftarrow> call env ''ioremap'' [Num 0x4E000000, Num 64];
     modify (\<lambda>s. s\<lparr>s3c_nand_regs := p\<rparr>);
     use chip; use chip; use chip; use chip; use chip; use chip;
     clk \<leftarrow> call env ''clk_get'' [Num NULL, Str ''nand''];
     callv env ''clk_enable'' [Num clk];
     wr (nfconf p) (push_bit 4 0 OR push_bit 8 1 OR push_bit 12 0);
     wr (nfcont p) (push_bit 1 1 OR push_bit 0 1);
     mtd \<leftarrow> call env ''kzalloc'' [Sym ''sizeof(struct mtd_info)'', Sym ''GFP_KERNEL''];
     modify (\<lambda>s. s\<lparr>nand_mtd_info := mtd\<rparr>);
     use mtd; use mtd;
     callv env ''nand_scan'' [Num mtd, Num 1];
     callv env ''add_mtd_partitions'' [Num mtd, Sym ''s3c_nand_parts'', Num 4];
     ret 0 }"

definition s3c_nand_exit :: "kenv \<Rightarrow> (s3c_nand, unit) state" where
  "s3c_nand_exit env = do {
     p \<leftarrow> gets s3c_nand_regs;
     callv env ''iounmap'' [Num p];
     mtd \<leftarrow> gets nand_mtd_info;
     callv env ''del_mtd_partitions'' [Num mtd];
     chip \<leftarrow> gets s3c_nand_chip;
     callv env ''kfree'' [Num chip];
     callv env ''kfree'' [Num mtd] }"

subsection \<open>NOR\<close>

definition s3c_nor_part :: "mtd_partition list" where
  "s3c_nor_part =
     [\<lparr>part_name = ''bootloader'', part_size = Num 0x00040000, part_offset = Num 0\<rparr>,
      \<lparr>part_name = ''root_nor'', part_size = Sym ''MTDPART_SIZ_FULL'', part_offset = Sym ''MTDPART_OFS_APPEND''\<rparr>]"

record s3c_nor = kworld +
  s3c_nor_map :: u32
  nor_map_virt :: u32
  nor_mtd_info :: u32

definition s3c_nor_init :: "kenv \<Rightarrow> (s3c_nor, u32) state" where
  "s3c_nor_init env = do {
     m \<leftarrow> call env ''kzalloc'' [Sym ''sizeof(struct map_info)'', Sym ''GFP_KERNEL''];
     modify (\<lambda>s. s\<lparr>s3c_nor_map := m\<rparr>);
     use m; use m; use m; use m; use m;
     v \<leftarrow> call env ''ioremap'' [Num 0, Num 0x1000000];
     modify (\<lambda>s. s\<lparr>nor_map_virt := v\<rparr>);
     callv env ''simple_map_init'' [Num m];
     printk env ''Use cfi_probe'';
     i1 \<leftarrow> call env ''do_map_probe'' [Str ''cfi_probe'', Num m];
     modify (\<lambda>s. s\<lparr>nor_mtd_info := i1\<rparr>);
     (if i1 = NULL then do {
        printk env ''Use jedec_probe'';
        i2 \<leftarrow> call env ''do_map_probe'' [Str ''jedec_probe'', Num m];
        modify (\<lambda>s. s\<lparr>nor_mtd_info := i2\<rparr>) } else skip);
     i \<leftarrow> gets nor_mtd_info;
     (if i = NULL then do {
        callv env ''kfree'' [Num m];
        use m;
        callv env ''iounmap'' [Num v];
        printk env ''can't probe the NOR FLASH'';
        ret (- EIO) }
      else do {
        callv env ''add_mtd_partitions'' [Num i, Sym ''s3c_nor_part'', Num 2];
        ret 0 }) }"

definition s3c_nor_exit :: "kenv \<Rightarrow> (s3c_nor, unit) state" where
  "s3c_nor_exit env = do {
     m \<leftarrow> gets s3c_nor_map;
     callv env ''kfree'' [Num m];
     use m;
     v \<leftarrow> gets nor_map_virt;
     callv env ''iounmap'' [Num v];
     i \<leftarrow> gets nor_mtd_info;
     callv env ''del_mtd_partitions'' [Num i] }"

subsection \<open>What the NAND chip sees\<close>

datatype nand_op = Nand_select u32 | Nand_ctrl u32 u32 | Nand_ready

fun nand_do :: "kenv \<Rightarrow> u32 \<Rightarrow> u32 \<Rightarrow> nand_op \<Rightarrow> (s3c_nand, unit) state" where
  "nand_do env none cle (Nand_select n) = s3c2440_select_chip env n"
| "nand_do env none cle (Nand_ctrl v ctrl) = s3c2440_cmd_ctrl none cle v ctrl"
| "nand_do env none cle Nand_ready = do { _ \<leftarrow> s3c2440_dev_ready env; skip }"

text \<open>The chip sees its enable line (active when bit 1 of NFCONT is 0), command and address cycles.\<close>

datatype bus_cycle = Enable bool | Command u32 | Address u32

fun bus :: "u32 \<Rightarrow> kevent list \<Rightarrow> bus_cycle list" where
  "bus p [] = []"
| "bus p (Wr a v # es) =
     (if a = nfcont p then [Enable (\<not> bit v 1)] else if a = nfcmd p then [Command v]
      else if a = nfaddr p then [Address v] else []) @ bus p es"
| "bus p (_ # es) = bus p es"

lemma bus_append: "bus p (es @ fs) = bus p es @ bus p fs"
  by (induction p es rule: bus.induct) simp_all

fun nand_cycles :: "u32 \<Rightarrow> u32 \<Rightarrow> nand_op \<Rightarrow> bus_cycle list" where
  "nand_cycles none cle (Nand_select n) =
     (if n = - 1 then [Enable False] else if n = 0 then [Enable True] else [])"
| "nand_cycles none cle (Nand_ctrl v ctrl) =
     (if v = none then [] else if ctrl AND cle \<noteq> 0 then [Command v] else [Address v])"
| "nand_cycles none cle Nand_ready = []"

lemma bit1_or_2: "bit (v OR 2 :: u32) 1" "\<not> bit (v AND NOT 2 :: u32) 1"
  by (simp_all add: bit_or_iff bit_and_iff bit_not_iff)

lemma nand_do_bus:
  "bus (s3c_nand_regs s) (trace (exec (nand_do env none cle x) s)) =
     bus (s3c_nand_regs s) (trace s) @ nand_cycles none cle x"
  "s3c_nand_regs (exec (nand_do env none cle x) s) = s3c_nand_regs s"
  by (cases x; simp add: s3c2440_select_chip_def s3c2440_cmd_ctrl_def s3c2440_dev_ready_def bus_append
      Let_def bit1_or_2 [simplified])+

text \<open>
  C29. Whatever sequence of chip selects, control calls and ready queries the NAND core makes, the chip
  sees exactly the corresponding cycles in that order: every byte once, as a command when the
  command latch bit is set and as an address otherwise, nothing for the empty command, and its
  enable line follows the selects.
\<close>

theorem nand_bus_correct:
  "bus (s3c_nand_regs s) (trace (exec (each (nand_do env none cle) xs) s)) =
     bus (s3c_nand_regs s) (trace s) @ concat (map (nand_cycles none cle) xs)"
proof (induction xs arbitrary: s)
  case (Cons x xs)
  from Cons.IH [of "exec (nand_do env none cle x) s"] show ?case
    by (simp add: exec_bind nand_do_bus del: run_state_bind)
qed simp

subsection \<open>Resources\<close>

definition nand_granted :: "kenv \<Rightarrow> u32 \<Rightarrow> u32 \<Rightarrow> u32 \<Rightarrow> u32 \<Rightarrow> bool" where
  "nand_granted env chip p clk mtd \<longleftrightarrow> chip \<noteq> NULL \<and> p \<noteq> NULL \<and> clk \<noteq> NULL \<and> mtd \<noteq> NULL \<and> chip \<noteq> mtd \<and>
     (\<forall>n. env n (QCall ''kzalloc'' [Sym ''sizeof(struct nand_chip)'', Sym ''GFP_KERNEL'']) = chip \<and>
          env n (QCall ''kzalloc'' [Sym ''sizeof(struct mtd_info)'', Sym ''GFP_KERNEL'']) = mtd) \<and>
     always env ''ioremap'' p \<and> always env ''clk_get'' clk \<and> always env ''clk_enable'' 0 \<and>
     always env ''add_mtd_partitions'' 0"

definition nand_fits :: "u32 \<Rightarrow> bool" where
  "nand_fits p \<longleftrightarrow> unat p + 64 \<le> 2 ^ 32"

lemma nand_maps:
  assumes "nand_fits p"
  shows "maps (''ioremap'', [Num a, Num 64], p) p" "maps (''ioremap'', [Num a, Num 64], p) (p + 4)"
proof -
  have "unat (p + 4) = unat p + 4" using assms by (simp add: nand_fits_def unat_word_ariths)
  then show "maps (''ioremap'', [Num a, Num 64], p) p" "maps (''ioremap'', [Num a, Num 64], p) (p + 4)"
    by (simp_all add: maps_def)
qed

text \<open>
  Loading and unloading the NAND driver returns the two objects, the mapping and the partitions, but
  leaves the controller's clock enabled and referenced.
\<close>

theorem nand_leaks_clock:
  assumes "nand_granted env chip p clk mtd" "nand_fits p"
  shows "held (exec (do { _ \<leftarrow> s3c_nand_init env; s3c_nand_exit env }) s) =
      [(''clk_enable'', [Num clk], 0), (''clk_get'', [Num NULL, Str ''nand''], clk)] @ held s \<and>
    viol (exec (do { _ \<leftarrow> s3c_nand_init env; s3c_nand_exit env }) s) = viol s"
  using assms(1) nand_maps [OF assms(2)]
  by (cases "ghost (trace s)")
    (simp add: nand_granted_def always_def s3c_nand_init_def s3c_nand_exit_def held_def viol_def
      allocates_def ghost_simps)

definition nand_start :: s3c_nand where
  "nand_start = \<lparr>trace = [], s3c_nand_regs = 0, s3c_nand_chip = 0, nand_mtd_info = 0\<rparr>"

theorem nand_leaks_clock_witness:
  "let env = (\<lambda>n q. case q of QCall f xs \<Rightarrow> if f = ''clk_enable'' \<or> f = ''add_mtd_partitions'' then 0
       else if f = ''kzalloc'' \<and> xs = [Sym ''sizeof(struct nand_chip)'', Sym ''GFP_KERNEL''] then 8 else 16 | _ \<Rightarrow> 0) in
   nand_granted env 8 16 16 16 \<and>
   held (exec (do { _ \<leftarrow> s3c_nand_init env; s3c_nand_exit env }) nand_start) =
     [(''clk_enable'', [Num 16], 0), (''clk_get'', [Num NULL, Str ''nand''], 16)]"
proof -
  let ?env = "\<lambda>(n :: nat) q. case q of QCall f xs \<Rightarrow> if f = ''clk_enable'' \<or> f = ''add_mtd_partitions'' then 0
       else if f = ''kzalloc'' \<and> xs = [Sym ''sizeof(struct nand_chip)'', Sym ''GFP_KERNEL''] then 8 else 16 | _ \<Rightarrow> (0 :: u32)"
  have g: "nand_granted ?env 8 16 16 16" by (simp add: nand_granted_def always_def)
  have "nand_fits 16" by (simp add: nand_fits_def)
  moreover have "held nand_start = []" by (simp add: nand_start_def held_def ghost_def)
  ultimately show ?thesis using nand_leaks_clock [OF g, of nand_start] g by (simp add: Let_def)
qed

definition nor_granted :: "kenv \<Rightarrow> u32 \<Rightarrow> u32 \<Rightarrow> u32 \<Rightarrow> bool" where
  "nor_granted env m v i \<longleftrightarrow> m \<noteq> NULL \<and> v \<noteq> NULL \<and>
     always env ''kzalloc'' m \<and> always env ''ioremap'' v \<and> always env ''do_map_probe'' i \<and>
     always env ''add_mtd_partitions'' 0"

text \<open>
  The NOR driver reads the virtual address out of its map object after it has freed that object:
  once on unloading, and also on loading when no chip answers the two probes (which returns
  -EIO). Apart from that use after free both paths return everything.
\<close>

theorem nor_use_after_free:
  fixes s :: s3c_nor
  assumes "nor_granted env m v i" and "\<not> list_ex (\<lambda>x. allocates x m) (held s)"
  defines "t \<equiv> (if i = NULL then exec (s3c_nor_init env) s
                 else exec (do { _ \<leftarrow> s3c_nor_init env; s3c_nor_exit env }) s)"
  shows "result (s3c_nor_init env) s = (if i = NULL then - EIO else 0) \<and>
    held t = held s \<and> viol t = viol s @ [Use m]"
proof (cases "i = NULL")
  case True
  then show ?thesis using assms(1,2) unfolding t_def
    by (cases "ghost (trace s)")
      (simp add: nor_granted_def always_def s3c_nor_init_def held_def viol_def ghost_simps
        allocates_def [of "(''kzalloc'', xs, r)" for xs r] allocates_def [of "(''ioremap'', xs, r)" for xs r])
next
  case False
  then show ?thesis using assms(1,2) unfolding t_def
    by (cases "ghost (trace s)")
      (simp add: nor_granted_def always_def s3c_nor_init_def s3c_nor_exit_def held_def viol_def ghost_simps
        allocates_def [of "(''kzalloc'', xs, r)" for xs r] allocates_def [of "(''ioremap'', xs, r)" for xs r]
        allocates_def [of "(''add_mtd_partitions'', xs, r)" for xs r])
qed

definition nor_start :: s3c_nor where
  "nor_start = \<lparr>trace = [], s3c_nor_map = 0, nor_map_virt = 0, nor_mtd_info = 0\<rparr>"

theorem nor_use_after_free_witness:
  "let env = (\<lambda>n q. case q of QCall f xs \<Rightarrow> if f = ''do_map_probe'' \<or> f = ''add_mtd_partitions'' then 0 else 8 | _ \<Rightarrow> 0) in
   nor_granted env 8 8 NULL \<and> viol (exec (s3c_nor_init env) nor_start) = [Use 8]"
proof -
  let ?env = "\<lambda>(n :: nat) q. case q of QCall f xs \<Rightarrow> if f = ''do_map_probe'' \<or> f = ''add_mtd_partitions''
      then 0 else 8 | _ \<Rightarrow> (0 :: u32)"
  have g: "nor_granted ?env 8 8 NULL" by (simp add: nor_granted_def always_def)
  have "held nor_start = []" "viol nor_start = []" by (simp_all add: nor_start_def held_def viol_def ghost_def)
  with nor_use_after_free [OF g, of nor_start] g show ?thesis by (simp add: Let_def)
qed

end
