(* ===== verification/Net.thy ===== *)
theory Net
  imports Kernel
begin

section \<open>virt_net: a virtual network card\<close>

text \<open>
  \<^verbatim>\<open>16th_virt_net/virt_net.c\<close>: a card that counts the packets it is given and drops them. The
  statistics of the kernel's \<^verbatim>\<open>struct net_device\<close> that the driver updates are part of the state.
\<close>

record virt_net = kworld +
  virt_net_dev :: u32
  vn_hard_start_xmit :: string
  vn_dev_addr :: "u8 list"
  vn_tx_packets :: u32
  vn_tx_bytes :: u32
  vn_cnt :: u32

definition my_hard_start_xmit :: "kenv \<Rightarrow> u32 \<Rightarrow> u32 \<Rightarrow> (virt_net, u32) state" where
  "my_hard_start_xmit env skb_len dev = do {
     modify (\<lambda>s. s\<lparr>vn_cnt := vn_cnt s + 1\<rparr>);
     c \<leftarrow> gets vn_cnt;
     callv env ''printk'' [Str ''my_hard_start_xmit cnt = %d'', Num c];
     use dev;
     modify (\<lambda>s. s\<lparr>vn_tx_packets := vn_tx_packets s + 1\<rparr>);
     use dev;
     modify (\<lambda>s. s\<lparr>vn_tx_bytes := skb_len\<rparr>);
     ret 0 }"

definition virt_net_init :: "kenv \<Rightarrow> (virt_net, u32) state" where
  "virt_net_init env = do {
     d \<leftarrow> call env ''alloc_netdev'' [Num 0, Str ''myVnet%d'', Sym ''ether_setup''];
     modify (\<lambda>s. s\<lparr>virt_net_dev := d\<rparr>);
     (if d = NULL then ret (- ENOMEM) else do {
        use d;
        modify (\<lambda>s. s\<lparr>vn_hard_start_xmit := ''my_hard_start_xmit''\<rparr>);
        use d;
        modify (\<lambda>s. s\<lparr>vn_dev_addr := [0x08, 0x88, 0x88, 0x88, 0x88, 0x88]\<rparr>);
        callv env ''register_netdev'' [Num d];
        ret 0 }) }"

definition virt_net_exit :: "kenv \<Rightarrow> (virt_net, unit) state" where
  "virt_net_exit env = do {
     d \<leftarrow> gets virt_net_dev;
     callv env ''unregister_netdev'' [Num d];
     callv env ''free_netdev'' [Num d] }"

text \<open>The one operation between init and exit: a packet of length \<open>len\<close> is handed to the card.\<close>

definition virt_net_packet :: "kenv \<Rightarrow> u32 \<Rightarrow> (virt_net, u32) state" where
  "virt_net_packet env len = do { d \<leftarrow> gets virt_net_dev; my_hard_start_xmit env len d }"

subsection \<open>Statistics\<close>

lemma packet_stats:
  "vn_tx_packets (exec (virt_net_packet env len) s) = vn_tx_packets s + 1"
  "vn_tx_bytes (exec (virt_net_packet env len) s) = len"
  by (simp_all add: virt_net_packet_def my_hard_start_xmit_def)

text \<open>
  C30. After a sequence of packets \<^verbatim>\<open>tx_packets\<close> has grown by their number, modulo \<open>2 ^ 32\<close>, but \<^verbatim>\<open>tx_bytes\<close>
  is the length of the last packet alone and not the total that the statistics of a network card
  count.
\<close>

theorem virt_net_stats:
  "let t = exec (each (\<lambda>l. do { _ \<leftarrow> virt_net_packet env l; skip }) ls) s in
   vn_tx_packets t = vn_tx_packets s + of_nat (length ls) \<and>
   vn_tx_bytes t = (if ls = [] then vn_tx_bytes s else last ls)"
  unfolding Let_def
  by (induction ls arbitrary: s) (simp_all add: exec_bind packet_stats del: run_state_bind)

subsection \<open>Resources\<close>

definition virt_net_granted :: "virt_net \<Rightarrow> bool" where
  "virt_net_granted s \<longleftrightarrow> virt_net_dev s \<noteq> NULL \<and>
     list_ex (\<lambda>x. x = (''register_netdev'', [Num (virt_net_dev s)], 0)) (take 1 (held s))"

definition virt_net_loaded :: "kres list \<Rightarrow> virt_net \<Rightarrow> bool" where
  "virt_net_loaded R s \<longleftrightarrow> virt_net_dev s \<noteq> NULL \<and> held s =
     [(''register_netdev'', [Num (virt_net_dev s)], 0),
      (''alloc_netdev'', [Num 0, Str ''myVnet%d'', Sym ''ether_setup''], virt_net_dev s)] @ R"

lemma virt_net_init_ghost:
  assumes "virt_net_granted (exec (virt_net_init env) s)"
  shows "virt_net_loaded (held s) (exec (virt_net_init env) s)"
    "viol (exec (virt_net_init env) s) = viol s"
  using assms
  by (cases "ghost (trace s)";
      simp add: virt_net_granted_def virt_net_loaded_def virt_net_init_def held_def viol_def allocates_def
        ghost_simps split: if_splits)+

lemma virt_net_packet_ghost:
  assumes "virt_net_loaded R s"
  shows "virt_net_loaded R (exec (virt_net_packet env l) s)" "viol (exec (virt_net_packet env l) s) = viol s"
  using assms
  by (cases "ghost (trace s)";
      simp add: virt_net_loaded_def virt_net_packet_def my_hard_start_xmit_def held_def viol_def allocates_def
        ghost_simps)+

lemma virt_net_exit_ghost:
  assumes "virt_net_loaded R s"
  shows "held (exec (virt_net_exit env) s) = R" "viol (exec (virt_net_exit env) s) = viol s"
  using assms
  by (cases "ghost (trace s)";
      simp add: virt_net_loaded_def virt_net_exit_def held_def viol_def ghost_simps)+

interpretation net_mod: safe_kmodule virt_net_init virt_net_packet virt_net_exit virt_net_granted virt_net_loaded
  by unfold_locales
    (simp_all add: virt_net_init_ghost virt_net_packet_ghost virt_net_exit_ghost)

text \<open>
  A complete life of the virtual card, load, any packets, unload, returns the device and its
  registration and uses the device only while it exists.
\<close>

theorem virt_net_session_safe:
  "virt_net_granted (exec (virt_net_init env) s) \<Longrightarrow>
   held (exec (session virt_net_init virt_net_packet virt_net_exit env ls) s) = held s \<and>
   viol (exec (session virt_net_init virt_net_packet virt_net_exit env ls) s) = viol s"
  by (intro conjI net_mod.session_balanced net_mod.session_safe)

definition net_start :: virt_net where
  "net_start = \<lparr>trace = [], virt_net_dev = 0, vn_hard_start_xmit = [], vn_dev_addr = [], vn_tx_packets = 0,
     vn_tx_bytes = 0, vn_cnt = 0\<rparr>"

theorem virt_net_session_safe_witness:
  "let env = (\<lambda>n q. if n = 0 then 0x1000 else 0) in
   virt_net_granted (exec (virt_net_init env) net_start) \<and>
   held (exec (session virt_net_init virt_net_packet virt_net_exit env [60, 1500]) net_start) = []"
proof -
  let ?env = "\<lambda>(n :: nat) (q :: kreq). if n = 0 then 0x1000 else (0 :: u32)"
  have g: "virt_net_granted (exec (virt_net_init ?env) net_start)"
    by (simp add: virt_net_granted_def virt_net_init_def net_start_def held_def ghost_def allocates_def ghost_simps)
  have "held net_start = []" by (simp add: net_start_def held_def ghost_def)
  with virt_net_session_safe [OF g, of "[60, 1500]"] g show ?thesis by (simp add: Let_def)
qed

end
