(* ===== verification/I2c.thy ===== *)
theory I2c
  imports Kernel
begin

section \<open>at24cxx: an EEPROM on the I2C bus\<close>

text \<open>
  \<^verbatim>\<open>19th_i2c_drv/at24cxx.c\<close>. The bus and the chip are reached through \<^verbatim>\<open>i2c_transfer\<close>, whose messages are
  recorded in the trace. \<open>eeprom\<close> says of a trace that the chip behaves as a memory, the documented
  behaviour of the part, in the way \<open>reads_back\<close> does for a register.
\<close>

record at24cxx = kworld +
  at24_cls :: u32
  at24cxx_client :: u32
  client_addr :: u32
  client_adapter :: u32
  client_driver :: string
  client_name :: string
  at24_major :: u32

text \<open>The messages of a transfer: destination, flags, and the bytes written or the number read.\<close>

definition msg_write :: "u32 \<Rightarrow> u8 list \<Rightarrow> karg list" where
  "msg_write addr bs = [Num addr, Num 0, Bytes bs]"

definition msg_read :: "u32 \<Rightarrow> u32 \<Rightarrow> karg list" where
  "msg_read addr n = [Num addr, Sym ''I2C_M_RD'', Num n]"

definition at24cxx_read :: "kenv \<Rightarrow> u32 \<Rightarrow> u32 \<Rightarrow> (at24cxx, u32) state" where
  "at24cxx_read env buf sz = (if sz \<noteq> 1 then ret (- EINVAL) else do {
     r \<leftarrow> call env ''copy_from_user'' [Obj ''address'' 1, Num buf, Num 1];
     (if r \<noteq> 0 then ret (- 1) else do {
     address \<leftarrow> out env ''copy_from_user'' 0;
     c \<leftarrow> gets at24cxx_client;
     use c;
     addr \<leftarrow> gets client_addr;
     adapter \<leftarrow> gets client_adapter;
     n \<leftarrow> call env ''i2c_transfer'' ([Num adapter] @ msg_write addr [ucast address] @ msg_read addr 1 @ [Num 2]);
     (if n \<noteq> 2 then ret (- EIO) else do {
     data \<leftarrow> out env ''i2c_transfer'' 0;
     r2 \<leftarrow> call env ''copy_to_user'' [Num buf, Bytes [ucast data], Num 1];
     (if r2 \<noteq> 0 then ret (- 1) else ret n) }) }) })"

definition at24cxx_write :: "kenv \<Rightarrow> u32 \<Rightarrow> u32 \<Rightarrow> (at24cxx, u32) state" where
  "at24cxx_write env buf sz = (if sz \<noteq> 2 then ret (- EINVAL) else do {
     r \<leftarrow> call env ''copy_from_user'' [Obj ''val'' 2, Num buf, Num 2];
     (if r \<noteq> 0 then ret (- 1) else do {
     v0 \<leftarrow> out env ''copy_from_user'' 0;
     v1 \<leftarrow> out env ''copy_from_user'' 1;
     c \<leftarrow> gets at24cxx_client;
     use c;
     addr \<leftarrow> gets client_addr;
     adapter \<leftarrow> gets client_adapter;
     n \<leftarrow> call env ''i2c_transfer'' ([Num adapter] @ msg_write addr [ucast v0, ucast v1] @ [Num 1]);
     (if n \<noteq> 1 then ret (- EIO) else ret n) }) })"

definition at24cxx_detect :: "kenv \<Rightarrow> u32 \<Rightarrow> u32 \<Rightarrow> u32 \<Rightarrow> (at24cxx, u32) state" where
  "at24cxx_detect env adapter address kind = do {
     printk env ''at24cxx detect is being called'';
     c \<leftarrow> call env ''kzalloc'' [Sym ''sizeof(struct i2c_client)'', Sym ''GFP_KERNEL''];
     modify (\<lambda>s. s\<lparr>at24cxx_client := c\<rparr>);
     (if c = NULL then ret (- ENOMEM) else do {
     use c;
     modify (\<lambda>s. s\<lparr>client_addr := address\<rparr>);
     use c;
     modify (\<lambda>s. s\<lparr>client_adapter := adapter\<rparr>);
     use c;
     modify (\<lambda>s. s\<lparr>client_driver := ''&at24cxx_driver''\<rparr>);
     use c;
     modify (\<lambda>s. s\<lparr>client_name := ''at24cxx''\<rparr>);
     r \<leftarrow> call env ''i2c_attach_client'' [Num c];
     (if r \<noteq> 0 then ret (- 1) else do {
     m \<leftarrow> call env ''register_chrdev'' [Num 0, Str ''at24cxx'', Sym ''&at24cxx_ops''];
     modify (\<lambda>s. s\<lparr>at24_major := m\<rparr>);
     (if sint m < 0 then printk env ''Failed to register character device.'' else skip);
     cls \<leftarrow> call env ''class_create'' [Sym ''THIS_MODULE'', Str ''at24cxx''];
     modify (\<lambda>s. s\<lparr>at24_cls := cls\<rparr>);
     e \<leftarrow> call env ''IS_ERR'' [Num cls];
     (if e \<noteq> 0 then ret (- 1) else do {
     callv env ''class_device_create'' [Num cls, Num NULL, Dev m 0, Num NULL, Str ''at24cxx''];
     ret 0 }) }) }) }"

definition at24cxx_attach_adapter :: "kenv \<Rightarrow> u32 \<Rightarrow> (at24cxx, u32) state" where
  "at24cxx_attach_adapter env adapter =
     call env ''i2c_probe'' [Num adapter, Sym ''&addr_data'', Sym ''at24cxx_detect'']"

definition at24cxx_detach_client :: "kenv \<Rightarrow> u32 \<Rightarrow> (at24cxx, u32) state" where
  "at24cxx_detach_client env client = do {
     cls \<leftarrow> gets at24_cls;
     m \<leftarrow> gets at24_major;
     callv env ''class_device_destroy'' [Num cls, Dev m 0];
     callv env ''class_destroy'' [Num cls];
     callv env ''unregister_chrdev'' [Num m, Str ''at24cxx''];
     err \<leftarrow> call env ''i2c_detach_client'' [Num client];
     (if err \<noteq> 0 then ret err else do {
        d \<leftarrow> call env ''i2c_get_clientdata'' [Num client];
        callv env ''kfree'' [Num d];
        ret 0 }) }"

definition at24cxx_init :: "kenv \<Rightarrow> (at24cxx, u32) state" where
  "at24cxx_init env = call env ''i2c_add_driver'' [Sym ''&at24cxx_driver'']"

definition at24cxx_exit :: "kenv \<Rightarrow> (at24cxx, unit) state" where
  "at24cxx_exit env = callv env ''i2c_del_driver'' [Sym ''&at24cxx_driver'']"

subsection \<open>The chip as a memory\<close>

text \<open>
  A successful transfer of two written bytes stores the second at the address the first gives; a
  successful transfer that writes one byte and reads one yields, as its first result, the stored
  byte. \<open>chip\<close> is the content after a trace, \<open>eeprom\<close> says that all results were right. The pending
  read address is the third component while the trace is followed.
\<close>

fun chip_step :: "kevent \<Rightarrow> (u8 \<Rightarrow> u8) \<times> u8 option \<Rightarrow> (u8 \<Rightarrow> u8) \<times> u8 option" where
  "chip_step (Ev (QCall f xs) r) (m, p) =
     (if f = ''i2c_transfer'' then
        (case xs of
           [_, _, _, Bytes [a, v], _] \<Rightarrow> (if r = 1 then m(a := v) else m, None)
         | [_, _, _, Bytes [a], _, _, _, _] \<Rightarrow> (m, if r = 2 then Some a else None)
         | _ \<Rightarrow> (m, None))
      else (m, p))"
| "chip_step _ mp = mp"

definition chip_run :: "kevent list \<Rightarrow> (u8 \<Rightarrow> u8) \<times> u8 option \<Rightarrow> (u8 \<Rightarrow> u8) \<times> u8 option" where
  "chip_run es mp = fold chip_step es mp"

fun eeprom :: "kevent list \<Rightarrow> (u8 \<Rightarrow> u8) \<times> u8 option \<Rightarrow> bool" where
  "eeprom [] mp = True"
| "eeprom (Ev (QOut f i) d # es) (m, p) =
     ((f = ''i2c_transfer'' \<longrightarrow> (case p of None \<Rightarrow> True | Some a \<Rightarrow> ucast d = m a)) \<and> eeprom es (m, p))"
| "eeprom (e # es) mp = eeprom es (chip_step e mp)"

lemma eeprom_append: "eeprom (es @ fs) mp \<longleftrightarrow> eeprom es mp \<and> eeprom fs (chip_run es mp)"
  by (induction es mp rule: eeprom.induct) (auto simp: chip_run_def)

lemma chip_run_append: "chip_run (es @ fs) mp = chip_run fs (chip_run es mp)"
  by (simp add: chip_run_def)

lemma chip_run_simps [simp]: "chip_run [] mp = mp" "chip_run (e # es) mp = chip_run es (chip_step e mp)"
  by (simp_all add: chip_run_def)

lemmas at24_defs = at24cxx_read_def at24cxx_write_def msg_write_def msg_read_def

text \<open>What a user gets: the byte handed over by the last \<^verbatim>\<open>copy_to_user\<close> in a piece of trace.\<close>

fun given :: "kevent list \<Rightarrow> u8 list option" where
  "given [] = None"
| "given (Ev (QCall f xs) r # es) =
     (case given es of Some b \<Rightarrow> Some b
      | None \<Rightarrow> if f = ''copy_to_user'' then (case xs of [_, Bytes b, _] \<Rightarrow> Some b | _ \<Rightarrow> None) else None)"
| "given (_ # es) = given es"

lemma at24_read_ok:
  assumes "run_state (at24cxx_read env buf 1) s = (2, t)"
  defines "es \<equiv> drop (length (trace s)) (trace t)"
  defines "a \<equiv> ucast (env (Suc (length (trace s))) (QOut ''copy_from_user'' 0))"
  assumes "eeprom es (m, p)"
  shows "given es = Some [m a]" "fst (chip_run es (m, p)) = m" "\<exists>fs. trace t = trace s @ fs"
  using assms(1,4) unfolding es_def a_def
  by (auto simp: at24_defs split: if_splits)

lemma at24_write_ok:
  assumes "run_state (at24cxx_write env buf 2) s = (1, t)"
  defines "es \<equiv> drop (length (trace s)) (trace t)"
  defines "a \<equiv> ucast (env (Suc (length (trace s))) (QOut ''copy_from_user'' 0))"
  defines "v \<equiv> ucast (env (Suc (Suc (length (trace s)))) (QOut ''copy_from_user'' 1))"
  shows "fst (chip_run es (m, p)) = m(a := v)" "\<exists>fs. trace t = trace s @ fs"
  using assms(1) unfolding es_def a_def v_def
  by (auto simp: at24_defs split: if_splits)

lemma at24_read_keeps_chip:
  "\<exists>fs. trace (exec (at24cxx_read env buf sz) s) = trace s @ fs \<and> (\<forall>mp. fst (chip_run fs mp) = fst mp)"
proof -
  let ?t = "exec (at24cxx_read env buf sz) s"
  have "\<exists>fs. trace ?t = trace s @ fs" by (simp add: at24_defs)
  moreover have "fst (chip_run (drop (length (trace s)) (trace ?t)) (m, p)) = m" for m p
    by (simp add: at24_defs)
  ultimately show ?thesis by force
qed

lemma at24_reads_keep_chip:
  "\<exists>fs. trace (exec (each (\<lambda>(b, n). do { _ \<leftarrow> at24cxx_read env b n; skip }) rs) s) = trace s @ fs \<and>
     (\<forall>mp. fst (chip_run fs mp) = fst mp)"
proof (induction rs arbitrary: s)
  case (Cons r rs)
  obtain b n where r: "r = (b, n)" by (cases r)
  let ?t = "exec (at24cxx_read env b n) s"
  obtain fs where fs: "trace ?t = trace s @ fs" "\<forall>mp. fst (chip_run fs mp) = fst mp"
    using at24_read_keeps_chip by blast
  obtain gs where gs: "trace (exec (each (\<lambda>(b, n). do { _ \<leftarrow> at24cxx_read env b n; skip }) rs) ?t) = trace ?t @ gs"
    "\<forall>mp. fst (chip_run gs mp) = fst mp"
    using Cons.IH by blast
  show ?case
    by (rule exI [where x = "fs @ gs"]) (use fs gs in \<open>simp add: r exec_bind chip_run_append del: run_state_bind split_paired_All\<close>)
qed simp

text \<open>
  C24. What was written to the EEPROM is read back: after a successful write of a value to an address, and
  any number of reads in between, a successful read of that address hands the user that value,
  provided the chip behaves as a memory.
\<close>

theorem at24_roundtrip:
  fixes s :: at24cxx
  assumes w: "run_state (at24cxx_write env b1 2) s = (1, t)"
    and u: "u = exec (each (\<lambda>(b, n). do { _ \<leftarrow> at24cxx_read env b n; skip }) rs) t"
    and r: "run_state (at24cxx_read env b2 1) u = (2, x)"
    and same: "env (Suc (length (trace u))) (QOut ''copy_from_user'' 0) =
      env (Suc (length (trace s))) (QOut ''copy_from_user'' 0)"
    and chip: "eeprom (drop (length (trace s)) (trace x)) (m, None)"
  shows "given (drop (length (trace u)) (trace x)) =
    Some [ucast (env (Suc (Suc (length (trace s)))) (QOut ''copy_from_user'' 1))]"
proof -
  let ?a = "ucast (env (Suc (length (trace s))) (QOut ''copy_from_user'' 0)) :: u8"
  let ?v = "ucast (env (Suc (Suc (length (trace s)))) (QOut ''copy_from_user'' 1)) :: u8"
  obtain ws where ws: "trace t = trace s @ ws" using at24_write_ok(2) [OF w] by blast
  have mw: "fst (chip_run ws (m, None)) = m(?a := ?v)" using at24_write_ok(1) [OF w] ws by simp
  obtain fs where fs: "trace u = trace t @ fs" "\<forall>mp. fst (chip_run fs mp) = fst mp"
    unfolding u using at24_reads_keep_chip by blast
  have "\<exists>gs. trace x = trace u @ gs"
    using r by (auto simp: at24_defs split: if_splits)
  then obtain gs where gs: "trace x = trace u @ gs" by blast
  obtain p where mid: "chip_run (ws @ fs) (m, None) = (m(?a := ?v), p)"
    using mw fs(2) by (cases "chip_run (ws @ fs) (m, None)") (metis chip_run_append fst_conv)
  have "eeprom gs (m(?a := ?v), p)"
    using chip by (simp add: gs fs(1) ws eeprom_append mid flip: append_assoc)
  then have "given gs = Some [(m(?a := ?v)) (ucast (env (Suc (length (trace u))) (QOut ''copy_from_user'' 0)))]"
    using at24_read_ok(1) [OF r] gs by simp
  then show ?thesis using same gs by simp
qed

definition at24_start :: at24cxx where
  "at24_start = \<lparr>trace = [], at24_cls = 0, at24cxx_client = 8, client_addr = 0x50, client_adapter = 0,
     client_driver = [], client_name = [], at24_major = 0\<rparr>"

theorem at24_roundtrip_witness:
  "let env = (\<lambda>n q. case q of QCall f xs \<Rightarrow> if f = ''i2c_transfer'' then (if n < 6 then 1 else 2) else 0
       | QOut f i \<Rightarrow> if f = ''copy_from_user'' \<and> i = 0 then 5 else 77 | _ \<Rightarrow> 0);
     t = exec (at24cxx_write env 0x8000 2) at24_start; x = exec (at24cxx_read env 0x8000 1) t in
   eeprom (trace x) (\<lambda>_. 0, None) \<and> given (drop (length (trace t)) (trace x)) = Some [77]"
proof -
  let ?env = "\<lambda>(n :: nat) q. case q of QCall f xs \<Rightarrow> if f = ''i2c_transfer'' then (if n < 6 then 1 else 2) else 0
       | QOut f i \<Rightarrow> if f = ''copy_from_user'' \<and> i = 0 then 5 else 77 | _ \<Rightarrow> (0 :: u32)"
  let ?t = "exec (at24cxx_write ?env 0x8000 2) at24_start"
  let ?x = "exec (at24cxx_read ?env 0x8000 1) ?t"
  have w: "run_state (at24cxx_write ?env 0x8000 2) at24_start = (1, ?t)"
    by (simp add: at24_defs at24_start_def)
  have r: "run_state (at24cxx_read ?env 0x8000 1) ?t = (2, ?x)"
    by (simp add: at24_defs at24_start_def)
  have e: "eeprom (trace ?x) (\<lambda>_. 0, None)"
    by (simp add: at24_defs at24_start_def)
  have "given (drop (length (trace ?t)) (trace ?x)) = Some [ucast (77 :: u32)]"
    using at24_roundtrip [OF w _ r, of "[]" "\<lambda>_. 0"] e by (simp add: at24_start_def)
  with e show ?thesis unfolding Let_def by simp
qed

subsection \<open>Resources\<close>

definition at24_granted :: "kenv \<Rightarrow> u32 \<Rightarrow> u32 \<Rightarrow> u32 \<Rightarrow> u32 \<Rightarrow> bool" where
  "at24_granted env c m cls d \<longleftrightarrow> c \<noteq> NULL \<and> 0 \<le> sint m \<and> cls \<noteq> NULL \<and> d \<noteq> NULL \<and>
     always env ''kzalloc'' c \<and> always env ''i2c_attach_client'' 0 \<and> always env ''register_chrdev'' m \<and>
     always env ''class_create'' cls \<and> always env ''IS_ERR'' 0 \<and> always env ''class_device_create'' d \<and>
     always env ''i2c_detach_client'' 0 \<and> always env ''i2c_get_clientdata'' NULL"

text \<open>
  Detaching the EEPROM returns the device, the class, the major number and the attachment, but not
  the client object: it frees the client data, which was never set and is null, and leaks one
  client on every attach and detach.
\<close>

theorem at24_leaks_client:
  fixes s :: at24cxx and adapter address kind :: u32
  assumes "at24_granted env c m cls d"
  defines "t \<equiv> exec (do { _ \<leftarrow> at24cxx_detect env adapter address kind; at24cxx_detach_client env c }) s"
  shows "held t = (''kzalloc'', [Sym ''sizeof(struct i2c_client)'', Sym ''GFP_KERNEL''], c) # held s \<and>
    viol t = viol s"
  using assms(1) unfolding t_def
  by (cases "ghost (trace s)")
    (simp add: at24_granted_def always_def at24cxx_detect_def at24cxx_detach_client_def held_def viol_def
      allocates_def ghost_simps)

theorem at24_leaks_client_witness:
  "let env = (\<lambda>n q. case q of QCall f xs \<Rightarrow> if f = ''kzalloc'' \<or> f = ''register_chrdev'' \<or> f = ''class_create'' \<or>
       f = ''class_device_create'' then 9 else 0 | _ \<Rightarrow> 0) in
   at24_granted env 9 9 9 9 \<and>
   held (exec (do { _ \<leftarrow> at24cxx_detect env 0 0x50 0; at24cxx_detach_client env 9 }) at24_start) =
     [(''kzalloc'', [Sym ''sizeof(struct i2c_client)'', Sym ''GFP_KERNEL''], 9)]"
proof -
  let ?env = "\<lambda>(n :: nat) q. case q of QCall f xs \<Rightarrow> if f = ''kzalloc'' \<or> f = ''register_chrdev'' \<or> f = ''class_create'' \<or>
       f = ''class_device_create'' then 9 else 0 | _ \<Rightarrow> (0 :: u32)"
  have g: "at24_granted ?env 9 9 9 9" by (simp add: at24_granted_def always_def)
  have "held at24_start = []" by (simp add: at24_start_def held_def ghost_def)
  with at24_leaks_client [OF g, of 0 "0x50" 0 at24_start] g show ?thesis by (simp add: Let_def)
qed

end
