(* ===== verification/Cdev.thy ===== *)
theory Cdev
  imports Kernel
begin

section \<open>hello: character devices by region\<close>

text \<open>
  \<^verbatim>\<open>20th_chrdev_another/hello.c\<close> and its first stage \<^verbatim>\<open>20th_chrdev_another/1th/hello.c\<close>: a module that
  registers ranges of device numbers and binds file operations to them with \<^verbatim>\<open>cdev_add\<close>. A device
  number is a word of 32 bits, the major above bit 20; as an argument it is written \<open>Dev\<close>.
\<close>

definition MAJOR :: "u32 \<Rightarrow> u32" where
  "MAJOR d = drop_bit 20 d"

definition MINOR :: "u32 \<Rightarrow> u32" where
  "MINOR d = d AND 0xFFFFF"

definition HELLO_COUNT :: u32 where
  "HELLO_COUNT = 2"

record hello = kworld +
  hello_major :: u32
  hello_cls :: u32

definition hello_open :: "kenv \<Rightarrow> (hello, u32) state" where
  "hello_open env = do { printk env ''hello open''; ret 0 }"

definition hello2_open :: "kenv \<Rightarrow> (hello, u32) state" where
  "hello2_open env = do { printk env ''hello  -2- open''; ret 0 }"

text \<open>The file operations the module provides, one entry per table.\<close>

datatype hello_op = Hello_fops_open | Hello2_fops_open

fun hello_fops :: "kenv \<Rightarrow> hello_op \<Rightarrow> (hello, u32) state" where
  "hello_fops env Hello_fops_open = hello_open env"
| "hello_fops env Hello2_fops_open = hello2_open env"

text \<open>Both stages begin alike: take the region of a fixed major, or have the kernel choose one.\<close>

definition hello_region :: "kenv \<Rightarrow> (hello, karg) state" where
  "hello_region env = do {
     m \<leftarrow> gets hello_major;
     (if m \<noteq> 0 then do {
        callv env ''register_chrdev_region'' [Dev m 0, Num HELLO_COUNT, Str ''hello''];
        ret (Dev m 0) }
      else do {
        callv env ''alloc_chrdev_region'' [Obj ''dev_id'' 4, Num 0, Num HELLO_COUNT, Str ''hello''];
        dev_id \<leftarrow> out env ''alloc_chrdev_region'' 0;
        modify (\<lambda>s. s\<lparr>hello_major := MAJOR dev_id\<rparr>);
        ret (Dev (MAJOR dev_id) (MINOR dev_id)) }) }"

definition hello_node :: "kenv \<Rightarrow> u32 \<Rightarrow> string \<Rightarrow> (hello, unit) state" where
  "hello_node env minor name = do {
     cls \<leftarrow> gets hello_cls;
     m \<leftarrow> gets hello_major;
     callv env ''class_device_create'' [Num cls, Num NULL, Dev m minor, Num NULL, Str name] }"

definition hello_unnode :: "kenv \<Rightarrow> u32 \<Rightarrow> (hello, unit) state" where
  "hello_unnode env minor = do {
     cls \<leftarrow> gets hello_cls;
     m \<leftarrow> gets hello_major;
     callv env ''class_device_destroy'' [Num cls, Dev m minor] }"

definition hello_init :: "kenv \<Rightarrow> (hello, u32) state" where
  "hello_init env = do {
     dev_id \<leftarrow> hello_region env;
     callv env ''cdev_init'' [Sym ''&hello_cdev'', Sym ''&hello_fops''];
     callv env ''cdev_add'' [Sym ''&hello_cdev'', dev_id, Num HELLO_COUNT];
     m \<leftarrow> gets hello_major;
     callv env ''register_chrdev_region'' [Dev m 3, Num 1, Str ''hello''];
     callv env ''cdev_init'' [Sym ''&hello2_cdev'', Sym ''&hello2_fops''];
     callv env ''cdev_add'' [Sym ''&hello2_cdev'', Dev m 3, Num 1];
     c \<leftarrow> call env ''class_create'' [Sym ''THIS_MODULE'', Str ''hello''];
     modify (\<lambda>s. s\<lparr>hello_cls := c\<rparr>);
     hello_node env 0 ''hello0'';
     hello_node env 1 ''hello1'';
     hello_node env 2 ''hello2'';
     hello_node env 3 ''hello3'';
     ret 0 }"

definition hello_exit :: "kenv \<Rightarrow> (hello, unit) state" where
  "hello_exit env = do {
     hello_unnode env 0;
     hello_unnode env 1;
     hello_unnode env 2;
     hello_unnode env 3;
     c \<leftarrow> gets hello_cls;
     callv env ''class_destroy'' [Num c];
     callv env ''cdev_del'' [Sym ''&hello_cdev''];
     callv env ''cdev_del'' [Sym ''&hello2_cdev''];
     m \<leftarrow> gets hello_major;
     callv env ''unregister_chrdev_region'' [Dev m 0, Num HELLO_COUNT];
     callv env ''unregister_chrdev_region'' [Dev m 3, Num 1] }"

text \<open>The first stage: one set of file operations, three nodes.\<close>

definition hello1_init :: "kenv \<Rightarrow> (hello, u32) state" where
  "hello1_init env = do {
     dev_id \<leftarrow> hello_region env;
     callv env ''cdev_init'' [Sym ''&hello_cdev'', Sym ''&hello_fops''];
     callv env ''cdev_add'' [Sym ''&hello_cdev'', dev_id, Num HELLO_COUNT];
     c \<leftarrow> call env ''class_create'' [Sym ''THIS_MODULE'', Str ''hello''];
     modify (\<lambda>s. s\<lparr>hello_cls := c\<rparr>);
     hello_node env 0 ''hello0'';
     hello_node env 1 ''hello1'';
     hello_node env 2 ''hello2'';
     ret 0 }"

definition hello1_exit :: "kenv \<Rightarrow> (hello, unit) state" where
  "hello1_exit env = do {
     hello_unnode env 0;
     hello_unnode env 1;
     hello_unnode env 2;
     c \<leftarrow> gets hello_cls;
     callv env ''class_destroy'' [Num c];
     callv env ''cdev_del'' [Sym ''&hello_cdev''];
     m \<leftarrow> gets hello_major;
     callv env ''unregister_chrdev_region'' [Dev m 0, Num HELLO_COUNT] }"

subsection \<open>Which node has which operations\<close>

text \<open>
  \<open>bound tr h M n\<close> is the table of file operations that an open of device \<open>(M, n)\<close> reaches: the
  registered character device whose range contains the number, with the operations its
  \<^verbatim>\<open>cdev_init\<close> named. That is what \<^verbatim>\<open>cdev_add\<close> promises.
\<close>

fun cdev_covers :: "u32 \<Rightarrow> u32 \<Rightarrow> kres \<Rightarrow> karg option" where
  "cdev_covers M n (f, [c, Dev m k, Num count], r) =
     (if f = ''cdev_add'' \<and> m = M \<and> unat k \<le> unat n \<and> unat n < unat k + unat count then Some c else None)"
| "cdev_covers M n _ = None"

fun cdev_fops :: "karg \<Rightarrow> kevent list \<Rightarrow> karg option" where
  "cdev_fops c [] = None"
| "cdev_fops c (Ev (QCall f [d, t]) r # es) =
     (case cdev_fops c es of Some u \<Rightarrow> Some u | None \<Rightarrow> if f = ''cdev_init'' \<and> d = c then Some t else None)"
| "cdev_fops c (_ # es) = cdev_fops c es"

definition bound :: "hello \<Rightarrow> u32 \<Rightarrow> karg option" where
  "bound s n =
     (case List.map_filter (cdev_covers (hello_major s) n) (held s) of
        [] \<Rightarrow> None
      | c # _ \<Rightarrow> cdev_fops c (trace s))"

text \<open>What loading relies on: every request is granted, and a chosen region starts at minor 0.\<close>

definition hello_granted :: "kenv \<Rightarrow> u32 \<Rightarrow> bool" where
  "hello_granted env c \<longleftrightarrow> c \<noteq> NULL \<and> always env ''class_create'' c \<and> always env ''class_device_create'' c \<and>
     always env ''register_chrdev_region'' 0 \<and> always env ''alloc_chrdev_region'' 0 \<and> always env ''cdev_add'' 0 \<and>
     (\<forall>n. MINOR (env n (QOut ''alloc_chrdev_region'' 0)) = 0)"

definition hello_region_rec :: "u32 \<Rightarrow> u32 \<Rightarrow> kres" where
  "hello_region_rec old m =
     (if old \<noteq> 0 then (''register_chrdev_region'', [Dev m 0, Num HELLO_COUNT, Str ''hello''], 0)
      else (''alloc_chrdev_region'', [Obj ''dev_id'' 4, Num 0, Num HELLO_COUNT, Str ''hello''], 0))"

definition hello_held :: "u32 \<Rightarrow> u32 \<Rightarrow> u32 \<Rightarrow> kres list" where
  "hello_held old c m =
     [(''class_device_create'', [Num c, Num NULL, Dev m 3, Num NULL, Str ''hello3''], c),
      (''class_device_create'', [Num c, Num NULL, Dev m 2, Num NULL, Str ''hello2''], c),
      (''class_device_create'', [Num c, Num NULL, Dev m 1, Num NULL, Str ''hello1''], c),
      (''class_device_create'', [Num c, Num NULL, Dev m 0, Num NULL, Str ''hello0''], c),
      (''class_create'', [Sym ''THIS_MODULE'', Str ''hello''], c),
      (''cdev_add'', [Sym ''&hello2_cdev'', Dev m 3, Num 1], 0),
      (''register_chrdev_region'', [Dev m 3, Num 1, Str ''hello''], 0),
      (''cdev_add'', [Sym ''&hello_cdev'', Dev m 0, Num HELLO_COUNT], 0),
      hello_region_rec old m]"

definition hello1_held :: "u32 \<Rightarrow> u32 \<Rightarrow> u32 \<Rightarrow> kres list" where
  "hello1_held old c m =
     [(''class_device_create'', [Num c, Num NULL, Dev m 2, Num NULL, Str ''hello2''], c),
      (''class_device_create'', [Num c, Num NULL, Dev m 1, Num NULL, Str ''hello1''], c),
      (''class_device_create'', [Num c, Num NULL, Dev m 0, Num NULL, Str ''hello0''], c),
      (''class_create'', [Sym ''THIS_MODULE'', Str ''hello''], c),
      (''cdev_add'', [Sym ''&hello_cdev'', Dev m 0, Num HELLO_COUNT], 0),
      hello_region_rec old m]"

lemmas hello_defs = hello_region_def hello_node_def hello_unnode_def hello_init_def hello_exit_def
  hello1_init_def hello1_exit_def hello_region_rec_def

lemma hello_init_ghost:
  assumes "hello_granted env c"
  shows "held (exec (hello_init env) s) =
      hello_held (hello_major s) c (hello_major (exec (hello_init env) s)) @ held s"
    "viol (exec (hello_init env) s) = viol s"
    "hello_cls (exec (hello_init env) s) = c"
  using assms
  by (cases "ghost (trace s)";
      simp add: hello_granted_def always_def hello_defs hello_held_def held_def viol_def ghost_simps)+

lemma hello1_init_ghost:
  assumes "hello_granted env c"
  shows "held (exec (hello1_init env) s) =
      hello1_held (hello_major s) c (hello_major (exec (hello1_init env) s)) @ held s"
    "viol (exec (hello1_init env) s) = viol s"
    "hello_cls (exec (hello1_init env) s) = c"
  using assms
  by (cases "ghost (trace s)";
      simp add: hello_granted_def always_def hello_defs hello1_held_def held_def viol_def ghost_simps)+

lemma hello_bound:
  assumes "hello_granted env c" and "trace s = []"
  shows "bound (exec (hello_init env) s) n =
    (if unat n < 2 then Some (Sym ''&hello_fops'') else if n = 3 then Some (Sym ''&hello2_fops'') else None)"
proof -
  have h: "held s = []" using assms(2) by (simp add: held_def ghost_def)
  have one: "(3 \<le> unat n \<and> unat n < 4) = (n = 3)"
    using word_unat_eq_iff [of n 3] by auto
  have "cdev_fops (Sym ''&hello_cdev'') (trace (exec (hello_init env) s)) = Some (Sym ''&hello_fops'')"
    "cdev_fops (Sym ''&hello2_cdev'') (trace (exec (hello_init env) s)) = Some (Sym ''&hello2_fops'')"
    using assms(2) by (simp_all add: hello_defs)
  then show ?thesis
    using one by (auto simp: bound_def hello_init_ghost(1) [OF assms(1)] h hello_held_def hello_region_rec_def
        map_filter_simps HELLO_COUNT_def)
qed

text \<open>
  After loading with every request granted, the nodes \<^verbatim>\<open>hello0\<close> and \<^verbatim>\<open>hello1\<close> reach \<^verbatim>\<open>hello_fops\<close>, the
  node \<^verbatim>\<open>hello3\<close> reaches \<^verbatim>\<open>hello2_fops\<close>, and the node \<^verbatim>\<open>hello2\<close>, which is created as well, reaches none: it
  cannot be opened.
\<close>

theorem hello_nodes:
  assumes "hello_granted env c" and "trace s = []"
  shows "bound (exec (hello_init env) s) 0 = Some (Sym ''&hello_fops'') \<and>
    bound (exec (hello_init env) s) 1 = Some (Sym ''&hello_fops'') \<and>
    bound (exec (hello_init env) s) 2 = None \<and>
    bound (exec (hello_init env) s) 3 = Some (Sym ''&hello2_fops'')"
  using hello_bound [OF assms] by simp

definition hello_start :: hello where
  "hello_start = \<lparr>trace = [], hello_major = 0, hello_cls = 0\<rparr>"

text \<open>A kernel that grants everything and gives out the major number 252.\<close>

definition hello_env :: kenv where
  "hello_env n q = (case q of
     QCall f xs \<Rightarrow> if f = ''class_create'' \<or> f = ''class_device_create'' then 0x1000 else 0
   | QOut f i \<Rightarrow> 0xFC00000 | QRd a \<Rightarrow> 0)"

lemma hello_env_granted: "hello_granted hello_env 0x1000"
  by (simp add: hello_granted_def hello_env_def always_def MINOR_def)

theorem hello_nodes_witness:
  "hello_granted hello_env 0x1000 \<and> trace hello_start = [] \<and>
   bound (exec (hello_init hello_env) hello_start) 2 = None"
  using hello_nodes [OF hello_env_granted, of hello_start] hello_env_granted by (simp add: hello_start_def)

subsection \<open>Resources\<close>

lemma hello_fops_neutral:
  "held (exec (hello_fops env x) s) = held s" "viol (exec (hello_fops env x) s) = viol s"
  "hello_major (exec (hello_fops env x) s) = hello_major s" "hello_cls (exec (hello_fops env x) s) = hello_cls s"
  by (cases x; cases "ghost (trace s)";
      simp add: hello_open_def hello2_open_def held_def viol_def ghost_simps)+

lemma hello_uses_neutral:
  fixes env :: kenv and xs :: "hello_op list"
  defines "m \<equiv> each (\<lambda>x. do { _ \<leftarrow> hello_fops env x; skip }) xs"
  shows "held (exec m s) = held s" "viol (exec m s) = viol s"
    "hello_major (exec m s) = hello_major s" "hello_cls (exec m s) = hello_cls s"
  unfolding m_def
  by (induction xs arbitrary: s) (simp_all add: exec_bind hello_fops_neutral del: run_state_bind)

lemma hello_exit_ghost:
  assumes "held s = hello_held old c (hello_major s) @ R" "hello_cls s = c"
  shows "held (exec (hello_exit env) s) = R" "viol (exec (hello_exit env) s) = viol s"
  using assms
  by (cases "ghost (trace s)"; simp add: hello_defs hello_held_def held_def viol_def ghost_simps)+

lemma hello1_exit_ghost:
  assumes "held s = hello1_held old c (hello_major s) @ R" "hello_cls s = c"
  shows "held (exec (hello1_exit env) s) = R" "viol (exec (hello1_exit env) s) = viol s"
  using assms
  by (cases "ghost (trace s)"; simp add: hello_defs hello1_held_def held_def viol_def ghost_simps)+

text \<open>
  Both stages of the module give everything back: after loading with every request granted, any
  opens, and unloading, the kernel objects are those that existed before and no rule of the kernel
  interface was broken, with a fixed major number as well as with one the kernel chose.
\<close>

theorem hello_sessions_balanced:
  assumes "hello_granted env c"
  shows "held (exec (session hello_init hello_fops hello_exit env xs) s) = held s \<and>
    viol (exec (session hello_init hello_fops hello_exit env xs) s) = viol s \<and>
    held (exec (session hello1_init hello_fops hello1_exit env xs) s) = held s \<and>
    viol (exec (session hello1_init hello_fops hello1_exit env xs) s) = viol s"
  using hello_exit_ghost [where old = "hello_major s" and c = c and R = "held s"]
    hello1_exit_ghost [where old = "hello_major s" and c = c and R = "held s"]
  by (simp add: session_def exec_bind hello_uses_neutral hello_init_ghost [OF assms] hello1_init_ghost [OF assms]
      del: run_state_bind)

theorem hello_sessions_balanced_witness:
  "hello_granted hello_env 0x1000 \<and>
   held (exec (session hello_init hello_fops hello_exit hello_env [Hello_fops_open, Hello2_fops_open]) hello_start) = []"
  using hello_sessions_balanced [OF hello_env_granted, of "[Hello_fops_open, Hello2_fops_open]" hello_start]
    hello_env_granted
  by (simp add: held_def ghost_def hello_start_def)

end
