(* ===== verification/Dma.thy ===== *)
theory Dma
  imports Kernel
begin

section \<open>dma: copying memory with and without the DMA controller\<close>

text \<open>
  \<^verbatim>\<open>22th_dma/dma.c\<close>. The two buffers are lists of bytes in the state. \<^verbatim>\<open>dma_ioctl\<close> is cut where it
  sleeps: \<open>dma_ioctl_begin\<close> up to \<^verbatim>\<open>wait_event_interruptible\<close>, \<open>dma_ioctl_end\<close> after it. What happens in
  between, the transfer of the controller and the interrupt, is a sequence of steps.
\<close>

definition BUF_SIZE :: nat where
  "BUF_SIZE = 512 * 1024"

definition MEM_CPY_NO_DMA :: u32 where
  "MEM_CPY_NO_DMA = 0"

definition MEM_CPY_DMA :: u32 where
  "MEM_CPY_DMA = 1"

definition DMA3_BASE_ADDR :: u32 where
  "DMA3_BASE_ADDR = 0x4B0000C0"

text \<open>The interrupt numbers of the four channels are consecutive (\<^verbatim>\<open>asm/arch/irqs.h\<close>).\<close>

definition IRQ_DMA0 :: u32 where
  "IRQ_DMA0 = 33"

definition IRQ_DMA3 :: u32 where
  "IRQ_DMA3 = 36"

record dma = kworld +
  src :: u32
  src_phys :: u32
  dst :: u32
  dst_phys :: u32
  dma_major :: u32
  dma_cls :: u32
  dma_regs :: u32
  ev_dma :: bool
  irq_no :: u32
  src_mem :: "u8 list"
  dst_mem :: "u8 list"

text \<open>The fields of \<^verbatim>\<open>struct dma_regs\<close> by their offsets; the structure has nine words.\<close>

definition r_disrc :: u32 where "r_disrc = 0"
definition r_disrcc :: u32 where "r_disrcc = 4"
definition r_didst :: u32 where "r_didst = 8"
definition r_didstc :: u32 where "r_didstc = 12"
definition r_dcon :: u32 where "r_dcon = 16"
definition r_dmasktrig :: u32 where "r_dmasktrig = 32"
definition sizeof_dma_regs :: u32 where "sizeof_dma_regs = 36"

lemmas dma_consts = MEM_CPY_NO_DMA_def MEM_CPY_DMA_def DMA3_BASE_ADDR_def IRQ_DMA0_def IRQ_DMA3_def
  r_disrc_def r_disrcc_def r_didst_def r_didstc_def r_dcon_def r_dmasktrig_def sizeof_dma_regs_def

text \<open>\<^verbatim>\<open>for (i = 0; i < BUF_SIZE; i++) dst[i] = src[i];\<close> from index \<open>i\<close> on, \<open>n\<close> rounds left.\<close>

fun dma_copy_loop :: "nat \<Rightarrow> nat \<Rightarrow> u8 list \<Rightarrow> u8 list \<Rightarrow> u8 list" where
  "dma_copy_loop 0 i s d = d"
| "dma_copy_loop (Suc n) i s d = dma_copy_loop n (Suc i) s (d[i := s ! i])"

definition dma_dcon :: u32 where
  "dma_dcon = push_bit 31 0 OR push_bit 30 1 OR push_bit 29 1 OR push_bit 28 0 OR push_bit 27 1 OR
     push_bit 23 0 OR push_bit 22 1 OR push_bit 20 0 OR push_bit 0 (of_nat BUF_SIZE)"

definition dma_dmasktrig :: u32 where
  "dma_dmasktrig = push_bit 2 0 OR push_bit 1 1 OR push_bit 0 1"

text \<open>What both commands end with: compare the buffers and report.\<close>

definition dma_report :: "kenv \<Rightarrow> string \<Rightarrow> string \<Rightarrow> (dma, unit) state" where
  "dma_report env good bad = do {
     a \<leftarrow> gets src_mem;
     b \<leftarrow> gets dst_mem;
     (if take BUF_SIZE a = take BUF_SIZE b then printk env good else printk env bad) }"

definition dma_program :: "(dma, unit) state" where
  "dma_program = do {
     p \<leftarrow> gets dma_regs;
     sp \<leftarrow> gets src_phys;
     wr (p + r_disrc) sp;
     wr (p + r_disrcc) (push_bit 1 0 OR push_bit 0 0);
     dp \<leftarrow> gets dst_phys;
     wr (p + r_didst) dp;
     wr (p + r_didstc) (push_bit 2 0 OR push_bit 1 0 OR push_bit 0 0);
     wr (p + r_dcon) dma_dcon;
     wr (p + r_dmasktrig) dma_dmasktrig }"

text \<open>The result says whether the call sleeps now (\<open>None\<close>) or has returned.\<close>

definition dma_ioctl_begin :: "kenv \<Rightarrow> u32 \<Rightarrow> (dma, u32 option) state" where
  "dma_ioctl_begin env cmd = do {
     modify (\<lambda>s. s\<lparr>src_mem := replicate BUF_SIZE 0xAA\<rparr>);
     modify (\<lambda>s. s\<lparr>dst_mem := replicate BUF_SIZE 0x55\<rparr>);
     (if cmd = MEM_CPY_NO_DMA then do {
        modify (\<lambda>s. s\<lparr>dst_mem := dma_copy_loop BUF_SIZE 0 (src_mem s) (dst_mem s)\<rparr>);
        dma_report env ''memcpy no dma ok'' ''memcpy no dma error'';
        ret (Some 0) }
      else if cmd = MEM_CPY_DMA then do {
        modify (\<lambda>s. s\<lparr>ev_dma := False\<rparr>);
        dma_program;
        ret None }
      else ret (Some 0)) }"

text \<open>The result of \<^verbatim>\<open>wait_event_interruptible\<close> is ignored, so the call returns here for both reasons.\<close>

definition dma_ioctl_end :: "kenv \<Rightarrow> (dma, u32) state" where
  "dma_ioctl_end env = do {
     callv env ''wait_event_interruptible'' [Sym ''dma_waitq'', Sym ''ev_dma''];
     dma_report env ''memcpy dma ok'' ''memcpy dma error'';
     ret 0 }"

text \<open>The whole call, when nothing else is observed while it sleeps.\<close>

definition dma_ioctl :: "kenv \<Rightarrow> u32 \<Rightarrow> (dma, u32) state" where
  "dma_ioctl env cmd = do {
     r \<leftarrow> dma_ioctl_begin env cmd;
     (case r of Some x \<Rightarrow> ret x | None \<Rightarrow> dma_ioctl_end env) }"

definition s3c_dma_irq :: "kenv \<Rightarrow> (dma, u32) state" where
  "s3c_dma_irq env = do {
     modify (\<lambda>s. s\<lparr>ev_dma := True\<rparr>);
     callv env ''wake_up_interruptible'' [Sym ''&dma_waitq''];
     ret 1 }"

text \<open>
  The loop over the interrupt lines; \<open>None\<close> when it ends with a line, otherwise the error that init
  returns. The last round always leaves the loop, so the end of the list is not reached.
\<close>

fun dma_irq_loop :: "kenv \<Rightarrow> u32 list \<Rightarrow> (dma, u32 option) state" where
  "dma_irq_loop env [] = do { modify (\<lambda>s. s\<lparr>irq_no := IRQ_DMA3 + 1\<rparr>); ret None }"
| "dma_irq_loop env (i # is) = do {
     modify (\<lambda>s. s\<lparr>irq_no := i\<rparr>);
     r \<leftarrow> call env ''request_irq'' [Num i, Sym ''s3c_dma_irq'', Num 0, Str ''s3c_dma'', Num 1];
     (if r = 0 then ret None
      else if i = IRQ_DMA3 then do { printk env ''can't request_irq for DMA''; ret (Some (- EBUSY)) }
      else dma_irq_loop env is) }"

definition dma_lines :: "u32 list" where
  "dma_lines = map (\<lambda>k. IRQ_DMA0 + of_nat k) [0..<4]"

definition dma_init :: "kenv \<Rightarrow> (dma, u32) state" where
  "dma_init env = do {
     a \<leftarrow> call env ''dma_alloc_writecombine'' [Num NULL, Num (of_nat BUF_SIZE), Obj ''src_phys'' 4, Sym ''GFP_KERNEL''];
     ap \<leftarrow> out env ''dma_alloc_writecombine'' 0;
     modify (\<lambda>s. s\<lparr>src := a, src_phys := ap\<rparr>);
     (if a = NULL then do { printk env ''alloc src error''; ret (- ENOMEM) } else do {
     b \<leftarrow> call env ''dma_alloc_writecombine'' [Num NULL, Num (of_nat BUF_SIZE), Obj ''dst_phys'' 4, Sym ''GFP_KERNEL''];
     bp \<leftarrow> out env ''dma_alloc_writecombine'' 0;
     modify (\<lambda>s. s\<lparr>dst := b, dst_phys := bp\<rparr>);
     (if b = NULL then do {
        callv env ''dma_free_writecombine'' [Num NULL, Num (of_nat BUF_SIZE), Num a, Num ap];
        printk env ''alloc dst error'';
        ret (- ENOMEM) } else do {
     m \<leftarrow> gets dma_major;
     dev_id \<leftarrow> (if m \<noteq> 0 then do {
           callv env ''register_chrdev_region'' [Dev m 0, Num 1, Str ''dma''];
           ret (Dev m 0) }
         else do {
           callv env ''alloc_chrdev_region'' [Obj ''dev_id'' 4, Num 0, Num 1, Str ''dma''];
           d \<leftarrow> out env ''alloc_chrdev_region'' 0;
           modify (\<lambda>s. s\<lparr>dma_major := drop_bit 20 d\<rparr>);
           ret (Dev (drop_bit 20 d) (d AND 0xFFFFF)) });
     callv env ''cdev_init'' [Sym ''&dma_cdev'', Sym ''&dma_fops''];
     callv env ''cdev_add'' [Sym ''&dma_cdev'', dev_id, Num 1];
     c \<leftarrow> call env ''class_create'' [Sym ''THIS_MODULE'', Str ''dma''];
     modify (\<lambda>s. s\<lparr>dma_cls := c\<rparr>);
     m' \<leftarrow> gets dma_major;
     callv env ''class_device_create'' [Num c, Num NULL, Dev m' 0, Num NULL, Str ''dma''];
     p \<leftarrow> call env ''ioremap'' [Num DMA3_BASE_ADDR, Num sizeof_dma_regs];
     modify (\<lambda>s. s\<lparr>dma_regs := p\<rparr>);
     (if p = NULL then do { printk env ''unable to remap memory''; ret (- EAGAIN) } else do {
     e \<leftarrow> dma_irq_loop env dma_lines;
     (case e of Some r \<Rightarrow> ret r | None \<Rightarrow> ret 0) }) }) }) }"

definition dma_exit :: "kenv \<Rightarrow> (dma, unit) state" where
  "dma_exit env = do {
     i \<leftarrow> gets irq_no;
     callv env ''free_irq'' [Num i, Num 1];
     p \<leftarrow> gets dma_regs;
     callv env ''iounmap'' [Num p];
     c \<leftarrow> gets dma_cls;
     m \<leftarrow> gets dma_major;
     callv env ''class_device_destroy'' [Num c, Dev m 0];
     callv env ''class_destroy'' [Num c];
     callv env ''cdev_del'' [Sym ''&dma_cdev''];
     callv env ''unregister_chrdev_region'' [Dev m 0, Num 1];
     a \<leftarrow> gets src; ap \<leftarrow> gets src_phys;
     callv env ''dma_free_writecombine'' [Num NULL, Num (of_nat BUF_SIZE), Num a, Num ap];
     b \<leftarrow> gets dst; bp \<leftarrow> gets dst_phys;
     callv env ''dma_free_writecombine'' [Num NULL, Num (of_nat BUF_SIZE), Num b, Num bp] }"

subsection \<open>The two ways of copying\<close>

lemma dma_copy_loop_eq:
  "i + n = length d \<Longrightarrow> length s = length d \<Longrightarrow> dma_copy_loop n i s d = take i d @ drop i s"
proof (induction n arbitrary: i d)
  case (Suc n)
  from Suc.prems have i: "i < length d" "i < length s" by simp_all
  have "dma_copy_loop n (Suc i) s (d[i := s ! i]) = take (Suc i) (d[i := s ! i]) @ drop (Suc i) s"
    using Suc.prems by (intro Suc.IH) simp_all
  also have "\<dots> = take i d @ s ! i # drop (Suc i) s"
    using i by (simp add: take_Suc_conv_app_nth)
  also have "\<dots> = take i d @ drop i s" using i by (simp add: Cons_nth_drop_Suc)
  finally show ?case by simp
qed simp

lemma dma_copy: "dma_copy_loop BUF_SIZE 0 (replicate BUF_SIZE a) (replicate BUF_SIZE b) = replicate BUF_SIZE a"
  by (simp add: dma_copy_loop_eq)

text \<open>
  The copy without DMA is right: after the call the destination buffer holds the bytes of the source
  buffer in full length, the driver reports success and returns 0.
\<close>

theorem dma_ioctl_cpu_copy:
  "let t = exec (dma_ioctl_begin env MEM_CPY_NO_DMA) s in
   result (dma_ioctl_begin env MEM_CPY_NO_DMA) s = Some 0 \<and>
   dst_mem t = src_mem t \<and> length (dst_mem t) = BUF_SIZE \<and>
   reqs_of [''printk''] (trace t) = reqs_of [''printk''] (trace s) @ [QCall ''printk'' [Str ''memcpy no dma ok'']]"
  by (simp add: dma_ioctl_begin_def dma_report_def dma_copy Let_def)

lemma dma_dcon_value: "dma_dcon = 0x68480000"
  by (simp add: dma_dcon_def BUF_SIZE_def)

text \<open>
  Before it sleeps, the command with DMA has told channel 3 the physical addresses of both
  buffers, both on the system bus and incrementing; the count in the low 20 bits of \<^verbatim>\<open>DCON\<close> is the size
  of the buffers, in bytes (the data size field is zero), with the interrupt at the end enabled, a
  software request and no reload; the trigger is written last, and with a mapping of the registers
  held, no access lies outside it.
\<close>

theorem dma_ioctl_programs:
  assumes "(''ioremap'', [Num DMA3_BASE_ADDR, Num sizeof_dma_regs], dma_regs s) \<in> set (held s)"
    and "unat (dma_regs s) + 36 \<le> 2 ^ 32"
  shows "let t = exec (dma_ioctl_begin env MEM_CPY_DMA) s; p = dma_regs s in
    result (dma_ioctl_begin env MEM_CPY_DMA) s = None \<and>
    trace t = trace s @ [Wr p (src_phys s), Wr (p + 4) 0, Wr (p + 8) (dst_phys s), Wr (p + 12) 0,
      Wr (p + 16) dma_dcon, Wr (p + 32) 3] \<and>
    unat (dma_dcon AND 0xFFFFF) = BUF_SIZE \<and> length (src_mem t) = BUF_SIZE \<and> length (dst_mem t) = BUF_SIZE \<and>
    drop_bit 20 dma_dcon AND 3 = 0 \<and> bit dma_dcon 29 \<and> \<not> bit dma_dcon 23 \<and> bit dma_dcon 22 \<and>
    held t = held s \<and> viol t = viol s"
proof -
  let ?p = "dma_regs s"
  have off: "unat (?p + k) = unat ?p + unat k" if "unat k \<le> 32" for k :: u32
    using that assms(2) by (subst unat_plus_simple [THEN iffD1]) (auto simp: no_olen_add_nat)
  have m: "list_ex (\<lambda>x. maps x (?p + k)) (held s)" if "unat k \<le> 32" for k :: u32
    using assms(1) off [OF that] that
    by (auto simp: list_ex_iff maps_def dma_consts intro!: bexI [OF _ assms(1)])
  have ms: "list_ex (\<lambda>x. maps x ?p) (held s)" "list_ex (\<lambda>x. maps x (?p + 4)) (held s)"
    "list_ex (\<lambda>x. maps x (?p + 8)) (held s)" "list_ex (\<lambda>x. maps x (?p + 12)) (held s)"
    "list_ex (\<lambda>x. maps x (?p + 16)) (held s)" "list_ex (\<lambda>x. maps x (?p + 32)) (held s)"
    using m [of 0] m [of 4] m [of 8] m [of 12] m [of 16] m [of 32] by simp_all
  have tr: "trace (exec (dma_ioctl_begin env MEM_CPY_DMA) s) =
      trace s @ [Wr ?p (src_phys s), Wr (?p + 4) 0, Wr (?p + 8) (dst_phys s), Wr (?p + 12) 0,
        Wr (?p + 16) dma_dcon, Wr (?p + 32) 3]"
    by (simp add: dma_ioctl_begin_def dma_program_def dma_dmasktrig_def dma_consts)
  have "held (exec (dma_ioctl_begin env MEM_CPY_DMA) s) = held s"
    "viol (exec (dma_ioctl_begin env MEM_CPY_DMA) s) = viol s"
    using held_viol_cases [OF tr] ms by simp_all
  then show ?thesis
    unfolding Let_def tr
    by (simp add: dma_ioctl_begin_def dma_program_def dma_consts dma_dcon_value BUF_SIZE_def bit_iff_odd_drop_bit)
qed

subsection \<open>While the call sleeps\<close>

text \<open>
  The documented behaviour of the channel: it moves bytes in order until the count is reached, and
  then raises the interrupt of its own channel, number 3. The handler runs when the driver holds
  that line. The flag says that the transfer is over.
\<close>

inductive dma_step :: "kenv \<Rightarrow> dma \<times> bool \<Rightarrow> dma \<times> bool \<Rightarrow> bool" for env where
  partial: "k < BUF_SIZE \<Longrightarrow>
     dma_step env (s, False) (s\<lparr>dst_mem := take k (src_mem s) @ drop k (dst_mem s)\<rparr>, False)"
| finish: "dma_step env (s, False) (s\<lparr>dst_mem := src_mem s\<rparr>, True)"
| interrupt: "irq_no s = IRQ_DMA3 \<Longrightarrow> dma_step env (s, True) (exec (s3c_dma_irq env) s, True)"

inductive_cases dma_stepE: "dma_step env a b"

definition dma_sleep :: "kenv \<Rightarrow> dma \<Rightarrow> dma \<Rightarrow> bool" where
  "dma_sleep env s t \<longleftrightarrow> (\<exists>b. (dma_step env)\<^sup>*\<^sup>* (exec (dma_ioctl_begin env MEM_CPY_DMA) s, False) (t, b))"

lemma s3c_dma_irq_state:
  "ev_dma (exec (s3c_dma_irq env) s)" "irq_no (exec (s3c_dma_irq env) s) = irq_no s"
  "src_mem (exec (s3c_dma_irq env) s) = src_mem s" "dst_mem (exec (s3c_dma_irq env) s) = dst_mem s"
  by (simp_all add: s3c_dma_irq_def)

lemma dma_begin_state:
  "\<not> ev_dma (exec (dma_ioctl_begin env MEM_CPY_DMA) s)"
  "irq_no (exec (dma_ioctl_begin env MEM_CPY_DMA) s) = irq_no s"
  by (simp_all add: dma_ioctl_begin_def dma_program_def dma_consts)

definition dma_inv :: "u32 \<Rightarrow> dma \<times> bool \<Rightarrow> bool" where
  "dma_inv i x \<longleftrightarrow> irq_no (fst x) = i \<and> (snd x \<longrightarrow> dst_mem (fst x) = src_mem (fst x)) \<and>
     (ev_dma (fst x) \<longrightarrow> snd x \<and> i = IRQ_DMA3)"

lemma dma_inv_step: "dma_step env x y \<Longrightarrow> dma_inv i x \<Longrightarrow> dma_inv i y"
  by (auto elim!: dma_stepE simp: dma_inv_def s3c_dma_irq_state)

lemma dma_inv_reach: "(dma_step env)\<^sup>*\<^sup>* x y \<Longrightarrow> dma_inv i x \<Longrightarrow> dma_inv i y"
  by (induction rule: rtranclp_induct) (auto intro: dma_inv_step)

lemma dma_sleep_inv:
  assumes "dma_sleep env s t"
  shows "irq_no t = irq_no s" "ev_dma t \<Longrightarrow> dst_mem t = src_mem t" "ev_dma t \<Longrightarrow> irq_no s = IRQ_DMA3"
proof -
  from assms obtain b where "(dma_step env)\<^sup>*\<^sup>* (exec (dma_ioctl_begin env MEM_CPY_DMA) s, False) (t, b)"
    by (auto simp: dma_sleep_def)
  then have "dma_inv (irq_no s) (t, b)"
    by (rule dma_inv_reach) (simp add: dma_inv_def dma_begin_state)
  then show "irq_no t = irq_no s" "ev_dma t \<Longrightarrow> dst_mem t = src_mem t" "ev_dma t \<Longrightarrow> irq_no s = IRQ_DMA3"
    by (auto simp: dma_inv_def)
qed


lemma dma_irq_first:
  assumes "always env ''request_irq'' 0"
  shows "dma_irq_loop env dma_lines = do {
    modify (\<lambda>s. s\<lparr>irq_no := IRQ_DMA0\<rparr>);
    _ \<leftarrow> call env ''request_irq'' [Num IRQ_DMA0, Sym ''s3c_dma_irq'', Num 0, Str ''s3c_dma'', Num 1];
    ret None }"
  by (rule state.expand, rule ext)
    (simp add: dma_lines_def upt_rec alwaysD [OF assms])

text \<open>
  What loading relies on, with the addresses it is given: every request is granted, the buffers and
  the mapping of the registers are not null, and a chosen device number has minor 0.
\<close>

definition dma_granted :: "kenv \<Rightarrow> u32 \<Rightarrow> u32 \<Rightarrow> u32 \<Rightarrow> u32 \<Rightarrow> bool" where
  "dma_granted env a b c p \<longleftrightarrow> NULL \<notin> set [a, b, c, p] \<and> a \<noteq> b \<and>
     (\<forall>n xs. env n (QCall ''dma_alloc_writecombine'' xs) = (if xs ! 2 = Obj ''src_phys'' 4 then a else b)) \<and>
     always env ''class_create'' c \<and> always env ''class_device_create'' c \<and>
     always env ''register_chrdev_region'' 0 \<and> always env ''alloc_chrdev_region'' 0 \<and> always env ''cdev_add'' 0 \<and>
     always env ''ioremap'' p \<and> always env ''request_irq'' 0 \<and>
     (\<forall>n. env n (QOut ''alloc_chrdev_region'' 0) AND 0xFFFFF = 0)"

definition dma_held :: "u32 \<Rightarrow> u32 \<Rightarrow> u32 \<Rightarrow> u32 \<Rightarrow> u32 \<Rightarrow> u32 \<Rightarrow> kres list" where
  "dma_held old m a b c p =
     [(''request_irq'', [Num IRQ_DMA0, Sym ''s3c_dma_irq'', Num 0, Str ''s3c_dma'', Num 1], 0),
      (''ioremap'', [Num DMA3_BASE_ADDR, Num sizeof_dma_regs], p),
      (''class_device_create'', [Num c, Num NULL, Dev m 0, Num NULL, Str ''dma''], c),
      (''class_create'', [Sym ''THIS_MODULE'', Str ''dma''], c),
      (''cdev_add'', [Sym ''&dma_cdev'', Dev m 0, Num 1], 0),
      (if old \<noteq> 0 then (''register_chrdev_region'', [Dev m 0, Num 1, Str ''dma''], 0)
       else (''alloc_chrdev_region'', [Obj ''dev_id'' 4, Num 0, Num 1, Str ''dma''], 0)),
      (''dma_alloc_writecombine'', [Num NULL, Num (of_nat BUF_SIZE), Obj ''dst_phys'' 4, Sym ''GFP_KERNEL''], b),
      (''dma_alloc_writecombine'', [Num NULL, Num (of_nat BUF_SIZE), Obj ''src_phys'' 4, Sym ''GFP_KERNEL''], a)]"

lemma dma_init_ghost:
  fixes s :: dma
  assumes "dma_granted env a b c p"
  defines "t \<equiv> exec (dma_init env) s"
  shows "held t = dma_held (dma_major s) (dma_major t) a b c p @ held s" "viol t = viol s"
    "result (dma_init env) s = 0" "irq_no t = IRQ_DMA0" "dma_regs t = p" "dma_cls t = c" "src t = a" "dst t = b"
proof -
  from assms(1) have irq: "always env ''request_irq'' 0" by (simp add: dma_granted_def)
  note g = assms(1) [unfolded dma_granted_def always_def]
  show "held t = dma_held (dma_major s) (dma_major t) a b c p @ held s" "viol t = viol s"
    using g unfolding t_def
    by (cases "ghost (trace s)";
        simp add: dma_init_def dma_irq_first [OF irq] dma_held_def held_def viol_def ghost_simps)+
  show "result (dma_init env) s = 0" "irq_no t = IRQ_DMA0" "dma_regs t = p" "dma_cls t = c" "src t = a" "dst t = b"
    using g unfolding t_def by (simp_all add: dma_init_def dma_irq_first [OF irq])
qed

text \<open>
  When the kernel grants every request, loading succeeds with the interrupt of channel 0, while the
  registers are those of channel 3. Then the transfer never wakes the caller: in no order of
  transfers and interrupts is the event ever set.
\<close>

theorem dma_never_woken:
  assumes "dma_granted env a b c p" and "dma_sleep env (exec (dma_init env) s) t"
  shows "result (dma_init env) s = 0 \<and> irq_no t = IRQ_DMA0 \<and> \<not> ev_dma t"
  using dma_sleep_inv [OF assms(2)] dma_init_ghost(3,4) [OF assms(1), of s]
  by (auto simp: dma_consts)

definition dma_start :: dma where
  "dma_start = \<lparr>trace = [], src = 0, src_phys = 0, dst = 0, dst_phys = 0, dma_major = 0, dma_cls = 0,
     dma_regs = 0, ev_dma = False, irq_no = 0, src_mem = [], dst_mem = []\<rparr>"

definition dma_env :: kenv where
  "dma_env n q = (case q of
     QCall f xs \<Rightarrow>
       if f = ''dma_alloc_writecombine'' then if xs ! 2 = Obj ''src_phys'' 4 then 0x1000 else 0x2000
       else if f = ''class_create'' \<or> f = ''class_device_create'' \<or> f = ''ioremap'' then 0x3000 else 0
   | QOut f i \<Rightarrow> 0xFC00000 | QRd a \<Rightarrow> 0)"

lemma dma_env_granted: "dma_granted dma_env 0x1000 0x2000 0x3000 0x3000"
  by (simp add: dma_granted_def dma_env_def always_def)

theorem dma_ioctl_programs_witness:
  "\<exists>s. (''ioremap'', [Num DMA3_BASE_ADDR, Num sizeof_dma_regs], dma_regs s) \<in> set (held s) \<and>
     unat (dma_regs s) + 36 \<le> 2 ^ 32 \<and> viol (exec (dma_ioctl_begin dma_env MEM_CPY_DMA) s) = viol s"
proof -
  let ?s = "exec (dma_init dma_env) dma_start"
  have "(''ioremap'', [Num DMA3_BASE_ADDR, Num sizeof_dma_regs], dma_regs ?s) \<in> set (held ?s)"
    "unat (dma_regs ?s) + 36 \<le> 2 ^ 32"
    by (simp_all add: dma_init_ghost [OF dma_env_granted] dma_held_def)
  with dma_ioctl_programs [of ?s dma_env] show ?thesis by (auto simp: Let_def)
qed

lemma dma_sleep_start: "dma_sleep env s (exec (dma_ioctl_begin env MEM_CPY_DMA) s)"
  by (auto simp: dma_sleep_def)

theorem dma_never_woken_witness:
  "dma_granted dma_env 0x1000 0x2000 0x3000 0x3000 \<and>
   \<not> ev_dma (exec (dma_ioctl_begin dma_env MEM_CPY_DMA) (exec (dma_init dma_env) dma_start))"
  using dma_never_woken [OF dma_env_granted dma_sleep_start, of dma_start] dma_env_granted by simp


subsection \<open>Resources\<close>

lemma dma_ioctl_neutral:
  "held (exec (dma_ioctl env cmd) s) = held s" "irq_no (exec (dma_ioctl env cmd) s) = irq_no s"
  "dma_major (exec (dma_ioctl env cmd) s) = dma_major s" "dma_cls (exec (dma_ioctl env cmd) s) = dma_cls s"
  "dma_regs (exec (dma_ioctl env cmd) s) = dma_regs s"
  "src (exec (dma_ioctl env cmd) s) = src s" "dst (exec (dma_ioctl env cmd) s) = dst s"
  by (cases "ghost (trace s)";
      simp add: dma_ioctl_def dma_ioctl_begin_def dma_ioctl_end_def dma_program_def dma_report_def held_def
        ghost_simps split: if_splits)+

lemma dma_uses_neutral:
  fixes env :: kenv and xs :: "u32 list"
  defines "m \<equiv> each (\<lambda>x. do { _ \<leftarrow> dma_ioctl env x; skip }) xs"
  shows "held (exec m s) = held s" "irq_no (exec m s) = irq_no s" "dma_major (exec m s) = dma_major s"
    "dma_cls (exec m s) = dma_cls s" "dma_regs (exec m s) = dma_regs s" "src (exec m s) = src s" "dst (exec m s) = dst s"
  unfolding m_def
  by (induction xs arbitrary: s) (simp_all add: exec_bind dma_ioctl_neutral del: run_state_bind)

lemma dma_exit_ghost:
  assumes "held s = dma_held old (dma_major s) (src s) (dst s) (dma_cls s) (dma_regs s) @ R"
    and "irq_no s = IRQ_DMA0" "src s \<noteq> dst s"
  shows "held (exec (dma_exit env) s) = R"
  using assms
  by (cases "ghost (trace s)"; simp add: dma_exit_def dma_held_def held_def ghost_simps)

text \<open>
  A complete life of the driver, loading with every request granted, any commands, unloading, gives
  all eight kernel objects back.
\<close>

theorem dma_session_balanced:
  assumes "dma_granted env a b c p"
  shows "held (exec (session dma_init dma_ioctl dma_exit env xs) s) = held s"
proof -
  have "a \<noteq> b" using assms by (simp add: dma_granted_def)
  then show ?thesis
    using dma_exit_ghost [where old = "dma_major s" and R = "held s"]
    by (simp add: session_def exec_bind dma_uses_neutral dma_init_ghost [OF assms] del: run_state_bind)
qed

theorem dma_session_balanced_witness:
  "dma_granted dma_env 0x1000 0x2000 0x3000 0x3000 \<and>
   held (exec (session dma_init dma_ioctl dma_exit dma_env [0, 1]) dma_start) = []"
  using dma_session_balanced [OF dma_env_granted, of "[0, 1]" dma_start] dma_env_granted
  by (simp add: held_def ghost_def dma_start_def)

text \<open>
  When the registers cannot be mapped, loading fails with \<^verbatim>\<open>-EAGAIN\<close> and keeps both buffers, the
  device numbers, the character device and the class: nothing releases them afterwards.
\<close>

theorem dma_init_leaks:
  assumes "dma_granted (\<lambda>n q. if (\<exists>xs. q = QCall ''ioremap'' xs) then p else env n q) a b c p"
    and "always env ''ioremap'' NULL"
  shows "result (dma_init env) s = - EAGAIN \<and>
    held (exec (dma_init env) s) =
      drop 2 (dma_held (dma_major s) (dma_major (exec (dma_init env) s)) a b c p) @ held s"
  using assms
  by (cases "ghost (trace s)")
    (simp add: dma_granted_def always_def dma_init_def dma_held_def held_def ghost_simps)

end
