(* ===== verification/Tslib.thy ===== *)
theory Tslib
  imports Prelude
begin

section \<open>tslib: samples, modules and the contract of a read\<close>

text \<open>
  The touch screen library of \<^verbatim>\<open>11th_ts/tslib\<close> is a chain of modules. Every module offers a
  \<^verbatim>\<open>read(inf, samp, nr)\<close> that fills the caller's array with at most \<^verbatim>\<open>nr\<close> samples and returns
  their number or a negative value; a filter obtains its input from \<^verbatim>\<open>info->next->ops->read\<close>.

  A \<open>reader\<close> is such a function: it takes the state of its module and of everything below it, the
  caller's array and \<open>nr\<close>, and returns the result, the array and the new state. What C leaves
  undefined is a fault: an access outside an array, a division by zero, a \<^verbatim>\<open>NULL\<close> pointer, and a
  loop that is never left. Coordinates are \<^typ>\<open>int\<close> values with \<^const>\<open>wrap32\<close> on every operation
  that may leave 32 bits; the unsigned pressure is a \<^typ>\<open>u32\<close>.

  The locale \<open>reader\<close> is the contract of \<^verbatim>\<open>tslib-filter.h\<close> as the callers use it: a read of a module
  in a good state returns, never reports more samples than were asked for, and touches only the part
  of the array that was handed to it. Every filter is proved to keep the contract of the module below.
\<close>

datatype ts_fault = Null_deref | Out_of_bounds | Div_by_zero | Diverges

record timeval =
  tv_sec :: int
  tv_usec :: int

record ts_sample =
  ts_x :: int
  ts_y :: int
  pressure :: u32
  tv :: timeval

type_synonym 's reader = "'s \<Rightarrow> ts_sample list \<Rightarrow> int \<Rightarrow> ts_fault + (int \<times> ts_sample list \<times> 's)"

subsection \<open>Arrays of samples\<close>

definition samp_get :: "'a list \<Rightarrow> nat \<Rightarrow> ts_fault + 'a" where
  "samp_get buf i = (if i < length buf then Inr (buf ! i) else Inl Out_of_bounds)"

definition samp_put :: "'a list \<Rightarrow> nat \<Rightarrow> 'a \<Rightarrow> ts_fault + 'a list" where
  "samp_put buf i v = (if i < length buf then Inr (buf[i := v]) else Inl Out_of_bounds)"

text \<open>\<^verbatim>\<open>memmove(buf + dst, buf + src, n * sizeof(struct ts_sample))\<close>\<close>

definition samp_move :: "'a list \<Rightarrow> nat \<Rightarrow> nat \<Rightarrow> nat \<Rightarrow> ts_fault + 'a list" where
  "samp_move buf dst src n =
     (if dst + n \<le> length buf \<and> src + n \<le> length buf
      then Inr (take dst buf @ take n (drop src buf) @ drop (dst + n) buf) else Inl Out_of_bounds)"

text \<open>Sequencing: a fault ends the computation.\<close>

definition tbind :: "'e + 'a \<Rightarrow> ('a \<Rightarrow> 'e + 'b) \<Rightarrow> 'e + 'b" where
  "tbind m f = (case m of Inl e \<Rightarrow> Inl e | Inr v \<Rightarrow> f v)"

lemma tbind_simps [simp]: "tbind (Inl e) f = Inl e" "tbind (Inr v) f = f v"
  by (simp_all add: tbind_def)

lemma tbind_Inr: "tbind m f = Inr b \<longleftrightarrow> (\<exists>a. m = Inr a \<and> f a = Inr b)"
  by (cases m) auto

lemma samp_get_ok [simp]: "i < length buf \<Longrightarrow> samp_get buf i = Inr (buf ! i)"
  by (simp add: samp_get_def)

lemma samp_put_ok [simp]: "i < length buf \<Longrightarrow> samp_put buf i v = Inr (buf[i := v])"
  by (simp add: samp_put_def)

text \<open>Lists seen as a processed prefix and the rest of an array.\<close>

lemma take_drop_Cons:
  "0 < n \<Longrightarrow> i < length xs \<Longrightarrow> take n (drop i xs) = xs ! i # take (n - 1) (drop (Suc i) xs)"
  by (metis Cons_nth_drop_Suc One_nat_def diff_Suc_1 gr0_implies_Suc take_Suc_Cons)

lemma take_Suc_update [simp]: "i < length xs \<Longrightarrow> take (Suc i) (xs[i := v]) = take i xs @ [v]"
  by (simp add: take_Suc_conv_app_nth)

lemma drop_update_later [simp]: "i < k \<Longrightarrow> drop k (xs[i := v]) = drop k xs"
  by simp

lemma wrap32_zero [simp]: "wrap32 0 = 0"
  by (simp add: in_s32_def)

text \<open>The static function \<^verbatim>\<open>sqr\<close> of \<^verbatim>\<open>variance.c\<close> and \<^verbatim>\<open>dejitter.c\<close>.\<close>

definition sqr :: "int \<Rightarrow> int" where
  "sqr v = wrap32 (v * v)"

subsection \<open>The contract\<close>

text \<open>The part of the array behind the first \<open>nr\<close> samples and its length are untouched.\<close>

definition same_beyond :: "int \<Rightarrow> 'a list \<Rightarrow> 'a list \<Rightarrow> bool" where
  "same_beyond nr buf buf' \<longleftrightarrow> length buf' = length buf \<and> drop (nat nr) buf' = drop (nat nr) buf"

lemma same_beyond_refl [simp]: "same_beyond nr buf buf"
  by (simp add: same_beyond_def)

lemma same_beyond_trans [trans]:
  "same_beyond nr a b \<Longrightarrow> same_beyond nr b c \<Longrightarrow> same_beyond nr a c"
  by (simp add: same_beyond_def)

lemma drop_eq_mono: "drop n xs = drop n ys \<Longrightarrow> n \<le> m \<Longrightarrow> drop m xs = drop m ys"
  by (metis drop_drop le_add_diff_inverse2)

lemma same_beyond_mono: "same_beyond m a b \<Longrightarrow> m \<le> nr \<Longrightarrow> same_beyond nr a b"
  unfolding same_beyond_def using drop_eq_mono [of "nat m" b a "nat nr"] by auto

lemma same_beyond_update: "int i < nr \<Longrightarrow> same_beyond nr buf (buf[i := v])"
  by (simp add: same_beyond_def)

locale reader =
  fixes read :: "'s reader" and inv :: "'s \<Rightarrow> bool"
  assumes read_returns:
    "inv s \<Longrightarrow> 0 \<le> nr \<Longrightarrow> nr \<le> int (length buf) \<Longrightarrow>
       \<exists>r buf' s'. read s buf nr = Inr (r, buf', s') \<and> inv s' \<and> r \<le> nr \<and> same_beyond nr buf buf'"
begin

lemma read_cases:
  assumes "inv s" "0 \<le> nr" "nr \<le> int (length buf)"
  obtains r buf' s' where "read s buf nr = Inr (r, buf', s')" "inv s'" "r \<le> nr" "same_beyond nr buf buf'"
    "length buf' = length buf"
  using read_returns [OF assms] by (auto simp: same_beyond_def)

text \<open>Any number of reads in a row, each into a fresh array, as an application polls the screen.\<close>

fun polls :: "'s \<Rightarrow> (ts_sample list \<times> int) list \<Rightarrow> ts_fault + (int list \<times> 's)" where
  "polls s [] = Inr ([], s)"
| "polls s ((buf, nr) # qs) = tbind (read s buf nr) (\<lambda>(r, buf', s').
     tbind (polls s' qs) (\<lambda>(rs, s''). Inr (r # rs, s'')))"

lemma polls_return:
  "inv s \<Longrightarrow> \<forall>(buf, nr) \<in> set qs. 0 \<le> nr \<and> nr \<le> int (length buf) \<Longrightarrow>
     \<exists>rs s'. polls s qs = Inr (rs, s') \<and> inv s' \<and> length rs = length qs"
proof (induction qs arbitrary: s)
  case (Cons q qs)
  obtain buf nr where q: "q = (buf, nr)" by force
  have b: "0 \<le> nr" "nr \<le> int (length buf)" using Cons.prems(2) q by auto
  obtain r buf' s' where "read s buf nr = Inr (r, buf', s')" "inv s'"
    by (rule read_cases [OF Cons.prems(1) b])
  moreover obtain rs s'' where "polls s' qs = Inr (rs, s'')" "inv s''" "length rs = length qs"
    using Cons.IH [of s'] \<open>inv s'\<close> Cons.prems by auto
  ultimately show ?case by (simp add: q)
qed simp

end

end
