(* ===== verification/TsParse.thy ===== *)
theory TsParse
  imports Tslib
begin

section \<open>Parameters of a module\<close>

text \<open>
  \<^verbatim>\<open>tslib/src/ts_parse_vars.c\<close> and the functions of the C library it uses. A C string is a
  \<^typ>\<open>string\<close> without its terminator, a possibly \<^verbatim>\<open>NULL\<close> one an option. \<open>strtoul\<close> is the conversion with
  base 0 of a 32-bit \<^verbatim>\<open>long\<close>; its second result says whether it set \<^verbatim>\<open>errno\<close> to \<^verbatim>\<open>ERANGE\<close>. The shared
  buffer \<^verbatim>\<open>s_holder\<close> has 1024 bytes and is filled without a check: a longer string is a fault.
\<close>

subsection \<open>The C library\<close>

definition tolower :: "char \<Rightarrow> char" where
  "tolower c = (if 65 \<le> (of_char c :: nat) \<and> (of_char c :: nat) \<le> 90 then char_of (of_char c + 32 :: nat) else c)"

definition strcaseeq :: "string \<Rightarrow> string \<Rightarrow> bool" where
  "strcaseeq a b \<longleftrightarrow> map tolower a = map tolower b"

definition blank :: "char \<Rightarrow> bool" where
  "blank c \<longleftrightarrow> c = CHR '' '' \<or> c = CHR 0x09"

text \<open>\<^verbatim>\<open>strsep(&s, " \t")\<close> on a string: the token and what \<^verbatim>\<open>s\<close> points to afterwards.\<close>

definition strsep :: "string \<Rightarrow> string \<times> string option" where
  "strsep s = (takeWhile (\<lambda>c. \<not> blank c) s,
     case dropWhile (\<lambda>c. \<not> blank c) s of [] \<Rightarrow> None | _ # r \<Rightarrow> Some r)"

text \<open>\<^verbatim>\<open>eq = strchr(p, '='); if (eq) *eq++ = 0;\<close>: the name and the value behind the sign.\<close>

definition split_eq :: "string \<Rightarrow> string \<times> string option" where
  "split_eq p = (takeWhile (\<lambda>c. c \<noteq> CHR ''='') p,
     case dropWhile (\<lambda>c. c \<noteq> CHR ''='') p of [] \<Rightarrow> None | _ # r \<Rightarrow> Some r)"

definition isspace :: "char \<Rightarrow> bool" where
  "isspace c \<longleftrightarrow> c = CHR '' '' \<or> 9 \<le> (of_char c :: nat) \<and> (of_char c :: nat) \<le> 13"

text \<open>The value of a digit in any base up to 36; 36 for other characters.\<close>

definition digit :: "char \<Rightarrow> nat" where
  "digit c = (let n = of_char c :: nat in
     if 48 \<le> n \<and> n \<le> 57 then n - 48
     else if 65 \<le> n \<and> n \<le> 90 then n - 55
     else if 97 \<le> n \<and> n \<le> 122 then n - 87 else 36)"

definition digits_value :: "nat \<Rightarrow> string \<Rightarrow> nat" where
  "digits_value base s = foldl (\<lambda>a c. a * base + digit c) 0 (takeWhile (\<lambda>c. digit c < base) s)"

definition number_body :: "string \<Rightarrow> nat" where
  "number_body s =
     (case s of c # d # e # r \<Rightarrow>
        if c = CHR ''0'' \<and> (d = CHR ''x'' \<or> d = CHR ''X'') \<and> digit e < 16 then digits_value 16 (e # r)
        else if c = CHR ''0'' then digits_value 8 s else digits_value 10 s
      | c # r \<Rightarrow> if c = CHR ''0'' then digits_value 8 s else digits_value 10 s
      | [] \<Rightarrow> 0)"

definition strtoul :: "string \<Rightarrow> u32 \<times> bool" where
  "strtoul str =
     (let s = dropWhile isspace str;
          neg = (s \<noteq> [] \<and> hd s = CHR ''-'');
          n = number_body (if s \<noteq> [] \<and> (hd s = CHR ''-'' \<or> hd s = CHR ''+'') then tl s else s)
      in if n > 0xFFFFFFFF then (- 1, True) else (if neg then - of_nat n else of_nat n, False))"

abbreviation (input) ERANGE :: int where "ERANGE \<equiv> 34"

subsection \<open>tslib\_parse\_vars\<close>

record 'm tslib_vars =
  v_name :: string
  v_data :: int
  v_fn :: "'m \<Rightarrow> string option \<Rightarrow> int \<Rightarrow> ts_fault + ('m \<times> int)"

text \<open>One token: the first variable with that name gets the value; an unknown name is ignored.\<close>

definition parse_token :: "'m tslib_vars list \<Rightarrow> 'm \<Rightarrow> string \<Rightarrow> ts_fault + ('m \<times> int)" where
  "parse_token vars m p =
     (case split_eq p of (name, eq) \<Rightarrow>
        (case filter (\<lambda>v. strcaseeq (v_name v) name) vars of
           v # _ \<Rightarrow> v_fn v m eq (v_data v) | [] \<Rightarrow> Inr (m, 0)))"

lemma strsep_shorter: "strsep s = (t, Some r) \<Longrightarrow> length r < length s"
proof -
  assume "strsep s = (t, Some r)"
  then have "length r < length (dropWhile (\<lambda>c. \<not> blank c) s)" by (auto simp: strsep_def split: list.splits)
  then show ?thesis using length_dropWhile_le [of _ s] by (rule order.strict_trans2)
qed

text \<open>The loop \<^verbatim>\<open>while ((p = strsep(&s, " \t")) != NULL && ret == 0)\<close>.\<close>

function parse_loop :: "'m tslib_vars list \<Rightarrow> 'm \<Rightarrow> string option \<Rightarrow> int \<Rightarrow> ts_fault + ('m \<times> int)" where
  "parse_loop vars m None rv = Inr (m, rv)"
| "parse_loop vars m (Some s) rv =
     (case strsep s of (p, s') \<Rightarrow>
        if rv = 0 then tbind (parse_token vars m p) (\<lambda>(m', rv'). parse_loop vars m' s' rv') else Inr (m, rv))"
  by pat_completeness auto
termination
  by (relation "measure (\<lambda>(vars, m, s, rv). case s of None \<Rightarrow> 0 | Some t \<Rightarrow> Suc (length t))")
    (auto dest: strsep_shorter [OF sym] split: option.splits)

declare parse_loop.simps(2) [simp del]

definition tslib_parse_vars :: "'m tslib_vars list \<Rightarrow> 'm \<Rightarrow> string option \<Rightarrow> ts_fault + ('m \<times> int)" where
  "tslib_parse_vars vars m str =
     (case str of None \<Rightarrow> Inr (m, 0)
      | Some s \<Rightarrow> if length s < 1024 then parse_loop vars m (Some s) 0 else Inl Out_of_bounds)"

subsection \<open>Strings of tokens\<close>

text \<open>A token holds no blank; tokens are joined by one blank.\<close>

fun join :: "string list \<Rightarrow> string" where
  "join [] = []"
| "join [t] = t"
| "join (t # ts) = t @ '' '' @ join ts"

definition is_token :: "string \<Rightarrow> bool" where
  "is_token t \<longleftrightarrow> (\<forall>c \<in> set t. \<not> blank c)"

fun parse_tokens :: "'m tslib_vars list \<Rightarrow> 'm \<Rightarrow> string list \<Rightarrow> ts_fault + ('m \<times> int)" where
  "parse_tokens vars m [] = Inr (m, 0)"
| "parse_tokens vars m (t # ts) = tbind (parse_token vars m t) (\<lambda>(m', rv).
     if rv = 0 then parse_tokens vars m' ts else Inr (m', rv))"

lemma strsep_token: "is_token t \<Longrightarrow> strsep t = (t, None)"
proof -
  assume "is_token t"
  then have "dropWhile (\<lambda>c. \<not> blank c) t = []" "takeWhile (\<lambda>c. \<not> blank c) t = t"
    by (simp_all add: is_token_def dropWhile_eq_Nil_conv)
  then show ?thesis by (simp only: strsep_def list.case)
qed

lemma strsep_join: "is_token t \<Longrightarrow> strsep (t @ CHR '' '' # r) = (t, Some r)"
  by (simp add: strsep_def is_token_def takeWhile_tail dropWhile_append3 blank_def)

lemma parse_loop_nonzero: "rv \<noteq> 0 \<Longrightarrow> parse_loop vars m s rv = Inr (m, rv)"
  by (cases s) (simp_all add: parse_loop.simps(2) split_beta)

lemma parse_loop_join:
  assumes "\<forall>t \<in> set ts. is_token t" "ts \<noteq> []"
  shows "parse_loop vars m (Some (join ts)) 0 = parse_tokens vars m ts"
  using assms
proof (induction ts arbitrary: m rule: join.induct)
  case (2 t)
  then show ?case by (auto simp: parse_loop.simps(2) strsep_token tbind_def split: sum.splits)
next
  case (3 t u us)
  have rest: "parse_loop vars n (Some (join (u # us))) rv =
      (if rv = 0 then parse_tokens vars n (u # us) else Inr (n, rv))" for n rv
    using 3 by (simp add: parse_loop_nonzero)
  have "strsep (join (t # u # us)) = (t, Some (join (u # us)))" using 3 by (simp add: strsep_join)
  then show ?case
    by (cases "parse_token vars m t")
      (simp_all only: parse_loop.simps(2) [of vars m "join (t # u # us)"] prod.case rest parse_tokens.simps(2) [of vars m t] if_True simp_thms
        tbind_simps split_paired_all)
qed simp

lemma parse_vars_join:
  assumes "\<forall>t \<in> set ts. is_token t" "ts \<noteq> []" "length (join ts) < 1024"
  shows "tslib_parse_vars vars m (Some (join ts)) = parse_tokens vars m ts"
  using assms by (simp add: tslib_parse_vars_def parse_loop_join)

subsection \<open>Decimal numbers\<close>

fun dec :: "nat \<Rightarrow> string" where
  "dec n = (if n < 10 then [char_of (n + 48)] else dec (n div 10) @ [char_of (n mod 10 + 48)])"

declare dec.simps [simp del]

lemma digit_char [simp]: "d < 10 \<Longrightarrow> digit (char_of (d + 48 :: nat)) = d"
  by (simp add: digit_def)

lemma foldl_dec: "foldl (\<lambda>a c. a * 10 + digit c) 0 (dec n) = n"
  by (induction n rule: dec.induct) (subst dec.simps, simp)

lemma dec_digits: "c \<in> set (dec n) \<Longrightarrow> \<exists>d < 10. c = char_of (d + 48 :: nat)"
proof (induction n rule: dec.induct)
  case (1 n)
  show ?case
  proof (cases "n < 10 \<or> c \<in> set (dec (n div 10))")
    case True
    with 1 show ?thesis by (cases "n < 10") (auto simp: dec.simps [of n])
  next
    case False
    with 1 have "c = char_of (n mod 10 + 48)" by (simp add: dec.simps [of n])
    moreover have "n mod 10 < 10" by simp
    ultimately show ?thesis by blast
  qed
qed

lemma hd_dec: "0 < n \<Longrightarrow> dec n \<noteq> [] \<and> hd (dec n) \<noteq> CHR ''0''"
proof (induction n rule: dec.induct)
  case (1 n)
  show ?case
  proof (cases "n < 10")
    case True
    with 1 have "digit (char_of (n + 48)) \<noteq> digit (CHR ''0'')" by (simp add: digit_def)
    then have "char_of (n + 48) \<noteq> CHR ''0''" by metis
    with True show ?thesis by (simp add: dec.simps [of n])
  next
    case False
    with 1 show ?thesis by (simp add: dec.simps [of n])
  qed
qed

lemma digits_value_dec: "digits_value 10 (dec n) = n"
proof -
  have "digit c < 10" if "c \<in> set (dec n)" for c using dec_digits [OF that] by auto
  then have "takeWhile (\<lambda>c. digit c < 10) (dec n) = dec n" by simp
  then show ?thesis by (simp only: digits_value_def foldl_dec)
qed

lemma number_body_dec: "number_body (dec n) = n"
proof (cases "n = 0")
  case True
  then show ?thesis by (simp add: number_body_def dec.simps digits_value_def digit_def)
next
  case False
  then obtain c r where "dec n = c # r" "c \<noteq> CHR ''0''" using hd_dec [of n] by (cases "dec n") auto
  with digits_value_dec [of n] show ?thesis by (auto simp: number_body_def split: list.splits)
qed

lemma dec_char:
  assumes "c \<in> set (dec n)"
  shows "\<not> isspace c" "c \<noteq> CHR ''-''" "c \<noteq> CHR ''+''" "\<not> blank c" "c \<noteq> CHR ''=''"
proof -
  obtain d where d: "d < 10" "c = char_of (d + 48 :: nat)" using dec_digits [OF assms] by blast
  then have n: "(of_char c :: nat) = d + 48" by simp
  from n d(1) show "\<not> isspace c" "c \<noteq> CHR ''-''" "c \<noteq> CHR ''+''" "\<not> blank c" "c \<noteq> CHR ''=''"
    by (auto simp: isspace_def blank_def)
qed

lemma strtoul_dec: "n < 2 ^ 32 \<Longrightarrow> strtoul (dec n) = (of_nat n, False)"
proof -
  assume n: "n < 2 ^ 32"
  have ne: "dec n \<noteq> []" by (subst dec.simps) simp
  then have h: "hd (dec n) \<in> set (dec n)" by simp
  have "dropWhile isspace (dec n) = dec n" using dec_char(1) [OF h] ne by (cases "dec n") auto
  with n dec_char(2,3) [OF h] show ?thesis by (simp add: strtoul_def Let_def number_body_dec)
qed

lemma split_eq_pair: "CHR ''='' \<notin> set name \<Longrightarrow> split_eq (name @ CHR ''='' # v) = (name, Some v)"
proof -
  assume "CHR ''='' \<notin> set name"
  then have "\<And>c. c \<in> set name \<Longrightarrow> c \<noteq> CHR ''=''" by blast
  then show ?thesis by (simp add: split_eq_def takeWhile_append2 dropWhile_append2)
qed

lemma length_dec: "n < 10 ^ Suc k \<Longrightarrow> length (dec n) \<le> Suc k"
proof (induction k arbitrary: n)
  case (Suc k)
  show ?case
  proof (cases "n < 10")
    case False
    then have "length (dec (n div 10)) \<le> Suc k" using Suc by (intro Suc.IH) auto
    with False show ?thesis by (subst dec.simps) simp
  qed (simp add: dec.simps)
qed (simp add: dec.simps)

lemma strtoul_param:
  assumes "k < 2 ^ 32 - 1"
  shows "strtoul (dec k) = (of_nat k, False)" "(of_nat k :: u32) \<noteq> - 1"
proof -
  from assms show "strtoul (dec k) = (of_nat k, False)" by (intro strtoul_dec) simp
  show "(of_nat k :: u32) \<noteq> - 1"
  proof
    assume "(of_nat k :: u32) = - 1"
    then have "unat (of_nat k + 1 :: u32) = unat (0 :: u32)" using \<open>of_nat k = - 1\<close> by simp
    moreover have "(of_nat k + 1 :: u32) = of_nat (k + 1)" by simp
    ultimately have "(k + 1) mod 2 ^ 32 = 0" by (simp only: unat_of_nat unat_0 len_of_numeral_defs) simp
    with assms show False by simp
  qed
qed

lemma is_token_Cons [simp]: "is_token (c # t) \<longleftrightarrow> \<not> blank c \<and> is_token t"
  by (simp add: is_token_def)

lemma is_token_dec [simp]: "is_token (dec n)"
  using dec_char(4) by (auto simp: is_token_def)

end
