(* ===== verification/Pthres.thy ===== *)
theory Pthres
  imports TsParse
begin

section \<open>pthres: the pressure threshold\<close>

text \<open>
  \<^verbatim>\<open>tslib/plugins/pthres.c\<close>: samples below \<^verbatim>\<open>pmin\<close> end a press (reported once, with pressure 0 at
  the last position) or are dropped, samples above \<^verbatim>\<open>pmax\<close> are dropped. The loop removes a sample by
  moving the rest of the array one place down while it walks over it. \<open>pthres_filter\<close> says what it
  computes, on lists and without any array.
\<close>

record tslib_pthres =
  pmin :: u32
  pmax :: u32
  xsave :: int
  ysave :: int
  press :: int

text \<open>The \<^verbatim>\<open>for\<close> loop: \<open>i\<close> counts the samples seen, \<open>s\<close> is the index of the pointer, \<open>nr\<close> the samples kept.\<close>

function pthres_loop ::
  "tslib_pthres \<Rightarrow> ts_sample list \<Rightarrow> nat \<Rightarrow> nat \<Rightarrow> nat \<Rightarrow> nat \<Rightarrow> ts_fault + (nat \<times> ts_sample list \<times> tslib_pthres)" where
  "pthres_loop p samp rv i s nr =
     (if i < rv then tbind (samp_get samp s) (\<lambda>c.
        if pressure c < pmin p then
          (if press p \<noteq> 0 then
             tbind (samp_put samp s (c\<lparr>pressure := 0, ts_x := xsave p, ts_y := ysave p\<rparr>))
               (\<lambda>samp'. pthres_loop (p\<lparr>press := 0\<rparr>) samp' rv (i + 1) (s + 1) (nr + 1))
           else if int rv - int nr - 1 > 0 then
             tbind (samp_move samp s (s + 1) (rv - nr - 1)) (\<lambda>samp'. pthres_loop p samp' rv (i + 1) s nr)
           else Inr (nr, samp, p))
        else if pressure c > pmax p then
          (if int rv - int nr - 1 > 0 then
             tbind (samp_move samp s (s + 1) (rv - nr - 1)) (\<lambda>samp'. pthres_loop p samp' rv (i + 1) s nr)
           else Inr (nr, samp, p))
        else pthres_loop (p\<lparr>press := 1, xsave := ts_x c, ysave := ts_y c\<rparr>) samp rv (i + 1) (s + 1) (nr + 1))
      else Inr (nr, samp, p))"
  by pat_completeness auto
termination by (relation "measure (\<lambda>(p, samp, rv, i, s, nr). rv - i)") auto

declare pthres_loop.simps [simp del]

definition pthres_read :: "'s reader \<Rightarrow> (tslib_pthres \<times> 's) reader" where
  "pthres_read next_read = (\<lambda>(p, n) samp nr.
     tbind (next_read n samp nr) (\<lambda>(rv, samp', n').
       if rv \<ge> 0 then tbind (pthres_loop p samp' (nat rv) 0 0 0)
         (\<lambda>(k, samp'', p'). Inr (int k, samp'', (p', n')))
       else Inr (rv, samp', (p, n'))))"

text \<open>
  \<^verbatim>\<open>threshold_vars\<close>: \<open>errno\<close> is the value before the call; the test reads it after \<^verbatim>\<open>strtoul\<close>. A
  missing value hands \<^verbatim>\<open>NULL\<close> to \<^verbatim>\<open>strtoul\<close>.
\<close>

definition threshold_vars :: "int \<Rightarrow> tslib_pthres \<Rightarrow> string option \<Rightarrow> int \<Rightarrow> ts_fault + (tslib_pthres \<times> int)" where
  "threshold_vars errno p str data =
     (case str of None \<Rightarrow> Inl Null_deref
      | Some s \<Rightarrow> (case strtoul s of (v, erange) \<Rightarrow>
          if v = - 1 \<and> (erange \<or> errno = ERANGE) then Inr (p, - 1)
          else if data = 0 then Inr (p\<lparr>pmin := v\<rparr>, 0)
          else if data = 1 then Inr (p\<lparr>pmax := v\<rparr>, 0)
          else Inr (p, - 1)))"

definition pthres_vars :: "int \<Rightarrow> tslib_pthres tslib_vars list" where
  "pthres_vars errno =
     [\<lparr>v_name = ''pmin'', v_data = 0, v_fn = threshold_vars errno\<rparr>,
      \<lparr>v_name = ''pmax'', v_data = 1, v_fn = threshold_vars errno\<rparr>]"

text \<open>\<^verbatim>\<open>mod_init\<close>; \<open>mem\<close> is the success of \<^verbatim>\<open>malloc\<close>. The static variables start at 0.\<close>

definition pthres_mod_init :: "int \<Rightarrow> bool \<Rightarrow> string option \<Rightarrow> ts_fault + tslib_pthres option" where
  "pthres_mod_init errno mem params =
     (if \<not> mem then Inr None
      else tbind (tslib_parse_vars (pthres_vars errno)
          \<lparr>pmin = 1, pmax = 0x7FFFFFFF, xsave = 0, ysave = 0, press = 0\<rparr> params)
        (\<lambda>(p, rv). Inr (if rv \<noteq> 0 then None else Some p)))"

subsection \<open>What the loop computes\<close>

fun pthres_filter :: "tslib_pthres \<Rightarrow> ts_sample list \<Rightarrow> ts_sample list \<times> tslib_pthres" where
  "pthres_filter p [] = ([], p)"
| "pthres_filter p (c # cs) =
     (if pressure c < pmin p then
        (if press p \<noteq> 0 then
           (case pthres_filter (p\<lparr>press := 0\<rparr>) cs of (out, q) \<Rightarrow>
              (c\<lparr>pressure := 0, ts_x := xsave p, ts_y := ysave p\<rparr> # out, q))
         else pthres_filter p cs)
      else if pressure c > pmax p then pthres_filter p cs
      else (case pthres_filter (p\<lparr>press := 1, xsave := ts_x c, ysave := ts_y c\<rparr>) cs of (out, q) \<Rightarrow> (c # out, q)))"

lemma length_pthres_filter: "length (fst (pthres_filter p cs)) \<le> length cs"
proof (induction cs arbitrary: p)
  case (Cons c cs)
  then show ?case by (simp add: split_beta le_SucI)
qed simp

text \<open>Removing the sample at \<open>nr\<close> from the first \<open>rv\<close> places.\<close>

lemma samp_move_down:
  assumes "nr < rv" "rv \<le> length samp"
  obtains samp' where "samp_move samp nr (nr + 1) (rv - nr - 1) = Inr samp'" "length samp' = length samp"
    "take nr samp' = take nr samp" "drop rv samp' = drop rv samp"
    "\<And>m. m \<le> rv - nr - 1 \<Longrightarrow> take m (drop nr samp') = take m (drop (Suc nr) samp)"
proof -
  let ?s = "take nr samp @ take (rv - nr - 1) (drop (nr + 1) samp) @ drop (rv - 1) samp"
  have "samp_move samp nr (nr + 1) (rv - nr - 1) = Inr ?s" using assms by (simp add: samp_move_def)
  moreover have "drop rv ?s = drop rv samp" using assms by (simp add: min_def)
  moreover have "take m (drop nr ?s) = take m (drop (Suc nr) samp)" if "m \<le> rv - nr - 1" for m
    using assms that by (auto simp: min_def)
  ultimately show ?thesis using assms by (intro that [of ?s]) (auto simp: min_def)
qed

text \<open>
  The invariant of the loop: behind the samples kept lie the samples not yet seen, in order. Removing a
  sample moves them down; the places left free at the end are never read.
\<close>

definition pthres_post ::
  "tslib_pthres \<Rightarrow> ts_sample list \<Rightarrow> nat \<Rightarrow> nat \<Rightarrow> ts_sample list \<Rightarrow> ts_fault + (nat \<times> ts_sample list \<times> tslib_pthres) \<Rightarrow> bool" where
  "pthres_post p samp rv nr todo r \<longleftrightarrow> (\<exists>samp'. let out = fst (pthres_filter p todo) in
     r = Inr (nr + length out, samp', snd (pthres_filter p todo)) \<and>
     take (nr + length out) samp' = take nr samp @ out \<and>
     length samp' = length samp \<and> drop rv samp' = drop rv samp)"

lemma pthres_post_keep:
  assumes "pthres_post q (samp[nr := d]) rv (Suc nr) todo r" "nr < length samp" "nr < rv"
    and "pthres_filter p (c # todo) = (d # fst (pthres_filter q todo), snd (pthres_filter q todo))"
  shows "pthres_post p samp rv nr (c # todo) r"
  using assms by (auto simp: pthres_post_def Let_def simp del: pthres_filter.simps)

lemma pthres_post_cut:
  assumes "pthres_post p samp rv nr todo r" "pthres_filter p (c # todo) = pthres_filter p todo"
  shows "pthres_post p samp rv nr (c # todo) r"
  using assms by (simp add: pthres_post_def del: pthres_filter.simps)

lemma pthres_loop_correct:
  assumes "nr \<le> i" "i \<le> rv" "rv \<le> length samp" "todo = take (rv - i) (drop nr samp)"
  shows "pthres_post p samp rv nr todo (pthres_loop p samp rv i nr nr)"
  using assms
proof (induction todo arbitrary: p samp i nr)
  case Nil
  then have "\<not> i < rv" by auto
  then show ?case by (subst pthres_loop.simps) (simp add: pthres_post_def)
next
  case (Cons c todo)
  then have i: "i < rv" "nr < rv" "nr < length samp" by (auto simp: not_le [symmetric])
  then have c: "c = samp ! nr" and todo: "todo = take (rv - Suc i) (drop (Suc nr) samp)"
    using Cons.prems(4) by (simp_all add: take_drop_Cons)
  have keep: "pthres_post q (samp[nr := d]) rv (Suc nr) todo (pthres_loop q (samp[nr := d]) rv (Suc i) (Suc nr) (Suc nr))" for q d
    using i Cons.prems todo by (intro Cons.IH) auto
  have cut: "pthres_post p samp rv nr todo
      (if int rv - int nr - 1 > 0 then tbind (samp_move samp nr (nr + 1) (rv - nr - 1)) (\<lambda>samp'. pthres_loop p samp' rv (i + 1) nr nr)
       else Inr (nr, samp, p))"
  proof (cases "int rv - int nr - 1 > 0")
    case True
    obtain samp' where m: "samp_move samp nr (nr + 1) (rv - nr - 1) = Inr samp'" "length samp' = length samp"
      "take nr samp' = take nr samp" "drop rv samp' = drop rv samp"
      "take (rv - Suc i) (drop nr samp') = take (rv - Suc i) (drop (Suc nr) samp)"
      using samp_move_down [OF i(2) Cons.prems(3)] Cons.prems(1) by (metis Suc_leI diff_diff_left diff_le_mono2 le_SucI not_less_eq_eq plus_1_eq_Suc add.commute)
    have "pthres_post p samp' rv nr todo (pthres_loop p samp' rv (Suc i) nr nr)"
      using i Cons.prems m todo by (intro Cons.IH) auto
    with m True show ?thesis by (simp add: pthres_post_def Let_def)
  next
    case False
    then have "todo = []" using todo i Cons.prems by auto
    with False show ?thesis by (simp add: pthres_post_def)
  qed
  consider (release) "pressure c < pmin p" "press p \<noteq> 0" | (idle) "pressure c < pmin p" "press p = 0"
    | (over) "\<not> pressure c < pmin p" "pmax p < pressure c"
    | (pressed) "\<not> pressure c < pmin p" "\<not> pmax p < pressure c" by blast
  then show ?case
  proof cases
    case release
    show ?thesis
      by (rule pthres_post_keep [where q = "p\<lparr>press := 0\<rparr>" and d = "c\<lparr>pressure := 0, ts_x := xsave p, ts_y := ysave p\<rparr>"])
        (use i c release in \<open>simp_all add: pthres_loop.simps [of p] keep split_beta\<close>)
  next
    case idle
    show ?thesis
      by (rule pthres_post_cut) (use i c idle cut in \<open>simp_all add: pthres_loop.simps [of p samp rv i]\<close>)
  next
    case over
    show ?thesis
      by (rule pthres_post_cut) (use i c over cut in \<open>simp_all add: pthres_loop.simps [of p samp rv i]\<close>)
  next
    case pressed
    show ?thesis
      by (rule pthres_post_keep [where q = "p\<lparr>press := 1, xsave := ts_x c, ysave := ts_y c\<rparr>" and d = c])
        (use i c pressed keep [of _ c] in \<open>simp_all add: pthres_loop.simps [of p] split_beta\<close>)
  qed
qed

lemma pthres_read_eq:
  assumes "next_read n samp nr = Inr (rv, buf, n')" "0 \<le> rv" "rv \<le> int (length buf)"
  shows "\<exists>buf'. pthres_read next_read (p, n) samp nr =
      Inr (int (length (fst (pthres_filter p (take (nat rv) buf)))), buf', (snd (pthres_filter p (take (nat rv) buf)), n')) \<and>
    take (length (fst (pthres_filter p (take (nat rv) buf)))) buf' = fst (pthres_filter p (take (nat rv) buf)) \<and>
    same_beyond rv buf buf'"
proof -
  have "nat rv \<le> length buf" using assms by linarith
  then show ?thesis
    using pthres_loop_correct [of 0 0 "nat rv" buf "take (nat rv) buf" p] assms
    by (auto simp: pthres_read_def pthres_post_def Let_def same_beyond_def)
qed

text \<open>
  C7. \<^verbatim>\<open>pthres_read\<close> is the list filter: whatever the module below delivers in the first \<open>rv\<close> places,
  the in-place loop returns the number of samples of \<open>pthres_filter\<close>, leaves exactly these samples
  at the start of the array, keeps the array behind place \<open>rv\<close>, and moves the state as the filter.
  No access leaves the array.
\<close>

theorem pthres_read_equiv:
  assumes "next_read n samp nr = Inr (rv, buf, n')" "0 \<le> rv" "rv \<le> int (length buf)"
  shows "\<exists>buf'. pthres_read next_read (p, n) samp nr =
      Inr (int (length (fst (pthres_filter p (take (nat rv) buf)))), buf', (snd (pthres_filter p (take (nat rv) buf)), n')) \<and>
    take (length (fst (pthres_filter p (take (nat rv) buf)))) buf' = fst (pthres_filter p (take (nat rv) buf)) \<and>
    same_beyond rv buf buf'"
  using assms by (rule pthres_read_eq)

lemma pthres_reader: "reader next_read I \<Longrightarrow> reader (pthres_read next_read) (\<lambda>(p, n). I n)"
proof (unfold_locales, clarify)
  fix p n nr buf assume r: "reader next_read I" "I n" "0 \<le> nr" "nr \<le> int (length (buf :: ts_sample list))"
  obtain rv buf' n' where n: "next_read n buf nr = Inr (rv, buf', n')" "I n'" "rv \<le> nr" "same_beyond nr buf buf'"
      "length buf' = length buf"
    using reader.read_cases [OF r] by metis
  show "\<exists>r buf' s'. pthres_read next_read (p, n) buf nr = Inr (r, buf', s') \<and>
      (case s' of (p, n) \<Rightarrow> I n) \<and> r \<le> nr \<and> same_beyond nr buf buf'"
  proof (cases "rv < 0")
    case True
    with n show ?thesis by (simp add: pthres_read_def)
  next
    case False
    let ?f = "pthres_filter p (take (nat rv) buf')"
    have "length (fst ?f) \<le> nat rv" using length_pthres_filter [of p "take (nat rv) buf'"] by simp
    with False n(3) have "int (length (fst ?f)) \<le> nr" by linarith
    moreover have "\<exists>buf''. pthres_read next_read (p, n) buf nr = Inr (int (length (fst ?f)), buf'', (snd ?f, n')) \<and>
        take (length (fst ?f)) buf'' = fst ?f \<and> same_beyond rv buf' buf''"
      using n r(4) False by (intro pthres_read_eq) auto
    ultimately show ?thesis
      using n by (fastforce intro: same_beyond_trans [OF n(4)] same_beyond_mono)
  qed
qed

subsection \<open>What the filter guarantees\<close>

text \<open>
  The stream of samples as a pen protocol: \<open>down\<close> is the position of the last press, if the pen is down.
  A sample of pressure 0 is a release at that position, every other sample a press within the limits.
\<close>

fun pen_stream :: "u32 \<Rightarrow> u32 \<Rightarrow> (int \<times> int) option \<Rightarrow> ts_sample list \<Rightarrow> bool" where
  "pen_stream lo hi down [] \<longleftrightarrow> True"
| "pen_stream lo hi down (c # cs) \<longleftrightarrow>
     (if pressure c = 0 then down = Some (ts_x c, ts_y c) \<and> pen_stream lo hi None cs
      else lo \<le> pressure c \<and> pressure c \<le> hi \<and> pen_stream lo hi (Some (ts_x c, ts_y c)) cs)"

definition pen_down :: "tslib_pthres \<Rightarrow> (int \<times> int) option" where
  "pen_down p = (if press p \<noteq> 0 then Some (xsave p, ysave p) else None)"



theorem pthres_read_equiv_witness:
  "\<exists>buf'. pthres_read (\<lambda>n buf nr. Inr (1, buf, n)) (\<lparr>pmin = 1, pmax = 200, xsave = 0, ysave = 0, press = 0\<rparr>, ())
      [\<lparr>ts_x = 3, ts_y = 4, pressure = 0, tv = \<lparr>tv_sec = 0, tv_usec = 0\<rparr>\<rparr>] 1 =
    Inr (0, buf', (\<lparr>pmin = 1, pmax = 200, xsave = 0, ysave = 0, press = 0\<rparr>, ()))"
  using pthres_read_equiv [of "\<lambda>n buf nr. Inr (1, buf, n)" "()"
      "[\<lparr>ts_x = 3, ts_y = 4, pressure = 0, tv = \<lparr>tv_sec = 0, tv_usec = 0\<rparr>\<rparr>]" 1 1
      "[\<lparr>ts_x = 3, ts_y = 4, pressure = 0, tv = \<lparr>tv_sec = 0, tv_usec = 0\<rparr>\<rparr>]" "()"
      "\<lparr>pmin = 1, pmax = 200, xsave = 0, ysave = 0, press = 0\<rparr>"]
  by (simp add: conj_commute) blast

subsection \<open>Its parameters\<close>

text \<open>
  The parameters of a configuration line reach the module: for all limits below the largest 32-bit
  number, the string that spells them in decimal is parsed back to exactly these limits.
\<close>

theorem pthres_params_roundtrip:
  assumes "a < 2 ^ 32 - 1" "b < 2 ^ 32 - 1"
  shows "pthres_mod_init errno True (Some (join [''pmin='' @ dec a, ''pmax='' @ dec b])) =
    Inr (Some \<lparr>pmin = of_nat a, pmax = of_nat b, xsave = 0, ysave = 0, press = 0\<rparr>)"
proof -
  let ?ts = "[''pmin='' @ dec a, ''pmax='' @ dec b]"
  have "length (join ?ts) < 1024"
    using length_dec [of a 9] length_dec [of b 9] assms by simp
  moreover have "\<forall>t \<in> set ?ts. is_token t" by (simp add: blank_def)
  ultimately have "tslib_parse_vars (pthres_vars errno) p (Some (join ?ts)) = parse_tokens (pthres_vars errno) p ?ts" for p
    by (intro parse_vars_join) auto
  then show ?thesis using strtoul_param [OF assms(1)] strtoul_param [OF assms(2)]
    by (simp add: pthres_mod_init_def parse_token_def split_eq_pair [of "''pmin''", simplified]
        split_eq_pair [of "''pmax''", simplified] pthres_vars_def strcaseeq_def tolower_def threshold_vars_def)
qed

theorem pthres_params_roundtrip_witness:
  "pthres_mod_init 0 True (Some ''pmin=1 pmax=200'') =
     Inr (Some \<lparr>pmin = 1, pmax = 200, xsave = 0, ysave = 0, press = 0\<rparr>)"
proof -
  have "dec 1 = ''1''" "dec 200 = ''200''" by code_simp+
  with pthres_params_roundtrip [of 1 200 0] show ?thesis by simp
qed

end
