(* ===== verification/Variance.thy ===== *)
theory Variance
  imports TsParse
begin

section \<open>variance: the noise filter\<close>

text \<open>
  \<^verbatim>\<open>tslib/plugins/variance.c\<close> delays the samples by one and holds back a sample that lies too far from
  its predecessor. One round of the \<^verbatim>\<open>while\<close> loop after a sample was obtained is \<open>variance_step\<close>; the
  loop asks the module below for one sample at a time. Whether the loop ends is not obvious, because
  not every round delivers a sample: it takes fuel and \<open>variance_loop_returns\<close> bounds its rounds. The
  structure comes from \<^verbatim>\<open>malloc\<close>, which leaves the samples in it undefined.
\<close>

record tslib_variance =
  v_delta :: int
  v_last :: ts_sample
  v_noise :: ts_sample
  v_flags :: u32

abbreviation (input) VAR_PENDOWN :: u32 where "VAR_PENDOWN \<equiv> 1"
abbreviation (input) VAR_LASTVALID :: u32 where "VAR_LASTVALID \<equiv> 2"
abbreviation (input) VAR_NOISEVALID :: u32 where "VAR_NOISEVALID \<equiv> 4"
abbreviation (input) VAR_SUBMITNOISE :: u32 where "VAR_SUBMITNOISE \<equiv> 8"

definition sample_dist :: "ts_sample \<Rightarrow> ts_sample \<Rightarrow> int" where
  "sample_dist c l = wrap32 (sqr (wrap32 (ts_x c - ts_x l)) + sqr (wrap32 (ts_y c - ts_y l)))"

text \<open>The new state and the sample stored into \<^verbatim>\<open>samp[count++]\<close>, if any.\<close>

definition variance_accept :: "tslib_variance \<Rightarrow> ts_sample \<Rightarrow> tslib_variance \<times> ts_sample option" where
  "variance_accept var cur = (var\<lparr>v_last := cur\<rparr>, Some (v_last var))"

definition variance_step :: "tslib_variance \<Rightarrow> ts_sample \<Rightarrow> tslib_variance \<times> ts_sample option" where
  "variance_step var cur =
     (if pressure cur = 0 then
        (let var1 = (if v_flags var AND VAR_PENDOWN \<noteq> 0
                     then var\<lparr>v_flags := v_flags var OR VAR_SUBMITNOISE, v_noise := cur\<rparr> else var)
         in variance_accept (var1\<lparr>v_flags := v_flags var1 AND NOT (VAR_PENDOWN OR VAR_NOISEVALID OR VAR_LASTVALID)\<rparr>) cur)
      else
        (let var1 = var\<lparr>v_flags := v_flags var OR VAR_PENDOWN\<rparr> in
         if v_flags var1 AND VAR_LASTVALID = 0 then
           (var1\<lparr>v_last := cur, v_flags := v_flags var1 OR VAR_LASTVALID\<rparr>, None)
         else if v_flags var1 AND VAR_PENDOWN \<noteq> 0 then
           (if sample_dist cur (v_last var1) > v_delta var1 then
              (if v_flags var1 AND VAR_NOISEVALID \<noteq> 0 then
                 (var1\<lparr>v_last := v_noise var1,
                    v_flags := (v_flags var1 AND NOT VAR_NOISEVALID) OR VAR_SUBMITNOISE, v_noise := cur\<rparr>,
                  Some (v_noise var1))
               else (var1\<lparr>v_flags := v_flags var1 OR VAR_NOISEVALID, v_noise := cur\<rparr>, None))
            else variance_accept (var1\<lparr>v_flags := v_flags var1 AND NOT VAR_NOISEVALID\<rparr>) cur)
         else variance_accept var1 cur))"

text \<open>
  The loop. \<open>cur\<close> is the local variable of the C function, undefined at first; the module below is
  called with its address and a length of 1.
\<close>

fun variance_loop ::
  "'s reader \<Rightarrow> nat \<Rightarrow> tslib_variance \<Rightarrow> 's \<Rightarrow> ts_sample \<Rightarrow> ts_sample list \<Rightarrow> int \<Rightarrow> nat
     \<Rightarrow> ts_fault + (int \<times> ts_sample list \<times> (tslib_variance \<times> 's))" where
  "variance_loop next_read 0 var n cur samp nr count = Inl Diverges"
| "variance_loop next_read (Suc fuel) var n cur samp nr count =
     (if int count < nr then
        tbind (if v_flags var AND VAR_SUBMITNOISE \<noteq> 0
               then Inr (1, [v_noise var], (var\<lparr>v_flags := v_flags var AND NOT VAR_SUBMITNOISE\<rparr>, n))
               else tbind (next_read n [cur] 1) (\<lambda>(r, buf, n'). Inr (r, buf, (var, n'))))
          (\<lambda>(r, buf, (var1, n')). tbind (samp_get buf 0) (\<lambda>c.
             if r < 1 then Inr (int count, samp, (var1, n'))
             else (case variance_step var1 c of
                 (var2, None) \<Rightarrow> variance_loop next_read fuel var2 n' c samp nr count
               | (var2, Some out) \<Rightarrow> tbind (samp_put samp count out)
                   (\<lambda>samp'. variance_loop next_read fuel var2 n' c samp' nr (count + 1)))))
      else Inr (int count, samp, (var, n)))"

text \<open>\<open>cur0\<close> is what the uninitialised local variable happens to hold.\<close>

definition variance_read :: "ts_sample \<Rightarrow> 's reader \<Rightarrow> (tslib_variance \<times> 's) reader" where
  "variance_read cur0 next_read = (\<lambda>(var, n) samp nr.
     variance_loop next_read (3 * nat nr + 3) var n cur0 samp nr 0)"

definition variance_limit :: "int \<Rightarrow> tslib_variance \<Rightarrow> string option \<Rightarrow> int \<Rightarrow> ts_fault + (tslib_variance \<times> int)" where
  "variance_limit errno var str data =
     (case str of None \<Rightarrow> Inl Null_deref
      | Some s \<Rightarrow> (case strtoul s of (v, erange) \<Rightarrow>
          if v = - 1 \<and> (erange \<or> errno = ERANGE) then Inr (var, - 1)
          else if data = 1 then Inr (var\<lparr>v_delta := sint v\<rparr>, 0)
          else Inr (var, - 1)))"

definition variance_vars :: "int \<Rightarrow> tslib_variance tslib_vars list" where
  "variance_vars errno = [\<lparr>v_name = ''delta'', v_data = 1, v_fn = variance_limit errno\<rparr>]"

text \<open>\<open>fresh\<close> is the memory \<^verbatim>\<open>malloc\<close> returned, \<open>None\<close> if it returned \<^verbatim>\<open>NULL\<close>.\<close>

definition variance_mod_init :: "int \<Rightarrow> tslib_variance option \<Rightarrow> string option \<Rightarrow> ts_fault + tslib_variance option" where
  "variance_mod_init errno fresh params =
     (case fresh of None \<Rightarrow> Inr None
      | Some mem \<Rightarrow> tbind (tslib_parse_vars (variance_vars errno) (mem\<lparr>v_delta := 30, v_flags := 0\<rparr>) params)
          (\<lambda>(var, rv). Inr (if rv \<noteq> 0 then None else Some (var\<lparr>v_delta := sqr (v_delta var)\<rparr>))))"

subsection \<open>The loop ends\<close>

text \<open>
  Every round either delivers a sample or sets one of the flags LASTVALID and NOISEVALID that was not
  set; a delivery clears at most these two.
\<close>

definition undelivered :: "tslib_variance \<Rightarrow> nat" where
  "undelivered var = (if bit (v_flags var) 1 then 0 else 1) + (if bit (v_flags var) 2 then 0 else 1)"

lemma flag_bits: "(v AND 1 = (0 :: u32)) = (\<not> bit v 0)" "(v AND 2 = (0 :: u32)) = (\<not> bit v 1)"
  "(v AND 4 = (0 :: u32)) = (\<not> bit v 2)" "(v AND 8 = (0 :: u32)) = (\<not> bit v 3)"
  using and_push_bit_one [of v 0] and_push_bit_one [of v 1] and_push_bit_one [of v 2] and_push_bit_one [of v 3]
  by (auto simp: push_bit_eq_mult numeral_eq_Suc)

lemma undelivered_le: "undelivered var \<le> 2"
  by (simp add: undelivered_def)

lemma variance_step_quiet:
  "variance_step var c = (var', None) \<Longrightarrow> undelivered var' < undelivered var"
  by (auto simp: variance_step_def variance_accept_def undelivered_def Let_def flag_bits bit_simps
      split: if_splits)

lemma undelivered_submit: "undelivered (var\<lparr>v_flags := v_flags var AND NOT 8\<rparr>) = undelivered var"
  by (simp add: undelivered_def bit_simps)

lemmas undelivered_submit_numeral [simp] = undelivered_submit [simplified]

lemma variance_loop_returns:
  assumes "reader next_read I"
  shows "I n \<Longrightarrow> 3 * (nat nr - count) + undelivered var < fuel \<Longrightarrow> int count \<le> nr \<Longrightarrow> nr \<le> int (length samp) \<Longrightarrow>
    \<exists>r samp' var' n'. variance_loop next_read fuel var n cur samp nr count = Inr (r, samp', (var', n')) \<and>
      I n' \<and> int count \<le> r \<and> r \<le> nr \<and> same_beyond nr samp samp'"
proof (induction fuel arbitrary: var n cur samp count)
  case (Suc fuel)
  show ?case
  proof (cases "int count < nr")
    case True
    have step: "\<exists>r samp' var' n'. (case variance_step var1 c of
          (var2, None) \<Rightarrow> variance_loop next_read fuel var2 n1 c samp nr count
        | (var2, Some out) \<Rightarrow> tbind (samp_put samp count out)
            (\<lambda>samp'. variance_loop next_read fuel var2 n1 c samp' nr (count + 1))) = Inr (r, samp', (var', n')) \<and>
        I n' \<and> int count \<le> r \<and> r \<le> nr \<and> same_beyond nr samp samp'"
      if "I n1" "undelivered var1 = undelivered var" for var1 c n1
    proof (cases "snd (variance_step var1 c)")
      case None
      then obtain v where v: "variance_step var1 c = (v, None)" by (metis prod.collapse)
      show ?thesis unfolding v prod.case option.case
        using variance_step_quiet [OF v] Suc.prems that by (intro Suc.IH) auto
    next
      case (Some out)
      then obtain v where v: "variance_step var1 c = (v, Some out)" by (metis prod.collapse)
      have "\<exists>r samp' var' n'. variance_loop next_read fuel v n1 c (samp[count := out]) nr (count + 1) =
          Inr (r, samp', (var', n')) \<and> I n' \<and> int (count + 1) \<le> r \<and> r \<le> nr \<and> same_beyond nr (samp[count := out]) samp'"
        using undelivered_le [of v] True Suc.prems that by (intro Suc.IH) auto
      with v True Suc.prems same_beyond_trans [OF same_beyond_update [OF True, of samp out]] show ?thesis
        by fastforce
    qed
    show ?thesis
    proof (cases "v_flags var AND 8 \<noteq> 0")
      case sub: True
      with True step [of n "var\<lparr>v_flags := v_flags var AND NOT 8\<rparr>" "v_noise var"] Suc.prems show ?thesis by simp
    next
      case False
      obtain r buf n1 where n: "next_read n [cur] 1 = Inr (r, buf, n1)" "I n1" "length buf = length [cur]"
        using reader.read_cases [OF assms Suc.prems(1), of 1 "[cur]"] by (metis length_Cons list.size(3) One_nat_def of_nat_1 order_refl zero_le_one)
      with True False step [of n1 var "buf ! 0"] Suc.prems show ?thesis by simp
    qed
  next
    case False
    with Suc.prems show ?thesis by simp
  qed
qed simp

lemma variance_reader:
  assumes "reader next_read I"
  shows "reader (variance_read cur0 next_read) (\<lambda>(var, n). I n)"
proof (unfold_locales, clarify)
  fix var n nr buf assume "I n" "0 \<le> nr" "nr \<le> int (length (buf :: ts_sample list))"
  with variance_loop_returns [OF assms, of n nr 0 var "3 * nat nr + 3" buf cur0] undelivered_le [of var]
  show "\<exists>r buf' s'. variance_read cur0 next_read (var, n) buf nr = Inr (r, buf', s') \<and>
      (case s' of (var, n) \<Rightarrow> I n) \<and> r \<le> nr \<and> same_beyond nr buf buf'"
    by (fastforce simp: variance_read_def)
qed

text \<open>More fuel than needed changes nothing: the bound of \<open>variance_read\<close> is not part of the result.\<close>

lemma variance_loop_fuel:
  "variance_loop next_read fuel var n cur samp nr count = Inr res \<Longrightarrow> fuel \<le> fuel' \<Longrightarrow>
     variance_loop next_read fuel' var n cur samp nr count = Inr res"
proof (induction fuel arbitrary: fuel' var n cur samp count)
  case (Suc fuel)
  then obtain f where f: "fuel' = Suc f" "fuel \<le> f" by (cases fuel') auto
  from Suc.prems(1) show ?case unfolding f(1)
    by (auto simp: tbind_Inr Suc.IH [OF _ f(2)] split: if_splits option.splits prod.splits)
qed simp

text \<open>
  C8. A read of \<^verbatim>\<open>variance\<close> returns: over any module that keeps the contract, the loop for \<open>nr\<close> samples
  is left after at most 3*nr + 2 rounds, with a count between 0 and \<open>nr\<close> and without a store behind
  the array; more rounds would not change the result.
\<close>

theorem variance_terminates:
  assumes "reader next_read I" "I n" "0 \<le> nr" "nr \<le> int (length samp)"
  shows "\<exists>r samp' var' n'. r \<in> {0..nr} \<and> same_beyond nr samp samp' \<and> I n' \<and>
    (\<forall>fuel \<ge> 3 * nat nr + 3. variance_loop next_read fuel var n cur0 samp nr 0 = Inr (r, samp', (var', n'))) \<and>
    variance_read cur0 next_read (var, n) samp nr = Inr (r, samp', (var', n'))"
proof -
  obtain r samp' var' n' where v: "variance_loop next_read (3 * nat nr + 3) var n cur0 samp nr 0 = Inr (r, samp', (var', n'))"
      "I n'" "0 \<le> r" "r \<le> nr" "same_beyond nr samp samp'"
    using variance_loop_returns [OF assms(1,2), of nr 0 var "3 * nat nr + 3" samp cur0] undelivered_le [of var] assms(3,4)
    by auto
  with variance_loop_fuel [OF v(1)] show ?thesis by (auto simp: variance_read_def)
qed

subsection \<open>What it delivers\<close>

text \<open>A module below that hands out the samples of a list one at a time, and none when the list is empty.\<close>

fun list_reader :: "ts_sample list reader" where
  "list_reader [] buf nr = Inr (0, buf, [])"
| "list_reader (c # cs) buf nr = (if nr \<le> 0 \<or> buf = [] then Inr (0, buf, c # cs) else Inr (1, buf[0 := c], cs))"

lemma list_reader_reader: "reader list_reader (\<lambda>_. True)"
proof (unfold_locales)
  fix s :: "ts_sample list" and nr and buf :: "ts_sample list" assume "0 \<le> nr" "nr \<le> int (length buf)"
  then show "\<exists>r buf' s'. list_reader s buf nr = Inr (r, buf', s') \<and> True \<and> r \<le> nr \<and> same_beyond nr buf buf'"
    by (cases s) (auto intro: same_beyond_update)
qed

interpretation below: reader list_reader "\<lambda>_. True"
  by (rule list_reader_reader)

interpretation denoised: reader "variance_read cur0 list_reader" "\<lambda>(var, n). True" for cur0
  by (rule variance_reader [OF list_reader_reader])

theorem variance_terminates_witness:
  "\<exists>r samp' var' n'. r \<in> {0..1} \<and>
     variance_read \<lparr>ts_x = 0, ts_y = 0, pressure = 0, tv = \<lparr>tv_sec = 0, tv_usec = 0\<rparr>\<rparr> list_reader
       (\<lparr>v_delta = 900, v_last = \<lparr>ts_x = 0, ts_y = 0, pressure = 0, tv = \<lparr>tv_sec = 0, tv_usec = 0\<rparr>\<rparr>,
         v_noise = \<lparr>ts_x = 0, ts_y = 0, pressure = 0, tv = \<lparr>tv_sec = 0, tv_usec = 0\<rparr>\<rparr>, v_flags = 0\<rparr>, [])
       [\<lparr>ts_x = 0, ts_y = 0, pressure = 0, tv = \<lparr>tv_sec = 0, tv_usec = 0\<rparr>\<rparr>] 1 = Inr (r, samp', (var', n'))"
  using variance_terminates [OF list_reader_reader TrueI, of 1 "[\<lparr>ts_x = 0, ts_y = 0, pressure = 0, tv = \<lparr>tv_sec = 0, tv_usec = 0\<rparr>\<rparr>]"]
  by (simp del: list_reader.simps variance_loop.simps) blast

lemmas variance_loop_numeral [simp] = variance_loop.simps(2) [of _ "pred_numeral k" for k, folded numeral_eq_Suc]

text \<open>Pen down, the delayed sample \<open>v_last\<close> valid, nothing suspicious.\<close>

definition variance_tracking :: "tslib_variance \<Rightarrow> bool" where
  "variance_tracking var \<longleftrightarrow> v_flags var = VAR_PENDOWN OR VAR_LASTVALID"

text \<open>
  A spike is removed: when \<open>b\<close> lies too far from the delayed sample and the next sample \<open>c\<close> does not,
  a read for one sample delivers the delayed sample, \<open>c\<close> becomes the delayed one and \<open>b\<close> is gone.
\<close>

theorem variance_spike_dropped:
  assumes "variance_tracking var" "pressure b \<noteq> 0" "pressure c \<noteq> 0"
    and "sample_dist b (v_last var) > v_delta var" "sample_dist c (v_last var) \<le> v_delta var"
  shows "variance_read cur0 list_reader (var, [b, c]) [s0] 1 =
    Inr (1, [v_last var], (var\<lparr>v_last := c, v_noise := b\<rparr>, []))"
  using assms
  by (simp add: variance_read_def variance_step_def variance_accept_def variance_tracking_def)

text \<open>
  A quick movement loses the delayed sample and repeats another: when \<open>b\<close> and \<open>c\<close> both lie too far
  from the delayed sample \<open>a\<close> and \<open>c\<close> is close to \<open>b\<close>, a read for two samples delivers \<open>b\<close> twice, \<open>c\<close>
  becomes the delayed sample, and \<open>a\<close> is never delivered.
\<close>

theorem variance_quick_move:
  assumes "variance_tracking var" "pressure b \<noteq> 0" "pressure c \<noteq> 0"
    and "sample_dist b (v_last var) > v_delta var" "sample_dist c (v_last var) > v_delta var"
    and "sample_dist c b \<le> v_delta var"
  shows "variance_read cur0 list_reader (var, [b, c]) [s0, s1] 2 =
    Inr (2, [b, b], (var\<lparr>v_last := c, v_noise := c\<rparr>, []))"
  using assms
  by (simp add: variance_read_def variance_step_def variance_accept_def variance_tracking_def)

text \<open>
  A module that has just been loaded and first sees a pen-up delivers whatever \<^verbatim>\<open>malloc\<close> left in the
  structure as a sample.
\<close>

theorem variance_delivers_garbage:
  assumes "variance_mod_init errno (Some mem) None = Inr (Some var)" "pressure c = 0"
  shows "variance_read cur0 list_reader (var, [c]) [s0] 1 =
    Inr (1, [v_last mem], (mem\<lparr>v_delta := 900, v_last := c, v_flags := 0\<rparr>, []))"
  using assms
  by (auto simp: variance_mod_init_def tslib_parse_vars_def sqr_def in_s32_def variance_read_def
      variance_step_def variance_accept_def)

definition at_pos :: "int \<Rightarrow> int \<Rightarrow> u32 \<Rightarrow> ts_sample" where
  "at_pos h v p = \<lparr>ts_x = h, ts_y = v, pressure = p, tv = \<lparr>tv_sec = 0, tv_usec = 0\<rparr>\<rparr>"

definition tracking_at :: "ts_sample \<Rightarrow> tslib_variance" where
  "tracking_at c = \<lparr>v_delta = 900, v_last = c, v_noise = c, v_flags = 3\<rparr>"

theorem variance_spike_dropped_witness:
  "variance_read (at_pos 0 0 0) list_reader (tracking_at (at_pos 10 10 5), [at_pos 900 10 5, at_pos 12 11 5]) [at_pos 0 0 0] 1 =
     Inr (1, [at_pos 10 10 5], ((tracking_at (at_pos 10 10 5))\<lparr>v_last := at_pos 12 11 5, v_noise := at_pos 900 10 5\<rparr>, []))"
  using variance_spike_dropped [of "tracking_at (at_pos 10 10 5)" "at_pos 900 10 5" "at_pos 12 11 5" "at_pos 0 0 0" "at_pos 0 0 0"]
  by (simp add: variance_tracking_def tracking_at_def at_pos_def sample_dist_def sqr_def in_s32_def)

theorem variance_quick_move_witness:
  "variance_read (at_pos 0 0 0) list_reader (tracking_at (at_pos 10 10 5), [at_pos 900 10 5, at_pos 902 11 5]) [at_pos 0 0 0, at_pos 0 0 0] 2 =
     Inr (2, [at_pos 900 10 5, at_pos 900 10 5],
       ((tracking_at (at_pos 10 10 5))\<lparr>v_last := at_pos 902 11 5, v_noise := at_pos 902 11 5\<rparr>, []))"
  using variance_quick_move [of "tracking_at (at_pos 10 10 5)" "at_pos 900 10 5" "at_pos 902 11 5" "at_pos 0 0 0" "at_pos 0 0 0" "at_pos 0 0 0"]
  by (simp add: variance_tracking_def tracking_at_def at_pos_def sample_dist_def sqr_def in_s32_def)

theorem variance_delivers_garbage_witness:
  "variance_read (at_pos 0 0 0) list_reader (tracking_at (at_pos 7 7 7)\<lparr>v_flags := 0\<rparr>, [at_pos 5 5 0]) [at_pos 0 0 0] 1 =
     Inr (1, [at_pos 7 7 7], (tracking_at (at_pos 7 7 7)\<lparr>v_last := at_pos 5 5 0, v_flags := 0\<rparr>, []))"
proof -
  have "variance_mod_init 0 (Some (tracking_at (at_pos 7 7 7))) None = Inr (Some (tracking_at (at_pos 7 7 7)\<lparr>v_flags := 0\<rparr>))"
    by (simp add: variance_mod_init_def tslib_parse_vars_def sqr_def in_s32_def tracking_at_def)
  from variance_delivers_garbage [OF this, of "at_pos 5 5 0" "at_pos 0 0 0" "at_pos 0 0 0"] show ?thesis
    by (simp add: tracking_at_def at_pos_def)
qed

end
