(* ===== verification/Dejitter.thy ===== *)
theory Dejitter
  imports TsParse
begin

section \<open>dejitter: the smoothing filter\<close>

text \<open>
  \<^verbatim>\<open>tslib/plugins/dejitter.c\<close> keeps the last four samples in a ring and delivers their weighted average.
  \<open>smooth\<close> is the reference: the history as a list, newest first, and a weighted sum divided by the
  sum of the weights. The ring, its head and the bounds of every access are related to it.
\<close>

definition weight :: "nat list list" where
  "weight = [[5, 3, 0, 0, 3], [8, 5, 3, 0, 4], [6, 4, 3, 3, 4]]"

record ts_hist =
  h_x :: int
  h_y :: int
  h_p :: u32

record tslib_dejitter =
  d_delta :: int
  d_x :: int
  d_y :: int
  d_down :: int
  d_nr :: int
  d_head :: int
  d_hist :: "ts_hist list"

text \<open>The loop of \<^verbatim>\<open>average\<close> over the first \<^verbatim>\<open>djt->nr\<close> weights; \<open>sn\<close> runs backwards through the ring.\<close>

fun average_loop :: "ts_hist list \<Rightarrow> nat list \<Rightarrow> int \<Rightarrow> int \<Rightarrow> int \<Rightarrow> u32 \<Rightarrow> ts_fault + (int \<times> int \<times> u32)" where
  "average_loop hist [] sn sx sy sp = Inr (sx, sy, sp)"
| "average_loop hist (w # ws) sn sx sy sp = tbind (samp_get hist (nat sn)) (\<lambda>h.
     average_loop hist ws ((sn - 1) AND 3)
       (wrap32 (sx + wrap32 (h_x h * int w))) (wrap32 (sy + wrap32 (h_y h * int w))) (sp + h_p h * of_nat w))"

definition average :: "tslib_dejitter \<Rightarrow> ts_sample \<Rightarrow> ts_fault + ts_sample" where
  "average djt samp = tbind (samp_get weight (nat (d_nr djt - 2))) (\<lambda>w.
     tbind (average_loop (d_hist djt) (take (nat (d_nr djt)) w) (d_head djt) 0 0 0) (\<lambda>(sx, sy, sp).
       Inr (samp\<lparr>ts_x := drop_bit (w ! 4) sx, ts_y := drop_bit (w ! 4) sy, pressure := drop_bit (w ! 4) sp\<rparr>)))"

text \<open>\<^verbatim>\<open>if (djt->nr)\<close>: the reset of the backlog.\<close>

definition dejitter_reset :: "tslib_dejitter \<Rightarrow> ts_sample \<Rightarrow> ts_fault + tslib_dejitter" where
  "dejitter_reset djt c =
     (if d_nr djt \<noteq> 0 then tbind (samp_get (d_hist djt) (nat ((d_head djt - 1) AND 3))) (\<lambda>h.
        Inr (if wrap32 (sqr (wrap32 (ts_x c - h_x h)) + sqr (wrap32 (ts_y c - h_y h))) > d_delta djt
             then djt\<lparr>d_nr := 0\<rparr> else djt))
      else Inr djt)"

text \<open>The \<^verbatim>\<open>for\<close> loop: \<open>s\<close> is the index of the pointer, the last argument the value of \<^verbatim>\<open>ret\<close>.\<close>

fun dejitter_loop ::
  "tslib_dejitter \<Rightarrow> ts_sample list \<Rightarrow> nat \<Rightarrow> nat \<Rightarrow> nat \<Rightarrow> ts_fault + (nat \<times> ts_sample list \<times> tslib_dejitter)" where
  "dejitter_loop djt samp s count 0 = Inr (count, samp, djt)"
| "dejitter_loop djt samp s count (Suc rv) = tbind (samp_get samp s) (\<lambda>c.
     if pressure c = 0 then
       tbind (samp_put samp count c) (\<lambda>samp'. dejitter_loop (djt\<lparr>d_nr := 0\<rparr>) samp' (s + 1) (count + 1) rv)
     else tbind (dejitter_reset djt c) (\<lambda>djt1.
       tbind (samp_put (d_hist djt1) (nat (d_head djt1)) \<lparr>h_x = ts_x c, h_y = ts_y c, h_p = pressure c\<rparr>) (\<lambda>hist.
         let djt2 = djt1\<lparr>d_hist := hist, d_nr := (if d_nr djt1 < 4 then d_nr djt1 + 1 else d_nr djt1)\<rparr> in
         tbind (if d_nr djt2 = 1 then samp_put samp count c
                else tbind (samp_get samp count) (\<lambda>o0. tbind (average djt2 o0) (\<lambda>o1.
                  samp_put samp count (o1\<lparr>tv := tv c\<rparr>)))) (\<lambda>samp'.
           dejitter_loop (djt2\<lparr>d_head := (d_head djt2 + 1) AND 3\<rparr>) samp' (s + 1) (count + 1) rv))))"

definition dejitter_read :: "'s reader \<Rightarrow> (tslib_dejitter \<times> 's) reader" where
  "dejitter_read next_read = (\<lambda>(djt, n) samp nr.
     tbind (next_read n samp nr) (\<lambda>(rv, samp', n').
       tbind (dejitter_loop djt samp' 0 0 (nat rv)) (\<lambda>(count, samp'', djt'). Inr (int count, samp'', (djt', n')))))"

definition dejitter_limit :: "int \<Rightarrow> tslib_dejitter \<Rightarrow> string option \<Rightarrow> int \<Rightarrow> ts_fault + (tslib_dejitter \<times> int)" where
  "dejitter_limit errno djt str data =
     (case str of None \<Rightarrow> Inl Null_deref
      | Some s \<Rightarrow> (case strtoul s of (v, erange) \<Rightarrow>
          if v = - 1 \<and> (erange \<or> errno = ERANGE) then Inr (djt, - 1)
          else if data = 1 then Inr (djt\<lparr>d_delta := sint v\<rparr>, 0)
          else Inr (djt, - 1)))"

definition dejitter_vars :: "int \<Rightarrow> tslib_dejitter tslib_vars list" where
  "dejitter_vars errno = [\<lparr>v_name = ''delta'', v_data = 1, v_fn = dejitter_limit errno\<rparr>]"

definition dejitter_mod_init :: "int \<Rightarrow> bool \<Rightarrow> string option \<Rightarrow> ts_fault + tslib_dejitter option" where
  "dejitter_mod_init errno mem params =
     (if \<not> mem then Inr None
      else tbind (tslib_parse_vars (dejitter_vars errno)
          \<lparr>d_delta = 100, d_x = 0, d_y = 0, d_down = 0, d_nr = 0, d_head = 0,
           d_hist = replicate 4 \<lparr>h_x = 0, h_y = 0, h_p = 0\<rparr>\<rparr> params)
        (\<lambda>(djt, rv). Inr (if rv \<noteq> 0 then None else Some (djt\<lparr>d_delta := sqr (d_delta djt)\<rparr>))))"

subsection \<open>The ring as a list\<close>

definition dejitter_wf :: "tslib_dejitter \<Rightarrow> bool" where
  "dejitter_wf djt \<longleftrightarrow> length (d_hist djt) = 4 \<and> 0 \<le> d_head djt \<and> d_head djt < 4 \<and> 0 \<le> d_nr djt \<and> d_nr djt \<le> 4"

text \<open>The remembered samples, newest first.\<close>

definition backlog :: "tslib_dejitter \<Rightarrow> ts_hist list" where
  "backlog djt = map (\<lambda>i. d_hist djt ! nat ((d_head djt - 1 - int i) mod 4)) [0..<nat (d_nr djt)]"

definition weighted :: "(ts_hist \<Rightarrow> int) \<Rightarrow> nat list \<Rightarrow> ts_hist list \<Rightarrow> int" where
  "weighted f w hs = foldl (\<lambda>a (h, k). wrap32 (a + wrap32 (f h * int k))) 0 (zip hs w)"

definition weighted_p :: "nat list \<Rightarrow> ts_hist list \<Rightarrow> u32" where
  "weighted_p w hs = foldl (\<lambda>a (h, k). a + h_p h * of_nat k) 0 (zip hs w)"

definition kept :: "int \<Rightarrow> ts_hist list \<Rightarrow> ts_sample \<Rightarrow> ts_hist list" where
  "kept delta hs c = (case hs of [] \<Rightarrow> [] | h # _ \<Rightarrow>
     if wrap32 (sqr (wrap32 (ts_x c - h_x h)) + sqr (wrap32 (ts_y c - h_y h))) > delta then [] else hs)"

definition smooth_out :: "ts_hist list \<Rightarrow> ts_sample \<Rightarrow> ts_sample" where
  "smooth_out hs c =
     (if length hs = 1 then c
      else let w = weight ! (length hs - 2) in
        c\<lparr>ts_x := drop_bit (w ! 4) (weighted h_x w hs), ts_y := drop_bit (w ! 4) (weighted h_y w hs),
          pressure := drop_bit (w ! 4) (weighted_p w hs)\<rparr>)"

definition as_hist :: "ts_sample \<Rightarrow> ts_hist" where
  "as_hist c = \<lparr>h_x = ts_x c, h_y = ts_y c, h_p = pressure c\<rparr>"

definition smooth :: "int \<Rightarrow> ts_hist list \<Rightarrow> ts_sample \<Rightarrow> ts_hist list \<times> ts_sample" where
  "smooth delta hs c =
     (if pressure c = 0 then ([], c)
      else let hs' = take 4 (as_hist c # kept delta hs c) in (hs', smooth_out hs' c))"

lemma and_3: "k AND 3 = k mod (4 :: int)"
  using take_bit_eq_mask [of 2 k] by (simp add: take_bit_eq_mod mask_eq_exp_minus_1)

lemma four_cases: "0 \<le> k \<Longrightarrow> k < (4 :: int) \<Longrightarrow> k = 0 \<or> k = 1 \<or> k = 2 \<or> k = 3"
  by linarith

lemma length4: "length xs = 4 \<Longrightarrow> \<exists>a b c d. xs = [a, b, c, d]"
  by (simp add: eval_nat_numeral length_Suc_conv) blast

text \<open>A state of the filter as an explicit ring: four entries, the head and the number of valid ones.\<close>

lemma dejitter_wf_cases:
  assumes "dejitter_wf djt"
  obtains a b c d where "d_hist djt = [a, b, c, d]"
    "d_head djt = 0 \<or> d_head djt = 1 \<or> d_head djt = 2 \<or> d_head djt = 3"
    "d_nr djt = 0 \<or> d_nr djt = 1 \<or> d_nr djt = 2 \<or> d_nr djt = 3 \<or> d_nr djt = 4"
  using assms length4 [of "d_hist djt"] unfolding dejitter_wf_def by (metis four_cases order_le_less)

lemma backlog_Nil: "d_nr djt = 0 \<Longrightarrow> backlog djt = []"
  by (simp add: backlog_def)

lemma dejitter_reset_backlog:
  assumes "dejitter_wf djt"
  obtains djt' where "dejitter_reset djt c = Inr djt'" "dejitter_wf djt'" "d_delta djt' = d_delta djt"
    "backlog djt' = kept (d_delta djt) (backlog djt) c"
proof (cases "d_nr djt = 0")
  case True
  with assms show ?thesis by (intro that [of djt]) (simp_all add: dejitter_reset_def backlog_Nil kept_def)
next
  case False
  let ?h = "d_hist djt ! nat ((d_head djt - 1) mod 4)"
  have n: "0 < nat (d_nr djt)" using False assms by (simp add: dejitter_wf_def)
  then obtain hs where "backlog djt = ?h # hs" by (simp add: backlog_def upt_conv_Cons)
  moreover have "samp_get (d_hist djt) (nat ((d_head djt - 1) AND 3)) = Inr ?h"
    using assms by (simp add: dejitter_wf_def and_3 nat_less_iff)
  moreover have "backlog (djt\<lparr>d_nr := 0\<rparr>) = []" "dejitter_wf (djt\<lparr>d_nr := 0\<rparr>)"
    using assms by (simp_all add: backlog_Nil dejitter_wf_def)
  ultimately show ?thesis using False assms
    by (intro that [of "if wrap32 (sqr (wrap32 (ts_x c - h_x ?h)) + sqr (wrap32 (ts_y c - h_y ?h))) > d_delta djt
        then djt\<lparr>d_nr := 0\<rparr> else djt"]) (simp_all add: dejitter_reset_def kept_def)
qed

text \<open>Storing a sample at the head and moving on puts it in front of the backlog.\<close>

definition dejitter_store :: "tslib_dejitter \<Rightarrow> ts_hist \<Rightarrow> tslib_dejitter" where
  "dejitter_store djt h =
     djt\<lparr>d_hist := (d_hist djt)[nat (d_head djt) := h], d_nr := (if d_nr djt < 4 then d_nr djt + 1 else d_nr djt)\<rparr>"

lemma dejitter_store_push:
  assumes "dejitter_wf djt"
  shows "backlog (dejitter_store djt h\<lparr>d_head := (d_head djt + 1) AND 3\<rparr>) = take 4 (h # backlog djt)"
    "dejitter_wf (dejitter_store djt h\<lparr>d_head := (d_head djt + 1) AND 3\<rparr>)"
proof -
  obtain a b c d where r: "d_hist djt = [a, b, c, d]"
    "d_head djt = 0 \<or> d_head djt = 1 \<or> d_head djt = 2 \<or> d_head djt = 3"
    "d_nr djt = 0 \<or> d_nr djt = 1 \<or> d_nr djt = 2 \<or> d_nr djt = 3 \<or> d_nr djt = 4"
    using dejitter_wf_cases [OF assms] .
  from r(2,3) show "backlog (dejitter_store djt h\<lparr>d_head := (d_head djt + 1) AND 3\<rparr>) = take 4 (h # backlog djt)"
    by (elim disjE) (simp_all add: dejitter_store_def backlog_def r(1) and_3 upt_rec)
  from r show "dejitter_wf (dejitter_store djt h\<lparr>d_head := (d_head djt + 1) AND 3\<rparr>)"
    by (auto simp: dejitter_wf_def dejitter_store_def and_3)
qed

lemma average_backlog:
  assumes "dejitter_wf djt" "hs = take 4 (h # backlog djt)" "length hs \<noteq> 1"
  shows "average (dejitter_store djt h) c = Inr (smooth_out hs c)"
proof -
  obtain p q r s where e: "d_hist djt = [p, q, r, s]"
    "d_head djt = 0 \<or> d_head djt = 1 \<or> d_head djt = 2 \<or> d_head djt = 3"
    "d_nr djt = 0 \<or> d_nr djt = 1 \<or> d_nr djt = 2 \<or> d_nr djt = 3 \<or> d_nr djt = 4"
    using dejitter_wf_cases [OF assms(1)] .
  from e(2,3) assms(2,3) show ?thesis
    by (elim disjE) (simp_all add: average_def dejitter_store_def backlog_def e(1) and_3 upt_rec weight_def
        weighted_def weighted_p_def smooth_out_def)
qed

text \<open>One sample of the loop is one step of the reference.\<close>

lemma dejitter_loop_press:
  assumes "s < length samp" "pressure (samp ! s) \<noteq> 0" "dejitter_reset djt (samp ! s) = Inr djt1"
    "nat (d_head djt1) < length (d_hist djt1)"
  shows "dejitter_loop djt samp s count (Suc rv) = (let djt2 = dejitter_store djt1 (as_hist (samp ! s)) in
    tbind (if d_nr djt2 = 1 then samp_put samp count (samp ! s)
      else tbind (samp_get samp count) (\<lambda>o0. tbind (average djt2 o0) (\<lambda>o1. samp_put samp count (o1\<lparr>tv := tv (samp ! s)\<rparr>))))
      (\<lambda>samp'. dejitter_loop (djt2\<lparr>d_head := (d_head djt2 + 1) AND 3\<rparr>) samp' (s + 1) (count + 1) rv))"
  using assms by (simp add: Let_def as_hist_def dejitter_store_def)

lemma dejitter_loop_step:
  assumes "dejitter_wf djt" "s < length samp"
  obtains djt' where "dejitter_wf djt'" "d_delta djt' = d_delta djt"
    "backlog djt' = fst (smooth (d_delta djt) (backlog djt) (samp ! s))"
    "dejitter_loop djt samp s s (Suc rv) =
       dejitter_loop djt' (samp[s := snd (smooth (d_delta djt) (backlog djt) (samp ! s))]) (s + 1) (s + 1) rv"
proof (cases "pressure (samp ! s) = 0")
  case True
  with assms show ?thesis
    by (intro that [of "djt\<lparr>d_nr := 0\<rparr>"]) (simp_all add: dejitter_wf_def backlog_Nil smooth_def)
next
  case False
  let ?c = "samp ! s"
  obtain djt1 where r: "dejitter_reset djt ?c = Inr djt1" "dejitter_wf djt1" "d_delta djt1 = d_delta djt"
    "backlog djt1 = kept (d_delta djt) (backlog djt) ?c"
    using dejitter_reset_backlog [OF assms(1)] .
  let ?d2 = "dejitter_store djt1 (as_hist ?c)" let ?d3 = "?d2\<lparr>d_head := (d_head ?d2 + 1) AND 3\<rparr>"
  define hs where "hs = take 4 (as_hist ?c # backlog djt1)"
  have sm: "smooth (d_delta djt) (backlog djt) ?c = (hs, smooth_out hs ?c)"
    using False by (simp add: smooth_def Let_def r(4) hs_def)
  have "d_head ?d2 = d_head djt1" by (simp add: dejitter_store_def)
  then have d3: "backlog ?d3 = hs" "dejitter_wf ?d3"
    using dejitter_store_push [OF r(2), of "as_hist ?c"] by (simp_all add: hs_def)
  have len: "d_nr ?d2 = 1 \<longleftrightarrow> length hs = 1"
    using r(2) by (auto simp: hs_def dejitter_store_def backlog_def dejitter_wf_def min_def)
  have put: "(if d_nr ?d2 = 1 then samp_put samp s ?c
      else tbind (samp_get samp s) (\<lambda>o0. tbind (average ?d2 o0) (\<lambda>o1. samp_put samp s (o1\<lparr>tv := tv ?c\<rparr>)))) =
    Inr (samp[s := smooth_out hs ?c])"
    using average_backlog [OF r(2) hs_def, of ?c] assms(2) len
    by (cases "length hs = 1") (simp_all add: smooth_out_def Let_def)
  have "nat (d_head djt1) < length (d_hist djt1)" using r(2) by (simp add: dejitter_wf_def nat_less_iff)
  then have "dejitter_loop djt samp s s (Suc rv) = dejitter_loop ?d3 (samp[s := smooth_out hs ?c]) (s + 1) (s + 1) rv"
    using dejitter_loop_press [OF assms(2) False r(1)] put by (simp only: Let_def tbind_simps)
  with d3 r(3) show ?thesis by (intro that [of ?d3]) (simp_all add: sm dejitter_store_def)
qed

text \<open>The whole loop is the reference applied along the array.\<close>

fun smooth_all :: "int \<Rightarrow> ts_hist list \<Rightarrow> ts_sample list \<Rightarrow> ts_sample list \<times> ts_hist list" where
  "smooth_all delta hs [] = ([], hs)"
| "smooth_all delta hs (c # cs) = (case smooth delta hs c of (hs', o1) \<Rightarrow>
     case smooth_all delta hs' cs of (os, hs'') \<Rightarrow> (o1 # os, hs''))"

lemma length_smooth_all [simp]: "length (fst (smooth_all delta hs cs)) = length cs"
  by (induction cs arbitrary: hs) (simp_all add: split_beta)

lemma dejitter_loop_correct:
  assumes "dejitter_wf djt" "s + rv \<le> length samp"
  shows "\<exists>djt'. dejitter_loop djt samp s s rv =
      Inr (s + rv, take s samp @ fst (smooth_all (d_delta djt) (backlog djt) (take rv (drop s samp))) @ drop (s + rv) samp, djt') \<and>
    dejitter_wf djt' \<and> d_delta djt' = d_delta djt \<and>
    backlog djt' = snd (smooth_all (d_delta djt) (backlog djt) (take rv (drop s samp)))"
  using assms
proof (induction rv arbitrary: djt samp s)
  case (Suc rv)
  then have s: "s < length samp" by simp
  let ?sm = "smooth (d_delta djt) (backlog djt) (samp ! s)"
  obtain djt1 where d: "dejitter_wf djt1" "d_delta djt1 = d_delta djt" "backlog djt1 = fst ?sm"
    "dejitter_loop djt samp s s (Suc rv) = dejitter_loop djt1 (samp[s := snd ?sm]) (s + 1) (s + 1) rv"
    using dejitter_loop_step [OF Suc.prems(1) s] .
  have t: "take (Suc rv) (drop s samp) = samp ! s # take rv (drop (Suc s) samp)"
    using s by (simp add: take_drop_Cons)
  from Suc.IH [OF d(1), of "Suc s" "samp[s := snd ?sm]"] Suc.prems(2) s show ?case
    unfolding d(4) t by (simp add: d(2,3) split_beta)
qed simp

lemma dejitter_read_eq:
  assumes "next_read n samp nr = Inr (rv, buf, n')" "rv \<le> int (length buf)" "dejitter_wf djt"
  shows "\<exists>djt'. dejitter_read next_read (djt, n) samp nr =
      Inr (max 0 rv, fst (smooth_all (d_delta djt) (backlog djt) (take (nat rv) buf)) @ drop (nat rv) buf, (djt', n')) \<and>
    dejitter_wf djt' \<and> d_delta djt' = d_delta djt \<and>
    backlog djt' = snd (smooth_all (d_delta djt) (backlog djt) (take (nat rv) buf))"
proof -
  have "0 + nat rv \<le> length buf" using assms(2) by linarith
  from dejitter_loop_correct [OF assms(3) this] assms show ?thesis by (auto simp: dejitter_read_def)
qed

text \<open>
  C6. \<^verbatim>\<open>dejitter_read\<close> on its ring of four entries refines the smoothing of a list: every sample the module
  below delivers is replaced by the reference's answer, one for one, the rest of the array is kept, the
  ring stays well formed and represents the reference's backlog. No access leaves ring, weights or array.
\<close>

theorem dejitter_read_refines:
  assumes "next_read n samp nr = Inr (rv, buf, n')" "rv \<le> int (length buf)" "dejitter_wf djt"
  shows "\<exists>djt'. dejitter_read next_read (djt, n) samp nr =
      Inr (max 0 rv, fst (smooth_all (d_delta djt) (backlog djt) (take (nat rv) buf)) @ drop (nat rv) buf, (djt', n')) \<and>
    dejitter_wf djt' \<and> d_delta djt' = d_delta djt \<and>
    backlog djt' = snd (smooth_all (d_delta djt) (backlog djt) (take (nat rv) buf))"
  using assms by (rule dejitter_read_eq)

definition dejitter_fresh :: tslib_dejitter where
  "dejitter_fresh = \<lparr>d_delta = 10000, d_x = 0, d_y = 0, d_down = 0, d_nr = 0, d_head = 0,
     d_hist = replicate 4 \<lparr>h_x = 0, h_y = 0, h_p = 0\<rparr>\<rparr>"

lemma dejitter_fresh_wf: "dejitter_wf dejitter_fresh" "backlog dejitter_fresh = []" "d_delta dejitter_fresh = 10000"
  by (simp_all add: dejitter_fresh_def dejitter_wf_def backlog_def)

lemma dejitter_init_fresh: "dejitter_mod_init errno True None = Inr (Some dejitter_fresh)"
  by (simp add: dejitter_mod_init_def tslib_parse_vars_def dejitter_fresh_def sqr_def in_s32_def)

definition two_samples :: "ts_sample list" where
  "two_samples = [\<lparr>ts_x = 16, ts_y = 8, pressure = 8, tv = \<lparr>tv_sec = 0, tv_usec = 0\<rparr>\<rparr>,
     \<lparr>ts_x = 24, ts_y = 8, pressure = 8, tv = \<lparr>tv_sec = 0, tv_usec = 1\<rparr>\<rparr>]"

lemma smooth_two:
  "fst (smooth_all 10000 [] two_samples) = [\<lparr>ts_x = 16, ts_y = 8, pressure = 8, tv = \<lparr>tv_sec = 0, tv_usec = 0\<rparr>\<rparr>,
     \<lparr>ts_x = 21, ts_y = 8, pressure = 8, tv = \<lparr>tv_sec = 0, tv_usec = 1\<rparr>\<rparr>]"
  by (simp add: two_samples_def smooth_def kept_def Let_def smooth_out_def as_hist_def weight_def weighted_def
      weighted_p_def in_s32_def sqr_def)

theorem dejitter_read_refines_witness:
  "\<exists>djt'. dejitter_read (\<lambda>n buf nr. Inr (2, two_samples, n)) (dejitter_fresh, ()) two_samples 2 =
     Inr (2, [\<lparr>ts_x = 16, ts_y = 8, pressure = 8, tv = \<lparr>tv_sec = 0, tv_usec = 0\<rparr>\<rparr>,
       \<lparr>ts_x = 21, ts_y = 8, pressure = 8, tv = \<lparr>tv_sec = 0, tv_usec = 1\<rparr>\<rparr>], (djt', ()))"
proof -
  let ?r = "\<lambda>(n :: unit) buf (nr :: int). Inr (2 :: int, two_samples, n) :: ts_fault + (int \<times> ts_sample list \<times> unit)"
  have l: "take 2 two_samples = two_samples" "drop 2 two_samples = []" "(2 :: int) \<le> int (length two_samples)"
    by (simp_all add: two_samples_def)
  have "?r () two_samples 2 = Inr (2, two_samples, ())" by simp
  from dejitter_read_refines [of ?r "()" two_samples 2 2 two_samples "()" dejitter_fresh, OF this l(3) dejitter_fresh_wf(1)]
  show ?thesis by (simp add: l dejitter_fresh_wf smooth_two) blast
qed

lemma dejitter_reader:
  assumes "reader next_read I"
  shows "reader (dejitter_read next_read) (\<lambda>(djt, n). dejitter_wf djt \<and> I n)"
proof (unfold_locales, clarify)
  fix djt n nr buf assume r: "dejitter_wf djt" "I n" "0 \<le> nr" "nr \<le> int (length (buf :: ts_sample list))"
  obtain rv buf' n' where n: "next_read n buf nr = Inr (rv, buf', n')" "I n'" "rv \<le> nr" "same_beyond nr buf buf'"
      "length buf' = length buf"
    using reader.read_cases [OF assms r(2-4)] by metis
  let ?o = "fst (smooth_all (d_delta djt) (backlog djt) (take (nat rv) buf'))"
  have len: "nat rv \<le> length buf'" "rv \<le> int (length buf')" using n(3,5) r(4) by auto
  then have "same_beyond rv buf' (?o @ drop (nat rv) buf')" by (simp add: same_beyond_def min_def)
  then have "same_beyond nr buf (?o @ drop (nat rv) buf')"
    using n(3,4) by (blast intro: same_beyond_trans same_beyond_mono)
  with dejitter_read_eq [of next_read n buf nr rv buf' n' djt, OF n(1) len(2) r(1)] n r show "\<exists>r buf' s'. dejitter_read next_read (djt, n) buf nr = Inr (r, buf', s') \<and>
      (case s' of (djt, n) \<Rightarrow> dejitter_wf djt \<and> I n) \<and> r \<le> nr \<and> same_beyond nr buf buf'"
    by fastforce
qed

subsection \<open>Smoothed samples stay in range\<close>

lemma weighted_in_range:
  assumes "\<forall>h \<in> set hs. lo \<le> f h \<and> f h \<le> hi" "- 67108864 \<le> lo" "hi \<le> 67108864" "2 \<le> length hs" "length hs \<le> 4"
    and "w = weight ! (length hs - 2)"
  shows "lo \<le> drop_bit (w ! 4) (weighted f w hs)" "drop_bit (w ! 4) (weighted f w hs) \<le> hi"
proof -
  consider (two) a b where "hs = [a, b]" | (three) a b c where "hs = [a, b, c]" | (four) a b c d where "hs = [a, b, c, d]"
    using assms(4,5) by (cases hs; cases "tl hs"; cases "tl (tl hs)"; cases "tl (tl (tl hs))") auto
  then have "lo \<le> drop_bit (w ! 4) (weighted f w hs) \<and> drop_bit (w ! 4) (weighted f w hs) \<le> hi"
    using assms(1-3,6)
    by cases (simp_all add: weight_def weighted_def in_s32_def drop_bit_eq_div, linarith+)
  then show "lo \<le> drop_bit (w ! 4) (weighted f w hs)" "drop_bit (w ! 4) (weighted f w hs) \<le> hi" by auto
qed

text \<open>A position inside the rectangle that the screen's coordinates span.\<close>

definition in_box :: "int \<Rightarrow> int \<Rightarrow> int \<Rightarrow> int \<Rightarrow> bool" where
  "in_box lo hi h v \<longleftrightarrow> lo \<le> h \<and> h \<le> hi \<and> lo \<le> v \<and> v \<le> hi"

lemma smooth_in_box:
  assumes "- 67108864 \<le> lo" "hi \<le> 67108864" "in_box lo hi (ts_x c) (ts_y c)"
    and "\<forall>h \<in> set hs. in_box lo hi (h_x h) (h_y h)"
  shows "in_box lo hi (ts_x (snd (smooth delta hs c))) (ts_y (snd (smooth delta hs c)))"
    "\<forall>h \<in> set (fst (smooth delta hs c)). in_box lo hi (h_x h) (h_y h)"
proof -
  let ?hs = "take 4 (as_hist c # kept delta hs c)"
  have "set (kept delta hs c) \<subseteq> set hs" by (auto simp: kept_def split: list.splits if_splits)
  moreover have "set ?hs \<subseteq> insert (as_hist c) (set (kept delta hs c))" using set_take_subset by fastforce
  ultimately have "set ?hs \<subseteq> insert (as_hist c) (set hs)" by blast
  then have box: "\<forall>h \<in> set ?hs. in_box lo hi (h_x h) (h_y h)" using assms(3,4) by (auto simp: as_hist_def)
  then show "\<forall>h \<in> set (fst (smooth delta hs c)). in_box lo hi (h_x h) (h_y h)" by (simp add: smooth_def Let_def)
  show "in_box lo hi (ts_x (snd (smooth delta hs c))) (ts_y (snd (smooth delta hs c)))"
  proof (cases "pressure c = 0 \<or> length ?hs = 1")
    case True
    then have "snd (smooth delta hs c) = c"
    proof
      assume "length ?hs = 1"
      then have "smooth_out ?hs c = c" by (simp only: smooth_out_def simp_thms if_True)
      then show ?thesis by (simp only: smooth_def Let_def snd_conv if_distrib [of snd] if_cancel)
    qed (simp add: smooth_def)
    with assms(3) show ?thesis by simp
  next
    case False
    then have l: "2 \<le> length ?hs" "length ?hs \<le> 4" by (auto simp: Suc_le_eq)
    from False weighted_in_range [OF _ assms(1,2) l refl, of h_x] weighted_in_range [OF _ assms(1,2) l refl, of h_y] box
    show ?thesis using assms(3) by (simp add: smooth_def smooth_out_def Let_def in_box_def)
  qed
qed

lemma smooth_all_in_box:
  assumes "- 67108864 \<le> lo" "hi \<le> 67108864"
    and "\<forall>c \<in> set cs. in_box lo hi (ts_x c) (ts_y c)" "\<forall>h \<in> set hs. in_box lo hi (h_x h) (h_y h)"
  shows "(\<forall>o1 \<in> set (fst (smooth_all delta hs cs)). in_box lo hi (ts_x o1) (ts_y o1)) \<and>
    (\<forall>h \<in> set (snd (smooth_all delta hs cs)). in_box lo hi (h_x h) (h_y h))"
  using assms(3,4)
proof (induction cs arbitrary: hs)
  case (Cons c cs)
  then have "in_box lo hi (ts_x c) (ts_y c)" by simp
  note box = smooth_in_box [OF assms(1,2) this Cons.prems(2), of delta]
  have "\<forall>c \<in> set cs. in_box lo hi (ts_x c) (ts_y c)" using Cons.prems(1) by simp
  from Cons.IH [OF this box(2)] box(1) show ?case by (simp add: split_beta)
qed simp

text \<open>
  Smoothing never leaves the screen: if every sample the module below delivers and every remembered
  one lies in a rectangle of coordinates of at most 26 bits, so does every sample that \<^verbatim>\<open>dejitter_read\<close>
  delivers, on every branch of the filter (passed through, averaged over two, three or four samples, after
  a reset of the backlog), and so does everything it remembers afterwards.
\<close>

theorem dejitter_in_range:
  assumes "- 67108864 \<le> lo" "hi \<le> 67108864"
    and "next_read n samp nr = Inr (rv, buf, n')" "rv \<le> int (length buf)" "dejitter_wf djt"
    and "\<forall>c \<in> set (take (nat rv) buf). in_box lo hi (ts_x c) (ts_y c)"
    and "\<forall>h \<in> set (backlog djt). in_box lo hi (h_x h) (h_y h)"
  shows "\<exists>djt' buf'. dejitter_read next_read (djt, n) samp nr = Inr (max 0 rv, buf', (djt', n')) \<and>
    (\<forall>o1 \<in> set (take (nat rv) buf'). in_box lo hi (ts_x o1) (ts_y o1)) \<and>
    (\<forall>h \<in> set (backlog djt'). in_box lo hi (h_x h) (h_y h))"
proof -
  have l: "length (take (nat rv) buf) = nat rv" using assms(4) by simp
  obtain djt' where "dejitter_read next_read (djt, n) samp nr =
      Inr (max 0 rv, fst (smooth_all (d_delta djt) (backlog djt) (take (nat rv) buf)) @ drop (nat rv) buf, (djt', n'))"
    "backlog djt' = snd (smooth_all (d_delta djt) (backlog djt) (take (nat rv) buf))"
    using dejitter_read_eq [of next_read n samp nr rv buf n' djt] assms(3-5) by blast
  with smooth_all_in_box [OF assms(1,2,6,7), of "d_delta djt"] l show ?thesis
    by (simp del: length_take)
qed

theorem dejitter_in_range_witness:
  "\<exists>djt' buf'. dejitter_read (\<lambda>n buf nr. Inr (2, two_samples, n)) (dejitter_fresh, ()) two_samples 2 =
     Inr (2, buf', (djt', ())) \<and> list_all (\<lambda>c. in_box 0 1023 (ts_x c) (ts_y c)) (take 2 buf')"
proof -
  let ?r = "\<lambda>(n :: unit) buf (nr :: int). Inr (2 :: int, two_samples, n) :: ts_fault + (int \<times> ts_sample list \<times> unit)"
  have "\<forall>c \<in> set (take (nat 2) two_samples). in_box 0 1023 (ts_x c) (ts_y c)" "(2 :: int) \<le> int (length two_samples)"
    by (simp_all add: two_samples_def in_box_def)
  with dejitter_in_range [of 0 1023 ?r "()" two_samples 2 2 two_samples "()" dejitter_fresh] show ?thesis
    by (simp add: dejitter_fresh_wf list_all_iff) blast
qed

end
