(* ===== verification/Linear.thy ===== *)
theory Linear
  imports TsParse
begin

section \<open>linear and linear-h2200: calibration\<close>

text \<open>
  \<^verbatim>\<open>tslib/plugins/linear.c\<close> applies the affine map of the calibration file to every sample, with 32-bit
  arithmetic and C division; \<^verbatim>\<open>linear-h2200.c\<close> applies a fixed quadratic map in 12.20 fixed point. The
  calibration file is read into a buffer that is not terminated: what the memory behind its content holds
  is the argument \<open>junk\<close>.
\<close>

record tslib_linear =
  swap_xy :: int
  p_offset :: int
  p_mult :: int
  p_div :: int
  lin_a :: "int list"

text \<open>The body of the loop of \<^verbatim>\<open>linear_read\<close>.\<close>

definition linear_sample :: "tslib_linear \<Rightarrow> ts_sample \<Rightarrow> ts_fault + ts_sample" where
  "linear_sample lin c =
     (let a = lin_a lin; xtemp = ts_x c; ytemp = ts_y c in
      if a ! 6 = 0 \<or> p_div lin = 0 then Inl Div_by_zero
      else let nx = wrap32 (c_div (wrap32 (wrap32 (a ! 2 + wrap32 (a ! 0 * xtemp)) + wrap32 (a ! 1 * ytemp))) (a ! 6));
               ny = wrap32 (c_div (wrap32 (wrap32 (a ! 5 + wrap32 (a ! 3 * xtemp)) + wrap32 (a ! 4 * ytemp))) (a ! 6));
               np = ((pressure c + of_int (p_offset lin)) * of_int (p_mult lin)) div of_int (p_div lin)
           in Inr (if swap_xy lin \<noteq> 0 then c\<lparr>ts_x := ny, ts_y := nx, pressure := np\<rparr>
                   else c\<lparr>ts_x := nx, ts_y := ny, pressure := np\<rparr>))"

text \<open>A loop that rewrites the first \<open>rv\<close> samples one by one, as both modules do.\<close>

fun rewrite_loop :: "(ts_sample \<Rightarrow> ts_fault + ts_sample) \<Rightarrow> ts_sample list \<Rightarrow> nat \<Rightarrow> nat \<Rightarrow> ts_fault + ts_sample list" where
  "rewrite_loop f samp i 0 = Inr samp"
| "rewrite_loop f samp i (Suc rv) = tbind (samp_get samp i) (\<lambda>c. tbind (f c) (\<lambda>d.
     tbind (samp_put samp i d) (\<lambda>samp'. rewrite_loop f samp' (i + 1) rv)))"

definition linear_read :: "'s reader \<Rightarrow> (tslib_linear \<times> 's) reader" where
  "linear_read next_read = (\<lambda>(lin, n) samp nr.
     tbind (next_read n samp nr) (\<lambda>(rv, samp', n').
       if rv \<ge> 0 then tbind (rewrite_loop (linear_sample lin) samp' 0 (nat rv)) (\<lambda>samp''. Inr (rv, samp'', (lin, n')))
       else Inr (rv, samp', (lin, n'))))"

definition linear_xyswap :: "tslib_linear \<Rightarrow> string option \<Rightarrow> int \<Rightarrow> ts_fault + (tslib_linear \<times> int)" where
  "linear_xyswap lin str data = Inr (lin\<lparr>swap_xy := 1\<rparr>, 0)"

definition linear_vars :: "tslib_linear tslib_vars list" where
  "linear_vars = [\<lparr>v_name = ''xyswap'', v_data = 1, v_fn = linear_xyswap\<rparr>]"

subsection \<open>The calibration file\<close>

text \<open>\<^verbatim>\<open>atoi\<close>, saturating at the ends of \<^verbatim>\<open>long\<close>.\<close>

definition atoi :: "string \<Rightarrow> int" where
  "atoi str =
     (let s = dropWhile isspace str;
          neg = (s \<noteq> [] \<and> hd s = CHR ''-'');
          n = int (digits_value 10 (if s \<noteq> [] \<and> (hd s = CHR ''-'' \<or> hd s = CHR ''+'') then tl s else s))
      in if neg then max (- 2147483648) (- n) else min 2147483647 n)"

text \<open>The tokens \<^verbatim>\<open>strtok(_, " ")\<close> delivers: never an empty one.\<close>

fun strtoks :: "string \<Rightarrow> string \<Rightarrow> string list" where
  "strtoks [] tok = (if tok = [] then [] else [tok])"
| "strtoks (c # s) tok =
     (if c = CHR '' '' then (if tok = [] then strtoks s [] else tok # strtoks s []) else strtoks s (tok @ [c]))"

text \<open>The loop \<^verbatim>\<open>while (index < 7)\<close>; when the tokens run out \<^verbatim>\<open>strtok\<close> returns \<^verbatim>\<open>NULL\<close>.\<close>

fun cal_loop :: "int list \<Rightarrow> nat \<Rightarrow> string list \<Rightarrow> ts_fault + int list" where
  "cal_loop a index [] = (if index < 7 then Inl Null_deref else Inr a)"
| "cal_loop a index (t # ts) =
     (if index < 7 then (if t \<noteq> [] then cal_loop (a[index := atoi t]) (index + 1) ts else cal_loop a index ts)
      else Inr a)"

definition read_calibration :: "string \<Rightarrow> string \<Rightarrow> int list \<Rightarrow> ts_fault + int list" where
  "read_calibration file junk a =
     (case strtoks (takeWhile (\<lambda>c. c \<noteq> CHR 0x00) (take 200 file @ junk)) [] of
        [] \<Rightarrow> Inl Null_deref
      | t # ts \<Rightarrow> cal_loop (a[0 := atoi t]) 1 ts)"

text \<open>\<^verbatim>\<open>mod_init\<close>: \<open>calfile\<close> is the content of the file, \<open>None\<close> if \<^verbatim>\<open>stat\<close> fails.\<close>

definition linear_mod_init :: "bool \<Rightarrow> string option \<Rightarrow> string \<Rightarrow> string option \<Rightarrow> ts_fault + tslib_linear option" where
  "linear_mod_init mem calfile junk params =
     (if \<not> mem then Inr None
      else tbind (case calfile of None \<Rightarrow> Inr [1, 0, 0, 0, 1, 0, 1]
          | Some file \<Rightarrow> read_calibration file junk [1, 0, 0, 0, 1, 0, 1]) (\<lambda>a.
        tbind (tslib_parse_vars linear_vars \<lparr>swap_xy = 0, p_offset = 0, p_mult = 1, p_div = 1, lin_a = a\<rparr> params)
          (\<lambda>(lin, rv). Inr (if rv \<noteq> 0 then None else Some lin))))"

subsection \<open>linear-h2200\<close>

definition M20 :: "int \<Rightarrow> int \<Rightarrow> int" where
  "M20 a b = wrap32 (drop_bit 20 (a * b))"

definition M32 :: "int \<Rightarrow> int \<Rightarrow> int" where
  "M32 a b = wrap32 (drop_bit 32 (a * b))"

definition linear_h2200_sample :: "ts_sample \<Rightarrow> ts_sample" where
  "linear_h2200_sample c =
     (let h = wrap32 (push_bit 20 (ts_x c)); v = wrap32 (push_bit 20 (ts_y c));
          new_x = wrap32 (14708834 + M20 1009971 h + M20 (- 18416) v + M20 (M32 129310 h) v + M20 (M32 76687 h) h
                    + M20 (M32 5340 v) v);
          new_y = wrap32 (- 10920238 + M20 129836 h + M20 951939 v + M20 (M32 (- 947740) h) v + M20 (M32 22599 h) h
                    + M20 (M32 735087 v) v)
      in c\<lparr>ts_x := drop_bit 20 new_x, ts_y := drop_bit 20 new_y\<rparr>)"

definition linear_h2200_read :: "'s reader \<Rightarrow> 's reader" where
  "linear_h2200_read next_read = (\<lambda>n samp nr.
     tbind (next_read n samp nr) (\<lambda>(rv, samp', n').
       if rv \<ge> 0 then tbind (rewrite_loop (\<lambda>c. Inr (linear_h2200_sample c)) samp' 0 (nat rv)) (\<lambda>samp''. Inr (rv, samp'', n'))
       else Inr (rv, samp', n')))"

subsection \<open>The loops\<close>

lemma rewrite_loop_map:
  assumes "i + rv \<le> length samp" "\<forall>c \<in> set (take rv (drop i samp)). f c = Inr (g c)"
  shows "rewrite_loop f samp i rv = Inr (take i samp @ map g (take rv (drop i samp)) @ drop (i + rv) samp)"
  using assms
proof (induction rv arbitrary: samp i)
  case (Suc rv)
  then have i: "i < length samp" by simp
  have t: "take (Suc rv) (drop i samp) = samp ! i # take rv (drop (Suc i) samp)" using i by (simp add: take_drop_Cons)
  with Suc.prems(2) have "f (samp ! i) = Inr (g (samp ! i))" by simp
  with Suc.IH [of "Suc i" "samp[i := g (samp ! i)]"] Suc.prems i t show ?case by simp
qed simp

lemma rewrite_loop_fault:
  assumes "rv \<le> length samp" "0 < rv" "f (samp ! 0) = Inl e"
  shows "rewrite_loop f samp 0 rv = Inl e"
  using assms by (cases rv) (auto simp: samp_get_def)

lemma rewritten_beyond:
  assumes "rv \<le> int (length buf')" "rv \<le> nr" "same_beyond nr buf buf'"
  shows "same_beyond nr buf (map g (take (nat rv) buf') @ drop (nat rv) buf')"
proof -
  have "nat rv \<le> length buf'" using assms(1) by linarith
  then have "same_beyond rv buf' (map g (take (nat rv) buf') @ drop (nat rv) buf')" by (simp add: same_beyond_def min_def)
  with assms(2,3) show ?thesis by (blast intro: same_beyond_trans same_beyond_mono)
qed

definition linear_ok :: "tslib_linear \<Rightarrow> bool" where
  "linear_ok lin \<longleftrightarrow> length (lin_a lin) = 7 \<and> lin_a lin ! 6 \<noteq> 0 \<and> p_div lin \<noteq> 0"

lemma linear_sample_ok: "linear_ok lin \<Longrightarrow> linear_sample lin c = Inr (projr (linear_sample lin c))"
  by (simp add: linear_ok_def linear_sample_def Let_def)

lemma linear_read_eq:
  assumes "next_read n samp nr = Inr (rv, buf, n')" "rv \<le> int (length buf)" "linear_ok lin"
  shows "linear_read next_read (lin, n) samp nr =
    Inr (rv, map (\<lambda>c. projr (linear_sample lin c)) (take (nat rv) buf) @ drop (nat rv) buf, (lin, n'))"
proof (cases "rv < 0")
  case False
  have "0 + nat rv \<le> length buf" using assms(2) by linarith
  then have "rewrite_loop (linear_sample lin) buf 0 (nat rv) =
      Inr (take 0 buf @ map (\<lambda>c. projr (linear_sample lin c)) (take (nat rv) (drop 0 buf)) @ drop (0 + nat rv) buf)"
    using linear_sample_ok [OF assms(3)] by (intro rewrite_loop_map) blast+
  with assms(1) False show ?thesis by (simp add: linear_read_def)
qed (simp add: linear_read_def assms)

lemma linear_reader:
  assumes "reader next_read I"
  shows "reader (linear_read next_read) (\<lambda>(lin, n). linear_ok lin \<and> I n)"
proof (unfold_locales, clarify)
  fix lin n nr buf assume r: "linear_ok lin" "I n" "0 \<le> nr" "nr \<le> int (length (buf :: ts_sample list))"
  obtain rv buf' n' where n: "next_read n buf nr = Inr (rv, buf', n')" "I n'" "rv \<le> nr" "same_beyond nr buf buf'"
      "length buf' = length buf"
    using reader.read_cases [OF assms r(2-4)] by metis
  have len: "rv \<le> int (length buf')" using n(3,5) r(4) by simp
  with linear_read_eq [of next_read n buf nr rv buf' n' lin, OF n(1) len r(1)] n r rewritten_beyond [OF len n(3,4)]
  show "\<exists>r buf' s'. linear_read next_read (lin, n) buf nr = Inr (r, buf', s') \<and>
      (case s' of (lin, n) \<Rightarrow> linear_ok lin \<and> I n) \<and> r \<le> nr \<and> same_beyond nr buf buf'"
    by auto
qed

lemma linear_h2200_read_eq:
  assumes "next_read n samp nr = Inr (rv, buf, n')" "rv \<le> int (length buf)"
  shows "linear_h2200_read next_read n samp nr =
    Inr (rv, map linear_h2200_sample (take (nat rv) buf) @ drop (nat rv) buf, n')"
proof (cases "rv < 0")
  case False
  have "0 + nat rv \<le> length buf" using assms(2) by linarith
  then have "rewrite_loop (\<lambda>c. Inr (linear_h2200_sample c)) buf 0 (nat rv) =
      Inr (take 0 buf @ map linear_h2200_sample (take (nat rv) (drop 0 buf)) @ drop (0 + nat rv) buf)"
    by (intro rewrite_loop_map) auto
  with assms(1) False show ?thesis by (simp add: linear_h2200_read_def)
qed (simp add: linear_h2200_read_def assms)

lemma linear_h2200_reader:
  assumes "reader next_read I"
  shows "reader (linear_h2200_read next_read) I"
proof (unfold_locales)
  fix n nr buf assume r: "I n" "0 \<le> nr" "nr \<le> int (length (buf :: ts_sample list))"
  obtain rv buf' n' where n: "next_read n buf nr = Inr (rv, buf', n')" "I n'" "rv \<le> nr" "same_beyond nr buf buf'"
      "length buf' = length buf"
    using reader.read_cases [OF assms r] by metis
  have len: "rv \<le> int (length buf')" using n(3,5) r(3) by simp
  with linear_h2200_read_eq [of next_read n buf nr rv buf' n', OF n(1) len] n r rewritten_beyond [OF len n(3,4)]
  show "\<exists>r buf' s'. linear_h2200_read next_read n buf nr = Inr (r, buf', s') \<and> I s' \<and> r \<le> nr \<and> same_beyond nr buf buf'"
    by auto
qed

subsection \<open>What the maps compute\<close>

definition linear_default :: tslib_linear where
  "linear_default = \<lparr>swap_xy = 0, p_offset = 0, p_mult = 1, p_div = 1, lin_a = [1, 0, 0, 0, 1, 0, 1]\<rparr>"

definition c_sample :: "ts_sample \<Rightarrow> bool" where
  "c_sample c \<longleftrightarrow> in_s32 (ts_x c) \<and> in_s32 (ts_y c)"

lemma linear_default_sample: "c_sample c \<Longrightarrow> linear_sample linear_default c = Inr c"
  by (simp add: linear_sample_def linear_default_def c_sample_def)

text \<open>
  Without a calibration file and parameters \<^verbatim>\<open>linear\<close> passes every sample through unchanged.
\<close>

theorem linear_default_identity:
  assumes "next_read n samp nr = Inr (rv, buf, n')" "rv \<le> int (length buf)" "\<forall>c \<in> set buf. c_sample c"
  shows "linear_mod_init True None junk None = Inr (Some linear_default) \<and>
    linear_read next_read (linear_default, n) samp nr = Inr (rv, buf, (linear_default, n'))"
proof
  show "linear_mod_init True None junk None = Inr (Some linear_default)"
    by (simp add: linear_mod_init_def tslib_parse_vars_def linear_default_def)
  have "map (\<lambda>c. projr (linear_sample linear_default c)) (take (nat rv) buf) = take (nat rv) buf"
    using assms(3) by (intro map_idI) (auto simp: linear_default_sample dest: in_set_takeD)
  moreover have "linear_ok linear_default" by (simp add: linear_ok_def linear_default_def)
  ultimately show "linear_read next_read (linear_default, n) samp nr = Inr (rv, buf, (linear_default, n'))"
    using linear_read_eq [of next_read n samp nr rv buf n', OF assms(1,2)] by simp
qed

lemma M20_scaled: "in_s32 (k * h) \<Longrightarrow> M20 k (h * 1048576) = k * h"
proof -
  assume "in_s32 (k * h)"
  moreover have "drop_bit 20 (k * (h * 1048576)) = k * h" by (simp add: drop_bit_eq_div flip: mult.assoc)
  ultimately show ?thesis by (simp add: M20_def)
qed

lemma M32_scaled: "in_s32 (k * h div 4096) \<Longrightarrow> M32 k (h * 1048576) = k * h div 4096"
proof -
  assume q: "in_s32 (k * h div 4096)"
  have "k * (h * 1048576) div (4096 * 1048576) = k * h div 4096"
    by (metis div_mult_mult2 mult.assoc zero_neq_numeral)
  with q show ?thesis by (simp add: M32_def drop_bit_eq_div)
qed

lemma M32_quotient: "q = k * h div 4096 \<Longrightarrow> in_s32 q \<Longrightarrow> M32 k (h * 1048576) = q"
  by (simp only: M32_scaled)

lemma scaled: "0 \<le> h \<Longrightarrow> h < 1024 \<Longrightarrow> wrap32 (push_bit 20 h) = h * 1048576"
  by (simp add: push_bit_eq_mult in_s32_def)

lemma prod_range:
  fixes q v :: int
  assumes "lo \<le> q" "q \<le> hi" "lo \<le> 0" "0 \<le> hi" "0 \<le> v" "v < 1024"
  shows "lo * 1023 \<le> q * v" "q * v \<le> hi * 1023"
proof -
  have "lo * v \<le> q * v" "q * v \<le> hi * v" using assms by (simp_all add: mult_right_mono)
  moreover have "lo * 1023 \<le> lo * v" using assms by (simp add: mult_left_mono_neg)
  moreover have "hi * v \<le> hi * 1023" using assms by (simp add: mult_left_mono)
  ultimately show "lo * 1023 \<le> q * v" "q * v \<le> hi * 1023" by auto
qed

text \<open>
  The fixed-point map of \<^verbatim>\<open>linear-h2200\<close> does not overflow on ten-bit coordinates: the result is the
  quadratic polynomial with its rounded coefficients, evaluated in the integers.
\<close>

theorem linear_h2200_exact:
  assumes "0 \<le> ts_x c" "ts_x c < 1024" "0 \<le> ts_y c" "ts_y c < 1024"
  shows "ts_x (linear_h2200_sample c) = (14708834 + 1009971 * ts_x c - 18416 * ts_y c + (129310 * ts_x c div 4096) * ts_y c
      + (76687 * ts_x c div 4096) * ts_x c + (5340 * ts_y c div 4096) * ts_y c) div 1048576 \<and>
    ts_y (linear_h2200_sample c) = (- 10920238 + 129836 * ts_x c + 951939 * ts_y c + (- 947740 * ts_x c div 4096) * ts_y c
      + (22599 * ts_x c div 4096) * ts_x c + (735087 * ts_y c div 4096) * ts_y c) div 1048576"
proof -
  define h v where hv: "h = ts_x c" "v = ts_y c"
  have b: "0 \<le> h" "h < 1024" "0 \<le> v" "v < 1024" using assms by (simp_all add: hv)
  define q1 q2 q3 q4 q5 q6 where qs: "q1 = 129310 * h div 4096" "q2 = 76687 * h div 4096" "q3 = 5340 * v div 4096"
    "q4 = - 947740 * h div 4096" "q5 = 22599 * h div 4096" "q6 = 735087 * v div 4096"
  have q: "0 \<le> q1" "q1 \<le> 32296" "0 \<le> q2" "q2 \<le> 19153" "0 \<le> q3" "q3 \<le> 1334" "- 236704 \<le> q4" "q4 \<le> 0"
    "0 \<le> q5" "q5 \<le> 5645" "0 \<le> q6" "q6 \<le> 183593"
    unfolding qs using b by linarith+
  note p = prod_range [OF q(1,2) order_refl zero_le_numeral b(3,4)] prod_range [OF q(3,4) order_refl zero_le_numeral b(1,2)]
    prod_range [OF q(5,6) order_refl zero_le_numeral b(3,4)] prod_range [OF q(7,8) neg_numeral_le_zero order_refl b(3,4)]
    prod_range [OF q(9,10) order_refl zero_le_numeral b(1,2)] prod_range [OF q(11,12) order_refl zero_le_numeral b(3,4)]
  have s: "wrap32 (push_bit 20 h) = h * 1048576" "wrap32 (push_bit 20 v) = v * 1048576" using b by (simp_all add: scaled)
  have m: "M32 129310 (h * 1048576) = q1" "M32 76687 (h * 1048576) = q2"
    "M32 5340 (v * 1048576) = q3" "M32 (- 947740) (h * 1048576) = q4"
    "M32 22599 (h * 1048576) = q5" "M32 735087 (v * 1048576) = q6"
    using q by (simp_all add: M32_quotient [OF qs(1)] M32_quotient [OF qs(2)] M32_quotient [OF qs(3)]
        M32_quotient [OF qs(4)] M32_quotient [OF qs(5)] M32_quotient [OF qs(6)] in_s32_def)
  have l: "M20 1009971 (h * 1048576) = 1009971 * h" "M20 (- 18416) (v * 1048576) = - 18416 * v"
    "M20 129836 (h * 1048576) = 129836 * h" "M20 951939 (v * 1048576) = 951939 * v"
    using b by (simp_all add: M20_scaled in_s32_def)
  have n: "M20 q1 (v * 1048576) = q1 * v" "M20 q2 (h * 1048576) = q2 * h" "M20 q3 (v * 1048576) = q3 * v"
    "M20 q4 (v * 1048576) = q4 * v" "M20 q5 (h * 1048576) = q5 * h" "M20 q6 (v * 1048576) = q6 * v"
    using p by (auto intro!: M20_scaled simp: in_s32_def)
  have "in_s32 (14708834 + 1009971 * h + - 18416 * v + q1 * v + q2 * h + q3 * v)"
    "in_s32 (- 10920238 + 129836 * h + 951939 * v + q4 * v + q5 * h + q6 * v)"
    using p b unfolding in_s32_def by linarith+
  then show ?thesis
    unfolding linear_h2200_sample_def hv [symmetric] qs [symmetric] Let_def s m l n by (simp add: drop_bit_eq_div)
qed

theorem linear_h2200_exact_witness:
  "ts_x (linear_h2200_sample \<lparr>ts_x = 512, ts_y = 100, pressure = 1, tv = \<lparr>tv_sec = 0, tv_usec = 0\<rparr>\<rparr>) = 511"
  using linear_h2200_exact [of "\<lparr>ts_x = 512, ts_y = 100, pressure = 1, tv = \<lparr>tv_sec = 0, tv_usec = 0\<rparr>\<rparr>"] by simp

theorem linear_default_identity_witness:
  "linear_read (\<lambda>n buf nr. Inr (1, buf, n)) (linear_default, ())
     [\<lparr>ts_x = - 5, ts_y = 100, pressure = 1, tv = \<lparr>tv_sec = 0, tv_usec = 0\<rparr>\<rparr>] 1 =
   Inr (1, [\<lparr>ts_x = - 5, ts_y = 100, pressure = 1, tv = \<lparr>tv_sec = 0, tv_usec = 0\<rparr>\<rparr>], (linear_default, ()))"
  using linear_default_identity [of "\<lambda>n buf nr. Inr (1, buf, n)" "()"
      "[\<lparr>ts_x = - 5, ts_y = 100, pressure = 1, tv = \<lparr>tv_sec = 0, tv_usec = 0\<rparr>\<rparr>]" 1 1
      "[\<lparr>ts_x = - 5, ts_y = 100, pressure = 1, tv = \<lparr>tv_sec = 0, tv_usec = 0\<rparr>\<rparr>]" "()" "[]"]
  by (simp add: c_sample_def in_s32_def)

subsection \<open>The calibration survives the file\<close>

definition dec_int :: "int \<Rightarrow> string" where
  "dec_int i = (if i < 0 then CHR ''-'' # dec (nat (- i)) else dec (nat i))"

lemma dec_nonempty: "dec n \<noteq> []"
  by (subst dec.simps) simp

lemma atoi_dec_int: "in_s32 i \<Longrightarrow> atoi (dec_int i) = i"
proof -
  assume i: "in_s32 i"
  have d: "dropWhile isspace (dec n) = dec n" "hd (dec n) \<noteq> CHR ''-''" "hd (dec n) \<noteq> CHR ''+''" for n
    using dec_char [of "hd (dec n)" n] dec_nonempty [of n] by (cases "dec n"; simp)+
  show ?thesis
  proof (cases "i < 0")
    case True
    with i show ?thesis by (simp add: atoi_def dec_int_def Let_def isspace_def digits_value_dec in_s32_def)
  next
    case False
    with i d show ?thesis by (simp add: atoi_def dec_int_def Let_def digits_value_dec in_s32_def)
  qed
qed

lemma dec_int_chars: "c \<in> set (dec_int i) \<Longrightarrow> c \<noteq> CHR '' '' \<and> c \<noteq> CHR 0x00"
proof -
  assume "c \<in> set (dec_int i)"
  then have "c = CHR ''-'' \<or> (\<exists>n. c \<in> set (dec n))" by (auto simp: dec_int_def split: if_splits)
  then show ?thesis
  proof
    assume "\<exists>n. c \<in> set (dec n)"
    then obtain d where "d < 10" "c = char_of (d + 48 :: nat)" using dec_digits by blast
    then have "(of_char c :: nat) = d + 48" by simp
    then show ?thesis by auto
  qed simp
qed

lemma strtoks_token: "CHR '' '' \<notin> set t \<Longrightarrow> strtoks (t @ s) tok = strtoks s (tok @ t)"
  by (induction t arbitrary: tok) auto

lemma strtoks_join:
  assumes "\<forall>t \<in> set ts. t \<noteq> [] \<and> CHR '' '' \<notin> set t"
  shows "strtoks (join ts) [] = ts"
  using assms
proof (induction ts rule: join.induct)
  case (2 t)
  then show ?case using strtoks_token [of t "[]" "[]"] by simp
next
  case (3 t u us)
  then show ?case by (simp add: strtoks_token)
qed simp

lemma read_calibration_printed:
  assumes "in_s32 a0" "in_s32 a1" "in_s32 a2" "in_s32 a3" "in_s32 a4" "in_s32 a5" "in_s32 a6"
  shows "read_calibration (join (map dec_int [a0, a1, a2, a3, a4, a5, a6]) @ [CHR 0x00]) junk [1, 0, 0, 0, 1, 0, 1] =
    Inr [a0, a1, a2, a3, a4, a5, a6]"
proof -
  let ?ts = "map dec_int [a0, a1, a2, a3, a4, a5, a6]"
  have len: "length (dec_int i) \<le> 11" if "in_s32 i" for i
    using that length_dec [of "nat i" 9] length_dec [of "nat (- i)" 9]
    by (auto simp: dec_int_def in_s32_def nat_less_iff split: if_splits)
  have l: "length (join ?ts) \<le> 90" using len [OF assms(1)] len [OF assms(2)] len [OF assms(3)] len [OF assms(4)]
      len [OF assms(5)] len [OF assms(6)] len [OF assms(7)] by simp
  have "c \<noteq> CHR 0x00" if "c \<in> set (join ?ts)" for c using that dec_int_chars [of c] by auto
  then have "takeWhile (\<lambda>c. c \<noteq> CHR 0x00) (join ?ts @ CHR 0x00 # junk) = join ?ts" by (simp add: takeWhile_tail)
  moreover have "take 200 (join ?ts @ [CHR 0x00]) @ junk = join ?ts @ CHR 0x00 # junk" using l by simp
  moreover have "strtoks (join ?ts) [] = ?ts"
  proof (rule strtoks_join, rule ballI)
    fix t assume "t \<in> set ?ts"
    then obtain i where "t = dec_int i" by auto
    then show "t \<noteq> [] \<and> CHR '' '' \<notin> set t"
      using dec_int_chars [of "CHR '' ''" i] dec_nonempty by (auto simp: dec_int_def)
  qed
  ultimately have "read_calibration (join ?ts @ [CHR 0x00]) junk [1, 0, 0, 0, 1, 0, 1] =
      cal_loop [atoi (dec_int a0), 0, 0, 0, 1, 0, 1] 1 (map dec_int [a1, a2, a3, a4, a5, a6])"
    by (simp only: read_calibration_def) simp
  moreover have "dec_int i \<noteq> []" for i by (simp add: dec_int_def dec_nonempty)
  ultimately show ?thesis
    using assms by (simp add: atoi_dec_int)
qed

text \<open>
  Calibration round trip: the seven coefficients that the calibration program prints in decimal, separated by
  blanks and ended by a NUL, are the coefficients of the loaded module, whatever lies behind them in memory.
\<close>

theorem linear_calibration_roundtrip:
  assumes "in_s32 a0" "in_s32 a1" "in_s32 a2" "in_s32 a3" "in_s32 a4" "in_s32 a5" "in_s32 a6"
  shows "linear_mod_init True (Some (join (map dec_int [a0, a1, a2, a3, a4, a5, a6]) @ [CHR 0x00])) junk None =
    Inr (Some \<lparr>swap_xy = 0, p_offset = 0, p_mult = 1, p_div = 1, lin_a = [a0, a1, a2, a3, a4, a5, a6]\<rparr>)"
  unfolding linear_mod_init_def option.case read_calibration_printed [OF assms] by (simp add: tslib_parse_vars_def)

text \<open>
  A calibration file with fewer than seven numbers crashes the program: the loop dereferences the \<^verbatim>\<open>NULL\<close>
  that \<^verbatim>\<open>strtok\<close> returns.
\<close>

theorem linear_short_calibration:
  assumes "length (strtoks (takeWhile (\<lambda>c. c \<noteq> CHR 0x00) (take 200 file @ junk)) []) < 7"
  shows "linear_mod_init True (Some file) junk params = Inl Null_deref"
proof -
  have "cal_loop a i ts = Inl Null_deref" if "i + length ts < 7" for a i ts
    using that by (induction ts arbitrary: a i) auto
  then have "read_calibration file junk a = Inl Null_deref" for a
    using assms by (auto simp: read_calibration_def split: list.splits)
  then show ?thesis by (simp add: linear_mod_init_def)
qed

theorem linear_short_calibration_witness:
  "linear_mod_init True (Some ''1 0 0 0 1 0'') [CHR 0x00] None = Inl Null_deref"
  using linear_short_calibration [of "''1 0 0 0 1 0''" "[CHR 0x00]" None] by simp

theorem linear_calibration_roundtrip_witness:
  "linear_mod_init True (Some (''2 0 -3 0 2 0 8'' @ [CHR 0x00])) ''9'' None =
     Inr (Some \<lparr>swap_xy = 0, p_offset = 0, p_mult = 1, p_div = 1, lin_a = [2, 0, - 3, 0, 2, 0, 8]\<rparr>)"
proof -
  have "dec_int 2 = ''2''" "dec_int 0 = ''0''" "dec_int (- 3) = ''-3''" "dec_int 8 = ''8''" by code_simp+
  with linear_calibration_roundtrip [of 2 0 "- 3" 0 2 0 8 "''9''"] show ?thesis by (simp add: in_s32_def)
qed

end
