(* ===== verification/TsInput.thy ===== *)
theory TsInput
  imports Tslib
begin

section \<open>The raw modules\<close>

text \<open>
  The modules at the end of a chain read from the descriptor of the device. What a \<^verbatim>\<open>read\<close> of the descriptor
  returns is the environment's choice: a list of answers that the model takes as an argument; when it is used
  up, the next \<^verbatim>\<open>read\<close> returns -1 with \<^verbatim>\<open>EAGAIN\<close>, as on a descriptor opened non-blocking with nothing to read.

  \<^verbatim>\<open>plugins/input-raw.c\<close> decodes the events of the Linux input layer (of \<^verbatim>\<open>s3c_ts.c\<close> among others); the
  modules \<^verbatim>\<open>mk712\<close>, \<^verbatim>\<open>collie\<close>, \<^verbatim>\<open>corgi\<close>, \<^verbatim>\<open>ucb1x00\<close>, \<^verbatim>\<open>h3600\<close> and \<^verbatim>\<open>arctic2\<close> read arrays of fixed structures
  and share one loop.
\<close>

subsection \<open>input-raw\<close>

record input_event =
  ev_time :: timeval
  ev_type :: int
  ev_code :: int
  ev_value :: int

abbreviation (input) EV_SYN :: int where "EV_SYN \<equiv> 0"
abbreviation (input) EV_KEY :: int where "EV_KEY \<equiv> 1"
abbreviation (input) EV_ABS :: int where "EV_ABS \<equiv> 3"
abbreviation (input) BTN_TOUCH :: int where "BTN_TOUCH \<equiv> 0x14A"
abbreviation (input) ABS_X :: int where "ABS_X \<equiv> 0"
abbreviation (input) ABS_Y :: int where "ABS_Y \<equiv> 1"
abbreviation (input) ABS_PRESSURE :: int where "ABS_PRESSURE \<equiv> 0x18"
abbreviation (input) EINTR :: int where "EINTR \<equiv> 4"

text \<open>A whole event, a short read of fewer bytes, or -1 with an error number. An event has 16 bytes.\<close>

datatype rd_answer = Rd_event input_event | Rd_short nat | Rd_error int

record tslib_input =
  current_x :: int
  current_y :: int
  current_p :: int
  sane_fd :: int
  using_syn :: int

text \<open>The three \<^verbatim>\<open>ioctl\<close> calls of \<^verbatim>\<open>check_fd\<close>: \<open>None\<close> where one fails.\<close>

record ts_caps =
  caps_version :: "int option"
  caps_bit :: "u32 option"
  caps_absbit :: "u64 option"

definition check_fd :: "ts_caps \<Rightarrow> tslib_input \<Rightarrow> int \<times> tslib_input" where
  "check_fd caps i =
     (case (caps_version caps, caps_bit caps, caps_absbit caps) of
        (Some version, Some b, Some absbit) \<Rightarrow>
          if version = 0x010000 \<and> bit b 3 \<and> bit absbit 0 \<and> bit absbit 1 \<and> bit absbit 24
          then (0, if bit b 0 then i\<lparr>using_syn := 1\<rparr> else i)
          else (- 1, i)
      | _ \<Rightarrow> (- 1, i))"

text \<open>A pen-up sample.\<close>

definition pen_up_sample :: "input_event \<Rightarrow> ts_sample" where
  "pen_up_sample ev = \<lparr>ts_x = 0, ts_y = 0, pressure = 0, tv = ev_time ev\<rparr>"

definition current_sample :: "tslib_input \<Rightarrow> input_event \<Rightarrow> ts_sample" where
  "current_sample i ev = \<lparr>ts_x = current_x i, ts_y = current_y i, pressure = word_of_int (current_p i), tv = ev_time ev\<rparr>"

text \<open>The loop with \<^verbatim>\<open>EV_SYN\<close>: \<open>samp\<close> advances together with \<open>tot\<close>.\<close>

fun syn_loop :: "tslib_input \<Rightarrow> rd_answer list \<Rightarrow> ts_sample list \<Rightarrow> nat \<Rightarrow> int
    \<Rightarrow> ts_fault + (int \<times> ts_sample list \<times> (tslib_input \<times> rd_answer list))" where
  "syn_loop i [] samp tot nr =
     (if int tot < nr then Inr (- 1, samp, (i, [])) else Inr (int tot, samp, (i, [])))"
| "syn_loop i (r # rs) samp tot nr =
     (if int tot < nr then
        (case r of
           Rd_event ev \<Rightarrow>
             if ev_type ev = EV_KEY then
               (if ev_code ev = BTN_TOUCH \<and> ev_value ev = 0 then
                  tbind (samp_put samp tot (pen_up_sample ev)) (\<lambda>samp'. syn_loop i rs samp' (tot + 1) nr)
                else syn_loop i rs samp tot nr)
             else if ev_type ev = EV_SYN then
               tbind (samp_put samp tot (current_sample i ev)) (\<lambda>samp'. syn_loop i rs samp' (tot + 1) nr)
             else if ev_type ev = EV_ABS then
               (if ev_code ev = ABS_X then syn_loop (i\<lparr>current_x := ev_value ev\<rparr>) rs samp tot nr
                else if ev_code ev = ABS_Y then syn_loop (i\<lparr>current_y := ev_value ev\<rparr>) rs samp tot nr
                else if ev_code ev = ABS_PRESSURE then syn_loop (i\<lparr>current_p := ev_value ev\<rparr>) rs samp tot nr
                else syn_loop i rs samp tot nr)
             else syn_loop i rs samp tot nr
         | _ \<Rightarrow> Inr (- 1, samp, (i, rs)))
      else Inr (int tot, samp, (i, r # rs)))"

text \<open>
  The loop without \<^verbatim>\<open>EV_SYN\<close>: \<open>len\<close> is the number of bytes the next \<^verbatim>\<open>read\<close> asks for, 16 at first. A \<^verbatim>\<open>read\<close> of 0
  bytes returns 0 and nothing ever changes \<open>len\<close> again: the loop is not left.
\<close>

fun nosyn_loop :: "tslib_input \<Rightarrow> rd_answer list \<Rightarrow> ts_sample list \<Rightarrow> nat \<Rightarrow> nat \<Rightarrow> int
    \<Rightarrow> ts_fault + (int \<times> ts_sample list \<times> (tslib_input \<times> rd_answer list))" where
  "nosyn_loop i [] samp len tot nr =
     (if int tot < nr \<and> len = 0 then Inl Diverges else Inr (int tot, samp, (i, [])))"
| "nosyn_loop i (r # rs) samp len tot nr =
     (if \<not> int tot < nr then Inr (int tot, samp, (i, r # rs))
      else if len = 0 then Inl Diverges
      else (case r of
          Rd_error e \<Rightarrow> if e = EINTR then nosyn_loop i rs samp len tot nr else Inr (int tot, samp, (i, rs))
        | Rd_short k \<Rightarrow> nosyn_loop i rs samp (len - min k len) tot nr
        | Rd_event ev \<Rightarrow>
            if len < 16 then nosyn_loop i rs samp 0 tot nr
            else if ev_type ev = EV_ABS then
              (if (ev_code ev = ABS_X \<or> ev_code ev = ABS_Y) \<and> ev_value ev = 0 then nosyn_loop i rs samp len tot nr
               else
                 (let i' = (if ev_code ev = ABS_X then i\<lparr>current_x := ev_value ev\<rparr>
                            else if ev_code ev = ABS_Y then i\<lparr>current_y := ev_value ev\<rparr>
                            else if ev_code ev = ABS_PRESSURE then i\<lparr>current_p := ev_value ev\<rparr> else i)
                  in tbind (samp_get samp tot) (\<lambda>old.
                     tbind (samp_put samp tot
                         (if ev_code ev = ABS_X \<or> ev_code ev = ABS_Y \<or> ev_code ev = ABS_PRESSURE
                          then current_sample i' ev else old\<lparr>tv := ev_time ev\<rparr>))
                       (\<lambda>samp'. nosyn_loop i' rs samp' len (tot + 1) nr))))
            else if ev_type ev = EV_KEY \<and> ev_code ev = BTN_TOUCH \<and> ev_value ev = 0 then
              tbind (samp_put samp tot (pen_up_sample ev)) (\<lambda>samp'. nosyn_loop i rs samp' len (tot + 1) nr)
            else nosyn_loop i rs samp len tot nr))"

definition ts_input_read :: "ts_caps \<Rightarrow> (tslib_input \<times> rd_answer list) reader" where
  "ts_input_read caps = (\<lambda>(i, rs) samp nr.
     let i1 = (if sane_fd i = 0 then (case check_fd caps i of (r, i') \<Rightarrow> i'\<lparr>sane_fd := r\<rparr>) else i) in
     if sane_fd i1 = - 1 then Inr (0, samp, (i1, rs))
     else if using_syn i1 \<noteq> 0 then syn_loop i1 rs samp 0 nr
     else nosyn_loop i1 rs samp 16 0 nr)"

definition input_mod_init :: "bool \<Rightarrow> tslib_input option" where
  "input_mod_init mem =
     (if mem then Some \<lparr>current_x = 0, current_y = 0, current_p = 0, sane_fd = 0, using_syn = 0\<rparr> else None)"

subsection \<open>The contract\<close>

lemma same_beyond_put:
  "int tot < nr \<Longrightarrow> nr \<le> int (length samp) \<Longrightarrow>
     \<exists>samp'. samp_put samp tot v = Inr samp' \<and> length samp' = length samp \<and> same_beyond nr samp samp'"
  by (auto simp: samp_put_def intro: same_beyond_update)

definition loop_post :: "int \<Rightarrow> ts_sample list \<Rightarrow> rd_answer list \<Rightarrow> ts_fault + (int \<times> ts_sample list \<times> (tslib_input \<times> rd_answer list)) \<Rightarrow> bool" where
  "loop_post nr samp rs res \<longleftrightarrow>
     (\<exists>r samp' i' rs'. res = Inr (r, samp', (i', rs')) \<and> r \<le> nr \<and> same_beyond nr samp samp' \<and> set rs' \<subseteq> set rs)"

lemma loop_post_put:
  assumes "int tot < nr" "nr \<le> int (length samp)" "\<And>samp'. length samp' = length samp \<Longrightarrow> loop_post nr samp' rs (f samp')"
  shows "loop_post nr samp (a # rs) (tbind (samp_put samp tot v) f)"
proof -
  have "loop_post nr (samp[tot := v]) rs (f (samp[tot := v]))" by (rule assms(3)) simp
  with assms(1,2) same_beyond_trans [OF same_beyond_update [OF assms(1), of samp v]] show ?thesis
    by (fastforce simp: loop_post_def)
qed

lemma loop_post_later: "loop_post nr samp rs res \<Longrightarrow> loop_post nr samp (a # rs) res"
  by (fastforce simp: loop_post_def)

lemma syn_loop_contract:
  assumes "int tot \<le> nr" "nr \<le> int (length samp)"
  shows "loop_post nr samp rs (syn_loop i rs samp tot nr)"
  using assms
proof (induction rs arbitrary: i samp tot)
  case Nil
  then show ?case by (simp add: loop_post_def)
next
  case (Cons a rs)
  show ?case
  proof (cases "int tot < nr")
    case True
    have "loop_post nr samp (a # rs) (tbind (samp_put samp tot v) (\<lambda>samp'. syn_loop i rs samp' (tot + 1) nr))" for v
      using True Cons by (intro loop_post_put) auto
    with True Cons.IH [OF Cons.prems] show ?thesis
      by (cases a) (auto intro!: loop_post_later, auto simp: loop_post_def)
  next
    case False
    with Cons.prems show ?thesis by (auto simp: loop_post_def)
  qed
qed

text \<open>The input layer of the kernel hands out whole events only.\<close>

definition whole_events :: "rd_answer list \<Rightarrow> bool" where
  "whole_events rs \<longleftrightarrow> (\<forall>k. Rd_short k \<notin> set rs)"

lemma nosyn_loop_contract:
  assumes "int tot \<le> nr" "nr \<le> int (length samp)" "whole_events rs"
  shows "loop_post nr samp rs (nosyn_loop i rs samp 16 tot nr)"
  using assms
proof (induction rs arbitrary: i samp tot)
  case Nil
  then show ?case by (simp add: loop_post_def)
next
  case (Cons a rs)
  then have w: "whole_events rs" "\<And>k. a \<noteq> Rd_short k" by (auto simp: whole_events_def)
  show ?case
  proof (cases "int tot < nr")
    case True
    have put: "loop_post nr samp (a # rs) (tbind (samp_put samp tot v) (\<lambda>samp'. nosyn_loop j rs samp' 16 (tot + 1) nr))" for v j
      using True Cons w by (intro loop_post_put) auto
    have rest: "loop_post nr samp (a # rs) (nosyn_loop i rs samp 16 tot nr)"
      using Cons.IH [OF Cons.prems(1,2) w(1)] by (rule loop_post_later)
    show ?thesis
    proof (cases a)
      case (Rd_event ev)
      have get: "samp_get samp tot = Inr (samp ! tot)" using True Cons.prems by simp
      show ?thesis using True Rd_event put rest by (simp add: get Let_def del: samp_put_ok)
    next
      case (Rd_error e)
      with True rest show ?thesis by (auto simp: loop_post_def)
    qed (use w in simp)
  next
    case False
    with Cons.prems show ?thesis by (auto simp: loop_post_def)
  qed
qed

lemma ts_input_reader: "reader (ts_input_read caps) (\<lambda>(i, rs). whole_events rs)"
proof (unfold_locales, clarify)
  fix i rs nr buf assume r: "whole_events rs" "0 \<le> nr" "nr \<le> int (length (buf :: ts_sample list))"
  let ?i = "if sane_fd i = 0 then (case check_fd caps i of (r, i') \<Rightarrow> i'\<lparr>sane_fd := r\<rparr>) else i"
  have "loop_post nr buf rs (ts_input_read caps (i, rs) buf nr)"
  proof (cases "sane_fd ?i = - 1")
    case True
    with r(2) show ?thesis by (simp add: ts_input_read_def Let_def loop_post_def)
  next
    case False
    with syn_loop_contract [of 0 nr buf rs ?i] nosyn_loop_contract [of 0 nr buf rs ?i] r show ?thesis
      by (simp add: ts_input_read_def Let_def)
  qed
  with r(1) show "\<exists>r buf' s'. ts_input_read caps (i, rs) buf nr = Inr (r, buf', s') \<and>
      (case s' of (i, rs) \<Rightarrow> whole_events rs) \<and> r \<le> nr \<and> same_beyond nr buf buf'"
    by (fastforce simp: loop_post_def whole_events_def)
qed

interpretation input: reader "ts_input_read caps" "\<lambda>(i, rs). whole_events rs" for caps
  by (rule ts_input_reader)

subsection \<open>Decoding\<close>

text \<open>The events of one sample, as a driver reports them: the coordinates, the pressure, the end of the packet.\<close>

definition mk_event :: "timeval \<Rightarrow> int \<Rightarrow> int \<Rightarrow> int \<Rightarrow> rd_answer" where
  "mk_event t ty c v = Rd_event \<lparr>ev_time = t, ev_type = ty, ev_code = c, ev_value = v\<rparr>"

definition events_of :: "ts_sample \<Rightarrow> rd_answer list" where
  "events_of c = [mk_event (tv c) EV_ABS ABS_X (ts_x c), mk_event (tv c) EV_ABS ABS_Y (ts_y c),
     mk_event (tv c) EV_ABS ABS_PRESSURE (sint (pressure c)), mk_event (tv c) EV_SYN 0 0]"

lemma syn_loop_events:
  "int tot < nr \<Longrightarrow> nr \<le> int (length samp) \<Longrightarrow>
   syn_loop i (events_of c @ rs) samp tot nr =
     syn_loop (i\<lparr>current_x := ts_x c, current_y := ts_y c, current_p := sint (pressure c)\<rparr>) rs (samp[tot := c]) (tot + 1) nr"
  by (cases c) (simp add: events_of_def mk_event_def current_sample_def)

lemma syn_loop_all:
  assumes "int tot + int (length cs) \<le> nr" "nr \<le> int (length samp)"
  shows "\<exists>i'. syn_loop i (concat (map events_of cs)) samp tot nr =
      syn_loop i' [] (take tot samp @ cs @ drop (tot + length cs) samp) (tot + length cs) nr \<and>
    using_syn i' = using_syn i \<and> sane_fd i' = sane_fd i"
  using assms
proof (induction cs arbitrary: i samp tot)
  case (Cons c cs)
  let ?i = "i\<lparr>current_x := ts_x c, current_y := ts_y c, current_p := sint (pressure c)\<rparr>"
  have t: "int tot < nr" "tot < length samp" using Cons.prems by auto
  then have "syn_loop i (concat (map events_of (c # cs))) samp tot nr =
      syn_loop ?i (concat (map events_of cs)) (samp[tot := c]) (tot + 1) nr"
    using Cons.prems(2) by (simp only: list.map concat.simps syn_loop_events)
  then show ?case using Cons.IH [of "tot + 1" "samp[tot := c]" ?i] Cons.prems t(2) by simp
qed auto

text \<open>A device with absolute axes for position and pressure that ends its packets with \<^verbatim>\<open>EV_SYN\<close>.\<close>

definition touchscreen_caps :: "ts_caps \<Rightarrow> bool" where
  "touchscreen_caps caps \<longleftrightarrow> (\<exists>b a. caps_version caps = Some 0x010000 \<and> caps_bit caps = Some b \<and> caps_absbit caps = Some a \<and>
     bit b 0 \<and> bit b 3 \<and> bit a 0 \<and> bit a 1 \<and> bit a 24)"

lemma input_ready:
  assumes "touchscreen_caps caps" "input_mod_init True = Some i"
  shows "ts_input_read caps (i, rs) samp nr = syn_loop (i\<lparr>using_syn := 1, sane_fd := 0\<rparr>) rs samp 0 nr"
  using assms by (auto simp: touchscreen_caps_def input_mod_init_def ts_input_read_def check_fd_def)

text \<open>
  C9. The events of any list of samples are decoded back to exactly these samples: a freshly loaded \<^verbatim>\<open>input\<close> module
  on a touch screen with \<^verbatim>\<open>EV_SYN\<close> returns their number, with the samples in the caller's array in order.
\<close>

theorem input_roundtrip:
  assumes "touchscreen_caps caps" "input_mod_init True = Some i" "length cs \<le> length samp"
  shows "\<exists>i'. ts_input_read caps (i, concat (map events_of cs)) samp (int (length cs)) =
    Inr (int (length cs), cs @ drop (length cs) samp, (i', []))"
  using syn_loop_all [of 0 cs "int (length cs)" samp "i\<lparr>using_syn := 1, sane_fd := 0\<rparr>"] assms(3)
  by (auto simp: input_ready [OF assms(1,2)])

text \<open>
  On a non-blocking descriptor samples get lost: when fewer complete samples are pending than the caller asks
  for, the module consumes their events and returns -1.
\<close>

theorem input_loses_samples:
  assumes "touchscreen_caps caps" "input_mod_init True = Some i" "length cs < length samp"
  shows "\<exists>samp' i'. ts_input_read caps (i, concat (map events_of cs)) samp (int (length samp)) = Inr (- 1, samp', (i', []))"
  using syn_loop_all [of 0 cs "int (length samp)" samp "i\<lparr>using_syn := 1, sane_fd := 0\<rparr>"] assms(3)
  by (auto simp: input_ready [OF assms(1,2)])

text \<open>
  Without \<^verbatim>\<open>EV_SYN\<close> a short read is never recovered from, although the comment says that the read is restarted: the
  remaining length is not reset, so the next whole event leaves a request of zero bytes and the loop never ends.
\<close>

theorem input_short_read_hangs:
  assumes "check_fd caps i = (0, i)" "using_syn i = 0" "sane_fd i = 0" "0 < nr" "0 < k" "k < 16"
  shows "ts_input_read caps (i, Rd_short k # Rd_event ev # rs) samp nr = Inl Diverges"
proof -
  have "nosyn_loop j rs samp 0 0 nr = Inl Diverges" for j using assms(4) by (cases rs) simp_all
  moreover have "16 - min k 16 < 16" "16 - min k 16 \<noteq> 0" using assms(5,6) by simp_all
  ultimately show ?thesis using assms(1-4) by (simp add: ts_input_read_def)
qed

definition demo_caps :: ts_caps where
  "demo_caps = \<lparr>caps_version = Some 0x010000, caps_bit = Some 0xB, caps_absbit = Some 0x1000003\<rparr>"

definition demo_sample :: ts_sample where
  "demo_sample = \<lparr>ts_x = 100, ts_y = 200, pressure = 1, tv = \<lparr>tv_sec = 1, tv_usec = 2\<rparr>\<rparr>"

lemma demo_caps_ok: "touchscreen_caps demo_caps"
  by (simp add: touchscreen_caps_def demo_caps_def bit_numeral_rec)

theorem input_roundtrip_witness:
  "\<exists>i'. ts_input_read demo_caps (\<lparr>current_x = 0, current_y = 0, current_p = 0, sane_fd = 0, using_syn = 0\<rparr>, events_of demo_sample)
     [demo_sample\<lparr>ts_x := 0\<rparr>] 1 = Inr (1, [demo_sample], (i', []))"
  using input_roundtrip [OF demo_caps_ok, of "\<lparr>current_x = 0, current_y = 0, current_p = 0, sane_fd = 0, using_syn = 0\<rparr>"
      "[demo_sample]" "[demo_sample\<lparr>ts_x := 0\<rparr>]"] by (simp add: input_mod_init_def)

theorem input_loses_samples_witness:
  "\<exists>samp' i'. ts_input_read demo_caps (\<lparr>current_x = 0, current_y = 0, current_p = 0, sane_fd = 0, using_syn = 0\<rparr>, events_of demo_sample)
     [demo_sample, demo_sample] 2 = Inr (- 1, samp', (i', []))"
  using input_loses_samples [OF demo_caps_ok, of "\<lparr>current_x = 0, current_y = 0, current_p = 0, sane_fd = 0, using_syn = 0\<rparr>"
      "[demo_sample]" "[demo_sample, demo_sample]"] by (simp add: input_mod_init_def)

theorem input_short_read_hangs_witness:
  "ts_input_read (demo_caps\<lparr>caps_bit := Some 0xA\<rparr>) (\<lparr>current_x = 0, current_y = 0, current_p = 0, sane_fd = 0, using_syn = 0\<rparr>,
     Rd_short 4 # Rd_event \<lparr>ev_time = \<lparr>tv_sec = 0, tv_usec = 0\<rparr>, ev_type = 0, ev_code = 0, ev_value = 0\<rparr> # [])
     [demo_sample] 1 = Inl Diverges"
  using input_short_read_hangs [of "demo_caps\<lparr>caps_bit := Some 0xA\<rparr>"
      "\<lparr>current_x = 0, current_y = 0, current_p = 0, sane_fd = 0, using_syn = 0\<rparr>" 1 4]
  by (simp add: check_fd_def demo_caps_def bit_numeral_rec)

subsection \<open>Modules for fixed structures\<close>

text \<open>
  The six remaining modules differ in the structure they read and in how a sample is built from it, and are otherwise
  the same text: \<open>struct_read\<close>. An answer of the descriptor holds the whole structures it delivered and the number of
  bytes behind them; \<open>None\<close> is -1. A \<^verbatim>\<open>read\<close> never delivers more than was asked for. \<open>now\<close> are the values the
  calls of \<^verbatim>\<open>gettimeofday\<close> store.
\<close>

type_synonym 'e raw_state = "('e list \<times> nat) option list \<times> timeval list"

definition gettimeofday :: "timeval list \<Rightarrow> timeval \<times> timeval list" where
  "gettimeofday now = (case now of [] \<Rightarrow> (\<lparr>tv_sec = 0, tv_usec = 0\<rparr>, []) | t # ts \<Rightarrow> (t, ts))"

fun struct_loop :: "('e \<Rightarrow> timeval list \<Rightarrow> ts_sample \<times> timeval list) \<Rightarrow> timeval list \<Rightarrow> 'e list \<Rightarrow> ts_sample list \<Rightarrow> nat
    \<Rightarrow> ts_fault + (ts_sample list \<times> timeval list)" where
  "struct_loop conv now [] samp k = Inr (samp, now)"
| "struct_loop conv now (e # es) samp k = (case conv e now of (c, now') \<Rightarrow>
     tbind (samp_put samp k c) (\<lambda>samp'. struct_loop conv now' es samp' (k + 1)))"

definition struct_read :: "nat \<Rightarrow> ('e \<Rightarrow> timeval list \<Rightarrow> ts_sample \<times> timeval list) \<Rightarrow> 'e raw_state reader" where
  "struct_read sz conv = (\<lambda>(rs, now) samp nr.
     case rs of [] \<Rightarrow> Inr (- 1, samp, ([], now))
     | None # rs' \<Rightarrow> Inr (- 1, samp, (rs', now))
     | Some (es, extra) # rs' \<Rightarrow>
         let es' = take (nat nr) es; rv = sz * length es' + (if length es' < nat nr then extra mod sz else 0) in
         if 0 < rv then tbind (struct_loop conv now es' samp 0) (\<lambda>(samp', now'). Inr (nr, samp', (rs', now')))
         else Inr (- 1, samp, (rs', now)))"

text \<open>\<^verbatim>\<open>(short)\<close> of an integer.\<close>

definition short :: "int \<Rightarrow> int" where
  "short v = signed_take_bit 15 v"

text \<open>C's remainder.\<close>

definition c_mod :: "int \<Rightarrow> int \<Rightarrow> int" where
  "c_mod a b = a - c_div a b * b"

record mk712_ts_event =
  mk_header :: u32
  mk_x :: u32
  mk_y :: u32

definition mk712_sample :: "mk712_ts_event \<Rightarrow> timeval list \<Rightarrow> ts_sample \<times> timeval list" where
  "mk712_sample e now = (case gettimeofday now of (t, now') \<Rightarrow>
     (\<lparr>ts_x = short (uint (mk_x e)), ts_y = short (uint (mk_y e)), pressure = (if mk_header e = 0 then 1 else 0), tv = t\<rparr>, now'))"

definition mk712_read :: "mk712_ts_event raw_state reader" where
  "mk712_read = struct_read 16 mk712_sample"

record collie_ts_event =
  co_y :: int
  co_x :: int
  co_pressure :: int
  co_millisecs :: int

definition collie_sample :: "collie_ts_event \<Rightarrow> timeval list \<Rightarrow> ts_sample \<times> timeval list" where
  "collie_sample e now = (\<lparr>ts_x = co_x e, ts_y = co_y e, pressure = word_of_int (co_pressure e),
     tv = \<lparr>tv_sec = wrap32 (c_div (co_millisecs e) 1000), tv_usec = c_mod (co_millisecs e) 1000\<rparr>\<rparr>, now)"

text \<open>The size of the structure depends on the alignment of \<^verbatim>\<open>long long\<close> in the ABI: 20 or 24.\<close>

definition collie_read :: "nat \<Rightarrow> collie_ts_event raw_state reader" where
  "collie_read sz = struct_read sz collie_sample"

record corgi_ts_event =
  cg_pressure :: int
  cg_x :: int
  cg_y :: int
  cg_millisecs :: int

definition corgi_sample :: "corgi_ts_event \<Rightarrow> timeval list \<Rightarrow> ts_sample \<times> timeval list" where
  "corgi_sample e now = (\<lparr>ts_x = cg_x e, ts_y = cg_y e, pressure = word_of_int (cg_pressure e),
     tv = \<lparr>tv_sec = c_div (cg_millisecs e) 1000, tv_usec = c_mod (cg_millisecs e) 1000\<rparr>\<rparr>, now)"

definition corgi_read :: "corgi_ts_event raw_state reader" where
  "corgi_read = struct_read 8 corgi_sample"

record ucb1x00_ts_event =
  ucb_pressure :: u16
  ucb_x :: u16
  ucb_y :: u16
  ucb_stamp :: timeval

definition ucb1x00_sample :: "ucb1x00_ts_event \<Rightarrow> timeval list \<Rightarrow> ts_sample \<times> timeval list" where
  "ucb1x00_sample e now = (\<lparr>ts_x = uint (ucb_x e), ts_y = uint (ucb_y e), pressure = ucast (ucb_pressure e), tv = ucb_stamp e\<rparr>, now)"

definition ucb1x00_read :: "ucb1x00_ts_event raw_state reader" where
  "ucb1x00_read = struct_read 16 ucb1x00_sample"

record h3600_ts_event =
  h36_pressure :: u16
  h36_x :: u16
  h36_y :: u16

definition h3600_sample :: "h3600_ts_event \<Rightarrow> timeval list \<Rightarrow> ts_sample \<times> timeval list" where
  "h3600_sample e now = (case gettimeofday now of (t, now') \<Rightarrow>
     (\<lparr>ts_x = uint (h36_x e), ts_y = uint (h36_y e), pressure = ucast (h36_pressure e), tv = t\<rparr>, now'))"

definition h3600_read :: "h3600_ts_event raw_state reader" where
  "h3600_read = struct_read 8 h3600_sample"

record arctic2_ts_event =
  arc_pressure :: int
  arc_x :: int
  arc_y :: int

definition arctic2_sample :: "arctic2_ts_event \<Rightarrow> timeval list \<Rightarrow> ts_sample \<times> timeval list" where
  "arctic2_sample e now = (case gettimeofday now of (t, now') \<Rightarrow>
     (\<lparr>ts_x = short (arc_x e), ts_y = short (arc_y e), pressure = word_of_int (arc_pressure e), tv = t\<rparr>, now'))"

definition arctic2_read :: "arctic2_ts_event raw_state reader" where
  "arctic2_read = struct_read 20 arctic2_sample"

fun samples_of :: "('e \<Rightarrow> timeval list \<Rightarrow> ts_sample \<times> timeval list) \<Rightarrow> timeval list \<Rightarrow> 'e list \<Rightarrow> ts_sample list" where
  "samples_of conv now [] = []"
| "samples_of conv now (e # es) = fst (conv e now) # samples_of conv (snd (conv e now)) es"

lemma length_samples_of [simp]: "length (samples_of conv now es) = length es"
  by (induction es arbitrary: now) simp_all

lemma struct_loop_map:
  "k + length es \<le> length samp \<Longrightarrow> \<exists>now'. struct_loop conv now es samp k =
     Inr (take k samp @ samples_of conv now es @ drop (k + length es) samp, now')"
proof (induction es arbitrary: now samp k)
  case (Cons e es)
  with Cons.IH [of "Suc k" "samp[k := fst (conv e now)]" "snd (conv e now)"] show ?case by (auto simp: split_beta)
qed simp

lemma struct_read_eq:
  assumes "0 < sz" "es \<noteq> []" "int (length es) \<le> nr" "nr \<le> int (length samp)"
  shows "\<exists>now'. struct_read sz conv (Some (es, extra) # rs, now) samp nr =
    Inr (nr, samples_of conv now es @ drop (length es) samp, (rs, now'))"
proof -
  have "take (nat nr) es = es" using assms(3) by simp
  moreover have "0 < sz * length es + k" for k using assms(1,2) by simp
  moreover have "0 < nr" using assms(2,3) by (cases es) auto
  ultimately show ?thesis using struct_loop_map [of 0 es samp conv now] assms
    by (auto simp: struct_read_def Let_def)
qed

lemma struct_reader: "reader (struct_read sz conv) (\<lambda>_. True)"
proof (unfold_locales)
  fix s :: "'a raw_state" and nr and buf :: "ts_sample list"
  assume r: "0 \<le> nr" "nr \<le> int (length buf)"
  obtain rs now where s: "s = (rs, now)" by force
  have "\<exists>r buf' s'. struct_read sz conv (rs, now) buf nr = Inr (r, buf', s') \<and> r \<le> nr \<and> same_beyond nr buf buf'"
  proof (cases "\<exists>es extra rs'. rs = Some (es, extra) # rs'")
    case True
    then obtain es extra rs' where rs: "rs = Some (es, extra) # rs'" by blast
    let ?es = "take (nat nr) es"
    have l: "0 + length ?es \<le> length buf" "length ?es \<le> nat nr" using r by auto
    obtain now' where "struct_loop conv now ?es buf 0 = Inr (samples_of conv now ?es @ drop (length ?es) buf, now')"
      using struct_loop_map [OF l(1), of conv now] by auto
    moreover have "same_beyond nr buf (samples_of conv now ?es @ drop (length ?es) buf)"
      using l by (auto simp: same_beyond_def)
    ultimately show ?thesis using r by (auto simp: rs struct_read_def Let_def)
  next
    case False
    with r show ?thesis by (cases rs) (auto simp: struct_read_def split: option.splits)
  qed
  with s show "\<exists>r buf' s'. struct_read sz conv s buf nr = Inr (r, buf', s') \<and> True \<and> r \<le> nr \<and> same_beyond nr buf buf'"
    by simp
qed

text \<open>
  The six modules for fixed structures are \<open>struct_read\<close> at their structure and conversion. They return the number
  of samples that was asked for, not the number that was read: after a read of fewer structures the rest of the
  array still holds what the caller had in it, and is reported as samples.
\<close>

theorem raw_modules_report_stale:
  assumes "0 < sz" "es \<noteq> []" "int (length es) < nr" "nr \<le> int (length samp)"
  shows "\<exists>now'. struct_read sz conv (Some (es, extra) # rs, now) samp nr =
    Inr (nr, samples_of conv now es @ drop (length es) samp, (rs, now'))"
  using assms by (intro struct_read_eq) auto

theorem raw_modules_report_stale_witness:
  "\<exists>now'. mk712_read ([Some ([\<lparr>mk_header = 0, mk_x = 5, mk_y = 6\<rparr>], 0)], [\<lparr>tv_sec = 9, tv_usec = 9\<rparr>]) [demo_sample, demo_sample] 2 =
     Inr (2, [\<lparr>ts_x = 5, ts_y = 6, pressure = 1, tv = \<lparr>tv_sec = 9, tv_usec = 9\<rparr>\<rparr>, demo_sample], ([], now'))"
  using raw_modules_report_stale [of 16 "[\<lparr>mk_header = 0, mk_x = 5, mk_y = 6\<rparr>]" 2 "[demo_sample, demo_sample]"
      mk712_sample 0 "[]" "[\<lparr>tv_sec = 9, tv_usec = 9\<rparr>]"]
  by (simp add: mk712_read_def mk712_sample_def gettimeofday_def short_def)

interpretation mk712: reader mk712_read "\<lambda>_. True"
  unfolding mk712_read_def by (rule struct_reader)

interpretation h3600: reader h3600_read "\<lambda>_. True"
  unfolding h3600_read_def by (rule struct_reader)

interpretation ucb1x00: reader ucb1x00_read "\<lambda>_. True"
  unfolding ucb1x00_read_def by (rule struct_reader)

interpretation collie: reader "collie_read sz" "\<lambda>_. True" for sz
  unfolding collie_read_def by (rule struct_reader)

interpretation corgi: reader corgi_read "\<lambda>_. True"
  unfolding corgi_read_def by (rule struct_reader)

interpretation arctic2: reader arctic2_read "\<lambda>_. True"
  unfolding arctic2_read_def by (rule struct_reader)

text \<open>\<^verbatim>\<open>collie\<close> and \<^verbatim>\<open>corgi\<close> store milliseconds into the microseconds of the time stamp.\<close>

lemma collie_time:
  assumes "0 \<le> co_millisecs e" "co_millisecs e < 2147483648"
  shows "tv (fst (collie_sample e now)) = \<lparr>tv_sec = co_millisecs e div 1000, tv_usec = co_millisecs e mod 1000\<rparr>"
proof -
  have "in_s32 (co_millisecs e div 1000)" using assms unfolding in_s32_def by linarith
  with assms show ?thesis by (simp add: collie_sample_def c_mod_def c_div_nonneg minus_div_mult_eq_mod)
qed

end
