(* ===== verification/TsChain.thy ===== *)
theory TsChain
  imports Pthres Variance Dejitter Linear TsInput
begin

section \<open>The module chain\<close>

text \<open>
  \<^verbatim>\<open>tslib/src\<close>: opening a device, reading the configuration, loading modules, linking them, and reading through
  them. The structures live in a heap of cells at addresses, 0 is \<^verbatim>\<open>NULL\<close>; every module is a
  \<^verbatim>\<open>tslib_module_info\<close> with its own data behind it. \<^verbatim>\<open>dlopen\<close>, \<^verbatim>\<open>dlsym\<close> and the environment are parameters: \<open>dl\<close>
  maps a file name to \<open>None\<close> if it cannot be opened, to \<open>Some None\<close> if it has no \<^verbatim>\<open>mod_init\<close>, and otherwise to
  that function. The raw module of a chain is \<^verbatim>\<open>input\<close> here; the other raw modules keep the same contract.
\<close>

datatype tsmod = Input tslib_input | Pthres tslib_pthres | Variance tslib_variance | Dejitter tslib_dejitter
  | Linear tslib_linear | Linear_h2200

record tslib_module_info =
  mi_dev :: nat
  mi_next :: nat
  mi_handle :: nat
  mi_mod :: tsmod

record tsdev =
  ts_fd_no :: int
  ts_list :: nat
  ts_list_raw :: nat

record ts_world =
  w_ts :: nat
  w_dev :: tsdev
  w_cells :: "nat \<Rightarrow> tslib_module_info option"
  w_top :: nat
  w_handles :: "nat list"

type_synonym plugin = "string option \<Rightarrow> ts_fault + tsmod option"

subsection \<open>Opening and closing\<close>

text \<open>\<open>mem\<close> is the address \<^verbatim>\<open>malloc\<close> returned, \<open>fd\<close> the result of \<^verbatim>\<open>open\<close>.\<close>

definition ts_open :: "nat \<Rightarrow> int \<Rightarrow> ts_world option" where
  "ts_open mem fd =
     (if mem = 0 then None
      else if fd = - 1 then None
      else Some \<lparr>w_ts = mem, w_dev = \<lparr>ts_fd_no = fd, ts_list = 0, ts_list_raw = 0\<rparr>, w_cells = (\<lambda>_. None), w_top = 1, w_handles = []\<rparr>)"

definition ts_fd :: "ts_world \<Rightarrow> int" where
  "ts_fd w = ts_fd_no (w_dev w)"

text \<open>\<^verbatim>\<open>ts_close\<close> closes the descriptor and frees the device structure; \<open>rc\<close> is the result of \<^verbatim>\<open>close\<close>.\<close>

definition ts_close :: "int \<Rightarrow> ts_world \<Rightarrow> int \<times> ts_world" where
  "ts_close rc w = (rc, w\<lparr>w_ts := 0, w_dev := \<lparr>ts_fd_no = - 1, ts_list = 0, ts_list_raw = 0\<rparr>\<rparr>)"

subsection \<open>Linking\<close>

definition set_cell :: "nat \<Rightarrow> (tslib_module_info \<Rightarrow> tslib_module_info) \<Rightarrow> ts_world \<Rightarrow> ts_fault + ts_world" where
  "set_cell p f w = (case w_cells w p of None \<Rightarrow> Inl Null_deref
     | Some m \<Rightarrow> Inr (w\<lparr>w_cells := (w_cells w)(p := Some (f m))\<rparr>))"

definition ts_attach :: "nat \<Rightarrow> ts_world \<Rightarrow> ts_fault + (int \<times> ts_world)" where
  "ts_attach info w = tbind (set_cell info (\<lambda>m. m\<lparr>mi_dev := w_ts w, mi_next := ts_list (w_dev w)\<rparr>) w) (\<lambda>w1.
     Inr (0, w1\<lparr>w_dev := (w_dev w1)\<lparr>ts_list := info\<rparr>\<rparr>))"

text \<open>
  The loop of \<^verbatim>\<open>__ts_attach_raw\<close>: its third expression sets \<^verbatim>\<open>prev\<close> to \<^verbatim>\<open>next\<close>, so the two are equal whenever the
  condition is tested. \<open>None\<close> means that the loop is not left.
\<close>

partial_function (option) attach_walk ::
  "(nat \<Rightarrow> tslib_module_info option) \<Rightarrow> nat \<Rightarrow> nat \<Rightarrow> nat \<Rightarrow> (ts_fault + nat) option" where
  "attach_walk cells prev_list next prev =
     (if next \<noteq> 0 \<and> next \<noteq> prev_list then
        (case cells prev of None \<Rightarrow> Some (Inl Null_deref)
         | Some m \<Rightarrow> attach_walk cells prev_list (mi_next m) (mi_next m))
      else Some (Inr prev))"

definition ts_attach_raw :: "nat \<Rightarrow> ts_world \<Rightarrow> ts_fault + (int \<times> ts_world)" where
  "ts_attach_raw info w =
     (let prev_list = ts_list_raw (w_dev w) in
      tbind (set_cell info (\<lambda>m. m\<lparr>mi_dev := w_ts w, mi_next := prev_list\<rparr>) w) (\<lambda>w1.
        let w2 = w1\<lparr>w_dev := (w_dev w1)\<lparr>ts_list_raw := info\<rparr>\<rparr> in
        if ts_list (w_dev w2) = 0 \<or> ts_list (w_dev w2) = prev_list
        then Inr (0, w2\<lparr>w_dev := (w_dev w2)\<lparr>ts_list := info\<rparr>\<rparr>)
        else (case attach_walk (w_cells w2) prev_list (ts_list (w_dev w2)) (ts_list (w_dev w2)) of
            None \<Rightarrow> Inl Diverges
          | Some walk \<Rightarrow> tbind walk (\<lambda>prev. tbind (set_cell prev (\<lambda>m. m\<lparr>mi_next := info\<rparr>) w2) (\<lambda>w3. Inr (0, w3))))))"

subsection \<open>Loading\<close>

text \<open>\<open>dir\<close> is the plugin directory: \<^verbatim>\<open>TSLIB_PLUGINDIR\<close> or the one compiled in. \<^verbatim>\<open>fn\<close> has 1024 bytes.\<close>

definition load_module :: "(string \<Rightarrow> plugin option option) \<Rightarrow> string \<Rightarrow> ts_world \<Rightarrow> string \<Rightarrow> string option \<Rightarrow> bool
    \<Rightarrow> ts_fault + (int \<times> ts_world)" where
  "load_module dl dir w module params raw =
     (let fn = dir @ ''/'' @ module @ ''.so'' in
      if length fn \<ge> 1024 then Inl Out_of_bounds
      else (case dl fn of
          None \<Rightarrow> Inr (- 1, w)
        | Some None \<Rightarrow> Inr (- 1, w)
        | Some (Some init) \<Rightarrow> tbind (init params) (\<lambda>info0.
            (case info0 of
               None \<Rightarrow> Inr (- 1, w)
             | Some md \<Rightarrow>
                 (let info = w_top w; handle = length (w_handles w) + 1;
                      w1 = w\<lparr>w_cells := (w_cells w)(info := Some \<lparr>mi_dev = 0, mi_next = 0, mi_handle = handle, mi_mod = md\<rparr>),
                             w_top := info + 1, w_handles := handle # w_handles w\<rparr>
                  in if raw then ts_attach_raw info w1 else ts_attach info w1)))))"

definition ts_load_module where
  "ts_load_module dl dir w module params = load_module dl dir w module params False"

definition ts_load_module_raw where
  "ts_load_module_raw dl dir w module params = load_module dl dir w module params True"

subsection \<open>Configuration\<close>

text \<open>
  \<^verbatim>\<open>fgets\<close> with a buffer of 512 bytes: at most 511 characters, up to and including the first newline; and the
  newline cut off. The line is too long if byte 510 of the buffer is not zero afterwards.
\<close>

definition fgets_line :: "string \<Rightarrow> string" where
  "fgets_line s = takeWhile (\<lambda>c. c \<noteq> CHR 0x0A) (take 511 s)"

definition fgets_rest :: "string \<Rightarrow> string" where
  "fgets_rest s = (let l = length (fgets_line s) in if l < 511 then drop (l + 1) s else drop 511 s)"

lemma fgets_rest_shorter: "s \<noteq> [] \<Longrightarrow> length (fgets_rest s) < length s"
  by (cases s) (auto simp: fgets_rest_def Let_def)

text \<open>One line; the second result says that the loop goes on.\<close>

definition config_line :: "(string \<Rightarrow> plugin option option) \<Rightarrow> string \<Rightarrow> ts_world \<Rightarrow> string \<Rightarrow> int \<Rightarrow> ts_fault + (int \<times> bool \<times> ts_world)" where
  "config_line dl dir w line rv =
     (if length line > 510 then Inr (rv, False, w)
      else (case strsep line of
          (tok, None) \<Rightarrow> Inr (rv, True, w)
        | (tok, Some p) \<Rightarrow>
            if tok \<noteq> [] \<and> hd tok = CHR ''#'' then Inr (rv, True, w)
            else if strcaseeq tok ''module'' then
              (case strsep p of (name, params) \<Rightarrow>
                 tbind (ts_load_module dl dir w name params) (\<lambda>(r, w'). Inr (r, r = 0, w')))
            else if strcaseeq tok ''module_raw'' then
              (case strsep p of (name, params) \<Rightarrow>
                 tbind (ts_load_module_raw dl dir w name params) (\<lambda>(r, w'). Inr (r, r = 0, w')))
            else Inr (rv, False, w)))"

function config_loop :: "(string \<Rightarrow> plugin option option) \<Rightarrow> string \<Rightarrow> ts_world \<Rightarrow> string \<Rightarrow> int \<Rightarrow> ts_fault + (int \<times> ts_world)" where
  "config_loop dl dir w s rv =
     (if s = [] then Inr (rv, w)
      else tbind (config_line dl dir w (fgets_line s) rv) (\<lambda>(r, more, w').
        if more then config_loop dl dir w' (fgets_rest s) r else Inr (r, w')))"
  by pat_completeness auto
termination by (relation "measure (\<lambda>(dl, dir, w, s, rv). length s)") (auto simp: fgets_rest_shorter)

declare config_loop.simps [simp del]

text \<open>\<open>file\<close> is the content of the configuration file, \<open>None\<close> if it cannot be opened.\<close>

definition ts_config :: "(string \<Rightarrow> plugin option option) \<Rightarrow> string \<Rightarrow> string option \<Rightarrow> ts_world \<Rightarrow> ts_fault + (int \<times> ts_world)" where
  "ts_config dl dir file w =
     (case file of None \<Rightarrow> Inr (- 1, w)
      | Some s \<Rightarrow> tbind (config_loop dl dir w s 0) (\<lambda>(rv, w').
          Inr (if ts_list_raw (w_dev w') = 0 then - 1 else rv, w')))"

subsection \<open>Reading\<close>

text \<open>
  \<^verbatim>\<open>info->ops->read\<close>, dispatched on the module; a filter calls the module at \<^verbatim>\<open>info->next\<close>. The depth of the calls is
  bounded by the first argument: in a cyclic chain they never return. \<open>cur0\<close> is the undefined local sample of
  \<^verbatim>\<open>variance_read\<close>.
\<close>

type_synonym chain_state = "(nat \<Rightarrow> tslib_module_info option) \<times> rd_answer list"

definition store_mod :: "nat \<Rightarrow> tsmod \<Rightarrow> (nat \<Rightarrow> tslib_module_info option) \<Rightarrow> (nat \<Rightarrow> tslib_module_info option)" where
  "store_mod p md h = h(p := map_option (\<lambda>m. m\<lparr>mi_mod := md\<rparr>) (h p))"

definition through :: "nat \<Rightarrow> ('m \<Rightarrow> tsmod) \<Rightarrow> ts_fault + (int \<times> ts_sample list \<times> ('m \<times> chain_state))
    \<Rightarrow> ts_fault + (int \<times> ts_sample list \<times> chain_state)" where
  "through p con res = tbind res (\<lambda>(r, buf, (q, (h, rs))). Inr (r, buf, (store_mod p (con q) h, rs)))"

primrec chain_read :: "nat \<Rightarrow> ts_caps \<Rightarrow> ts_sample \<Rightarrow> nat \<Rightarrow> chain_state reader" where
  "chain_read 0 caps cur0 p = (\<lambda>s samp nr. Inl Diverges)"
| "chain_read (Suc d) caps cur0 p = (\<lambda>(h, rs) samp nr.
     (case h p of None \<Rightarrow> Inl Null_deref
      | Some m \<Rightarrow> (let next_read = chain_read d caps cur0 (mi_next m) in
         (case mi_mod m of
            Input i \<Rightarrow> tbind (ts_input_read caps (i, rs) samp nr)
              (\<lambda>(r, buf, (i', rs')). Inr (r, buf, (store_mod p (Input i') h, rs')))
          | Pthres q \<Rightarrow> through p Pthres (pthres_read next_read (q, (h, rs)) samp nr)
          | Variance q \<Rightarrow> through p Variance (variance_read cur0 next_read (q, (h, rs)) samp nr)
          | Dejitter q \<Rightarrow> through p Dejitter (dejitter_read next_read (q, (h, rs)) samp nr)
          | Linear q \<Rightarrow> through p Linear (linear_read next_read (q, (h, rs)) samp nr)
          | Linear_h2200 \<Rightarrow> linear_h2200_read next_read (h, rs) samp nr))))"

definition ts_read :: "nat \<Rightarrow> ts_caps \<Rightarrow> ts_sample \<Rightarrow> ts_world \<Rightarrow> rd_answer list \<Rightarrow> ts_sample list \<Rightarrow> int
    \<Rightarrow> ts_fault + (int \<times> ts_sample list \<times> ts_world \<times> rd_answer list)" where
  "ts_read depth caps cur0 w rs samp nr =
     tbind (chain_read depth caps cur0 (ts_list (w_dev w)) (w_cells w, rs) samp nr)
       (\<lambda>(r, buf, (h, rs')). Inr (r, buf, w\<lparr>w_cells := h\<rparr>, rs'))"

definition ts_read_raw :: "nat \<Rightarrow> ts_caps \<Rightarrow> ts_sample \<Rightarrow> ts_world \<Rightarrow> rd_answer list \<Rightarrow> ts_sample list \<Rightarrow> int
    \<Rightarrow> ts_fault + (int \<times> ts_sample list \<times> ts_world \<times> rd_answer list)" where
  "ts_read_raw depth caps cur0 w rs samp nr =
     tbind (chain_read depth caps cur0 (ts_list_raw (w_dev w)) (w_cells w, rs) samp nr)
       (\<lambda>(r, buf, (h, rs')). Inr (r, buf, w\<lparr>w_cells := h\<rparr>, rs'))"

section \<open>Chains on the heap\<close>

type_synonym cells = "nat \<Rightarrow> tslib_module_info option"

primrec path :: "cells \<Rightarrow> nat \<Rightarrow> nat list \<Rightarrow> nat \<Rightarrow> bool" where
  "path h p [] q \<longleftrightarrow> p = q"
| "path h p (a # as) q \<longleftrightarrow> p = a \<and> a \<noteq> 0 \<and> (\<exists>m. h a = Some m \<and> path h (mi_next m) as q)"

abbreviation chain :: "cells \<Rightarrow> nat \<Rightarrow> nat list \<Rightarrow> bool" where
  "chain h p as \<equiv> path h p as 0"

lemma path_append: "path h p (as @ bs) q \<longleftrightarrow> (\<exists>r. path h p as r \<and> path h r bs q)"
  by (induction as arbitrary: p) auto

lemma path_frame: "(\<And>a. a \<in> set as \<Longrightarrow> h' a = h a) \<Longrightarrow> path h' p as q = path h p as q"
  by (induction as arbitrary: p) auto

lemma path_chain_rest: "path h p as r \<Longrightarrow> chain h p bs \<Longrightarrow> \<exists>cs. chain h r cs"
proof (induction as arbitrary: p bs)
  case (Cons a as)
  then show ?case by (cases bs) auto
qed auto

lemma cycle_no_chain:
  assumes "h r = Some m" "mi_next m = i" "h i = Some n" "mi_next n = r" "r \<noteq> 0" "i \<noteq> 0"
  shows "\<not> chain h r as"
proof (induction as rule: length_induct)
  case (1 as)
  show ?case
  proof
    assume c: "chain h r as"
    then obtain bs where "as = r # bs" "chain h i bs" using assms by (cases as) auto
    moreover from this obtain cs where "bs = i # cs" "chain h r cs" using assms by (cases bs) auto
    ultimately show False using 1 by auto
  qed
qed

text \<open>The walk of \<^verbatim>\<open>__ts_attach_raw\<close> always ends with \<^verbatim>\<open>prev\<close> on the stop element itself.\<close>

lemma attach_walk_stops:
  assumes "path h p as q" "q = 0 \<or> q = stop" "stop \<notin> set as"
  shows "attach_walk h stop p p = Some (Inr q)"
  using assms
proof (induction as arbitrary: p)
  case Nil
  then show ?case by (subst attach_walk.simps) auto
next
  case (Cons a as)
  then obtain m where "h a = Some m" "path h (mi_next m) as q" by auto
  with Cons show ?case by (subst attach_walk.simps) auto
qed

lemma ts_attach_chain:
  assumes "chain (w_cells w) (ts_list (w_dev w)) ps" "info \<notin> set ps" "w_cells w info = Some m" "info \<noteq> 0"
  obtains w' where "ts_attach info w = Inr (0, w')" "w_dev w' = (w_dev w)\<lparr>ts_list := info\<rparr>" "w_ts w' = w_ts w"
    "w_cells w' = (w_cells w)(info := Some (m\<lparr>mi_dev := w_ts w, mi_next := ts_list (w_dev w)\<rparr>))"
    "w_top w' = w_top w" "chain (w_cells w') info (info # ps)"
proof -
  let ?h = "(w_cells w)(info := Some (m\<lparr>mi_dev := w_ts w, mi_next := ts_list (w_dev w)\<rparr>))"
  have "chain ?h (ts_list (w_dev w)) ps" using assms(1,2) by (subst path_frame) auto
  with assms(3,4) show ?thesis
    by (intro that [of "w\<lparr>w_cells := ?h, w_dev := (w_dev w)\<lparr>ts_list := info\<rparr>\<rparr>"]) (simp_all add: ts_attach_def set_cell_def)
qed

lemma ts_attach_raw_first:
  assumes "chain (w_cells w) (ts_list (w_dev w)) ps" "info \<notin> set ps" "w_cells w info = Some m" "info \<noteq> 0"
    and "ts_list (w_dev w) = 0 \<and> ts_list_raw (w_dev w) = 0 \<or> ts_list (w_dev w) = ts_list_raw (w_dev w)"
  obtains w' where "ts_attach_raw info w = Inr (0, w')" "w_dev w' = (w_dev w)\<lparr>ts_list := info, ts_list_raw := info\<rparr>" "w_ts w' = w_ts w"
    "w_cells w' = (w_cells w)(info := Some (m\<lparr>mi_dev := w_ts w, mi_next := ts_list (w_dev w)\<rparr>))"
    "w_top w' = w_top w" "chain (w_cells w') info (info # ps)"
proof -
  let ?h = "(w_cells w)(info := Some (m\<lparr>mi_dev := w_ts w, mi_next := ts_list (w_dev w)\<rparr>))"
  have "chain ?h (ts_list (w_dev w)) ps" using assms(1,2) by (subst path_frame) auto
  with assms(3-5) show ?thesis
    by (intro that [of "w\<lparr>w_cells := ?h, w_dev := (w_dev w)\<lparr>ts_list := info, ts_list_raw := info\<rparr>\<rparr>"])
      (auto simp: ts_attach_raw_def set_cell_def)
qed

text \<open>
  C34. A raw module that is loaded after a filter destroys the chain, although the comment says that the last item of the
  list is made to point to it: without an earlier raw module the program dereferences \<^verbatim>\<open>NULL\<close>; with one, it
  succeeds and leaves a cycle, so that the list no longer ends.
\<close>

theorem attach_raw_after_filter:
  assumes "chain (w_cells w) (ts_list (w_dev w)) ps" "ps \<noteq> []" "info \<notin> set ps" "info \<noteq> 0" "w_cells w info = Some m" "w_cells w 0 = None"
  shows "(ts_list_raw (w_dev w) = 0 \<longrightarrow> ts_attach_raw info w = Inl Null_deref) \<and>
    (ts_list_raw (w_dev w) \<in> set (tl ps) \<and> distinct ps \<longrightarrow>
      (\<exists>w'. ts_attach_raw info w = Inr (0, w') \<and> (\<forall>qs. \<not> chain (w_cells w') (ts_list (w_dev w')) qs)))"
proof (intro conjI impI)
  let ?r = "ts_list_raw (w_dev w)" and ?l = "ts_list (w_dev w)"
  let ?h = "(w_cells w)(info := Some (m\<lparr>mi_dev := w_ts w, mi_next := ?r\<rparr>))"
  have h: "path ?h ?l xs q = path (w_cells w) ?l xs q" if "set xs \<subseteq> set ps" for xs q
    using that assms(3) by (intro path_frame) auto
  obtain a as where ps: "ps = a # as" "?l = a" "a \<noteq> 0" using assms(1,2) by (cases ps) auto
  {
    assume "?r = 0"
    moreover have "0 \<notin> set ps" using assms(6,1) by (metis in_set_conv_decomp path.simps(2) path_append)
    ultimately have "attach_walk ?h ?r ?l ?l = Some (Inr 0)"
      using assms(1) h by (intro attach_walk_stops [where as = ps]) auto
    with assms(4-6) ps \<open>?r = 0\<close> show "ts_attach_raw info w = Inl Null_deref"
      by (simp add: ts_attach_raw_def set_cell_def Let_def)
  }
  assume r: "?r \<in> set (tl ps) \<and> distinct ps"
  then obtain xs ys where x: "as = xs @ ?r # ys" using ps by (auto dest: split_list)
  then have xs: "path (w_cells w) ?l (a # xs) ?r" "?r \<noteq> 0" "\<exists>n. w_cells w ?r = Some n" "?r \<notin> set (a # xs)" "?r \<noteq> a"
    using assms(1) ps r by (auto simp: path_append)
  then obtain n where n: "w_cells w ?r = Some n" by blast
  have ri: "?r \<noteq> info" using assms(3) ps x by auto
  have "set (a # xs) \<subseteq> set ps" using ps x by auto
  then have hp: "path ?h ?l (a # xs) ?r" using xs(1) by (simp only: h)
  have walk: "attach_walk ?h ?r ?l ?l = Some (Inr ?r)" using hp _ xs(4) by (rule attach_walk_stops) simp
  let ?g = "?h(?r := Some (n\<lparr>mi_next := info\<rparr>))"
  have "path ?g ?l (a # xs) ?r"
    using hp xs(4) by (subst path_frame [where h = ?h]) auto
  moreover have "\<not> chain ?g ?r qs" for qs using ri assms(4) xs(2) by (intro cycle_no_chain [where i = info]) auto
  ultimately have "\<forall>qs. \<not> chain ?g ?l qs" using path_chain_rest by blast
  moreover have "ts_attach_raw info w = Inr (0, w\<lparr>w_cells := ?g, w_dev := (w_dev w)\<lparr>ts_list_raw := info\<rparr>\<rparr>)"
    using walk assms(4,5) ps xs n ri
    by (simp add: ts_attach_raw_def set_cell_def Let_def)
  ultimately show "\<exists>w'. ts_attach_raw info w = Inr (0, w') \<and> (\<forall>qs. \<not> chain (w_cells w') (ts_list (w_dev w')) qs)"
    by auto
qed

section \<open>Reading through a chain\<close>

fun is_input :: "tsmod \<Rightarrow> bool" where
  "is_input (Input i) = True"
| "is_input _ = False"

fun mod_ok :: "tsmod \<Rightarrow> bool" where
  "mod_ok (Dejitter d) = dejitter_wf d"
| "mod_ok (Linear l) = linear_ok l"
| "mod_ok _ = True"

text \<open>A list of filters in a good state that ends in a raw module; no module occurs twice.\<close>

fun good_chain :: "cells \<Rightarrow> nat \<Rightarrow> nat list \<Rightarrow> bool" where
  "good_chain h p [] = False"
| "good_chain h p [a] \<longleftrightarrow> p = a \<and> (\<exists>m. h a = Some m \<and> is_input (mi_mod m))"
| "good_chain h p (a # as) \<longleftrightarrow> p = a \<and> a \<notin> set as \<and>
     (\<exists>m. h a = Some m \<and> \<not> is_input (mi_mod m) \<and> mod_ok (mi_mod m) \<and> good_chain h (mi_next m) as)"

lemma good_chain_frame: "(\<And>a. a \<in> set as \<Longrightarrow> h' a = h a) \<Longrightarrow> good_chain h' p as = good_chain h p as"
  by (induction h p as rule: good_chain.induct) auto

text \<open>The invariant of a read: the chain stays good and everything outside it stays as in \<open>h0\<close>.\<close>

definition chain_inv :: "cells \<Rightarrow> nat \<Rightarrow> nat list \<Rightarrow> chain_state \<Rightarrow> bool" where
  "chain_inv h0 p ps s \<longleftrightarrow> good_chain (fst s) p ps \<and> whole_events (snd s) \<and> (\<forall>a. a \<notin> set ps \<longrightarrow> fst s a = h0 a)"

definition returns_within :: "(chain_state \<Rightarrow> bool) \<Rightarrow> ts_sample list \<Rightarrow> int \<Rightarrow> ts_fault + (int \<times> ts_sample list \<times> chain_state) \<Rightarrow> bool" where
  "returns_within I buf nr res \<longleftrightarrow> (\<exists>r buf' s'. res = Inr (r, buf', s') \<and> I s' \<and> r \<le> nr \<and> same_beyond nr buf buf')"

lemma chain_inv_store:
  assumes "h p = Some m" "mi_next m = n" "p \<notin> set ps" "ps \<noteq> []" "chain_inv h n ps (h', rs')" "mod_ok md" "\<not> is_input md"
    and "\<forall>a. a \<notin> set (p # ps) \<longrightarrow> h a = h0 a"
  shows "chain_inv h0 p (p # ps) (store_mod p md h', rs')"
proof -
  have "h' p = Some m" using assms(1,3,5) by (simp add: chain_inv_def)
  moreover have "good_chain (store_mod p md h') n ps"
    using assms(3,5) by (subst good_chain_frame [where h = h']) (auto simp: chain_inv_def store_mod_def)
  ultimately show ?thesis using assms by (cases ps) (auto simp: chain_inv_def store_mod_def)
qed

text \<open>One filter on top of a chain whose reads keep the contract.\<close>

lemma through_returns:
  assumes f: "reader f (\<lambda>(q, n). P q \<and> chain_inv h (mi_next m) ps n)"
    and p: "h p = Some m" "p \<notin> set ps" "ps \<noteq> []" "\<forall>a. a \<notin> set (p # ps) \<longrightarrow> h a = h0 a"
    and q: "P q" "\<And>q. P q \<Longrightarrow> mod_ok (con q)" "\<And>q. \<not> is_input (con q)"
    and s: "chain_inv h (mi_next m) ps (h, rs)" "0 \<le> nr" "nr \<le> int (length buf)"
  shows "returns_within (chain_inv h0 p (p # ps)) buf nr (through p con (f (q, (h, rs)) buf nr))"
proof -
  obtain r buf' q' h' rs' where o: "f (q, (h, rs)) buf nr = Inr (r, buf', (q', (h', rs')))" "P q'"
      "chain_inv h (mi_next m) ps (h', rs')" "r \<le> nr" "same_beyond nr buf buf'"
    using reader.read_cases [OF f, of "(q, (h, rs))" nr buf] q(1) s by (auto simp: split_beta) metis
  have "chain_inv h0 p (p # ps) (store_mod p (con q') h', rs')"
    using p q o by (intro chain_inv_store [where h = h and m = m]) auto
  with o show ?thesis by (simp add: through_def returns_within_def)
qed

lemma chain_read_reader: "length ps \<le> d \<Longrightarrow> reader (chain_read d caps cur0 p) (chain_inv h0 p ps)"
proof (induction ps arbitrary: d p h0)
  case Nil
  show ?case by unfold_locales (simp add: chain_inv_def)
next
  case (Cons a ps)
  then obtain k where d: "d = Suc k" "length ps \<le> k" by (cases d) auto
  show ?case
  proof unfold_locales
    fix s nr and buf :: "ts_sample list"
    assume s: "chain_inv h0 p (a # ps) s" and nr: "0 \<le> nr" "nr \<le> int (length buf)"
    obtain h rs where hrs: "s = (h, rs)" by force
    have a: "p = a" and w: "whole_events rs" and fr: "\<forall>b. b \<notin> set (a # ps) \<longrightarrow> h b = h0 b"
      using s by (cases ps; auto simp: chain_inv_def hrs)+
    obtain m where m: "h a = Some m" using s by (cases ps) (auto simp: chain_inv_def hrs)
    have "returns_within (chain_inv h0 a (a # ps)) buf nr (chain_read d caps cur0 a (h, rs) buf nr)"
    proof (cases "ps = []")
      case True
      then obtain i where i: "mi_mod m = Input i" using s m by (cases "mi_mod m") (auto simp: chain_inv_def hrs)
      obtain r buf' i' rs' where o: "ts_input_read caps (i, rs) buf nr = Inr (r, buf', (i', rs'))" "whole_events rs'"
          "r \<le> nr" "same_beyond nr buf buf'"
        using reader.read_cases [OF ts_input_reader [of caps], of "(i, rs)" nr buf] w nr by (auto simp: split_beta) metis
      show ?thesis using True i m o fr
        by (simp add: d returns_within_def chain_inv_def store_mod_def)
    next
      case False
      then have g: "a \<notin> set ps" "\<not> is_input (mi_mod m)" "mod_ok (mi_mod m)" "good_chain h (mi_next m) ps"
        using s m by (cases ps; auto simp: chain_inv_def hrs)+
      have ci: "chain_inv h (mi_next m) ps (h, rs)" using g w by (simp add: chain_inv_def)
      note rd = Cons.IH [OF d(2), of "mi_next m" h]
      let ?n = "chain_read k caps cur0 (mi_next m)" and ?I = "chain_inv h (mi_next m) ps"
      note top = through_returns [OF _ m g(1) False fr _ _ _ ci nr]
      show ?thesis
      proof (cases "mi_mod m")
        case (Input i)
        with g show ?thesis by simp
      next
        case (Pthres q)
        have "reader (pthres_read ?n) (\<lambda>(q, n). True \<and> ?I n)" using pthres_reader [OF rd] by simp
        from top [OF this, where q = q and con = Pthres] m Pthres show ?thesis by (simp add: d)
      next
        case (Variance q)
        have "reader (variance_read cur0 ?n) (\<lambda>(q, n). True \<and> ?I n)" using variance_reader [OF rd] by simp
        from top [OF this, where q = q and con = Variance] m Variance show ?thesis by (simp add: d)
      next
        case (Dejitter q)
        from top [OF dejitter_reader [OF rd], where q = q and con = Dejitter] m Dejitter g(3) show ?thesis by (simp add: d)
      next
        case (Linear q)
        from top [OF linear_reader [OF rd], where q = q and con = Linear] m Linear g(3) show ?thesis by (simp add: d)
      next
        case Linear_h2200
        obtain r buf' h' rs' where o: "linear_h2200_read ?n (h, rs) buf nr = Inr (r, buf', (h', rs'))"
            "?I (h', rs')" "r \<le> nr" "same_beyond nr buf buf'"
          using reader.read_cases [OF linear_h2200_reader [OF rd] ci nr] by (metis surj_pair)
        have "h' a = Some m" using o(2) g(1) m by (simp add: chain_inv_def)
        then have "store_mod a Linear_h2200 h' = h'" using Linear_h2200 by (auto simp: store_mod_def fun_eq_iff)
        moreover have "chain_inv h0 a (a # ps) (store_mod a Linear_h2200 h', rs')"
          using g(1) False o(2) fr m by (intro chain_inv_store [where h = h and m = m]) auto
        ultimately show ?thesis using m Linear_h2200 o by (simp add: d returns_within_def)
      qed
    qed
    then show "\<exists>r buf' s'. chain_read d caps cur0 p s buf nr = Inr (r, buf', s') \<and> chain_inv h0 p (a # ps) s' \<and> r \<le> nr \<and> same_beyond nr buf buf'"
      by (simp add: returns_within_def a hrs)
  qed
qed

lemma ts_read_returns:
  assumes "good_chain (w_cells w) (ts_list (w_dev w)) ps" "whole_events rs" "length ps \<le> depth" "0 \<le> nr" "nr \<le> int (length samp)"
  shows "\<exists>r samp' w' rs'. ts_read depth caps cur0 w rs samp nr = Inr (r, samp', w', rs') \<and> r \<le> nr \<and> same_beyond nr samp samp' \<and>
    good_chain (w_cells w') (ts_list (w_dev w')) ps \<and> whole_events rs' \<and> w_dev w' = w_dev w"
proof -
  have "chain_inv (w_cells w) (ts_list (w_dev w)) ps (w_cells w, rs)" using assms by (simp add: chain_inv_def)
  from reader.read_cases [OF chain_read_reader [OF assms(3), of caps cur0 "ts_list (w_dev w)" "w_cells w"] this assms(4,5)]
  obtain r samp' s' where "chain_read depth caps cur0 (ts_list (w_dev w)) (w_cells w, rs) samp nr = Inr (r, samp', s')"
    "chain_inv (w_cells w) (ts_list (w_dev w)) ps s'" "r \<le> nr" "same_beyond nr samp samp'" by metis
  then show ?thesis by (cases s') (simp add: ts_read_def chain_inv_def)
qed

text \<open>
  C2. Reading never faults: on every good chain, of any length and with any mix of filters, and for every sequence of
  whole events from the descriptor, \<^verbatim>\<open>ts_read\<close> returns after finitely many steps, reports at most \<open>nr\<close> samples,
  writes only the first \<open>nr\<close> places of the array, and leaves a good chain.
\<close>

theorem ts_read_safe:
  assumes "good_chain (w_cells w) (ts_list (w_dev w)) ps" "whole_events rs" "length ps \<le> depth" "0 \<le> nr" "nr \<le> int (length samp)"
  shows "\<exists>r samp' w' rs'. ts_read depth caps cur0 w rs samp nr = Inr (r, samp', w', rs') \<and> r \<le> nr \<and> same_beyond nr samp samp' \<and>
    good_chain (w_cells w') (ts_list (w_dev w')) ps \<and> whole_events rs' \<and> w_dev w' = w_dev w"
  using assms by (rule ts_read_returns)

section \<open>Configuration files\<close>

text \<open>A line of the configuration: raw or filter, the name of the module and its parameters.\<close>

type_synonym conf_entry = "bool \<times> string \<times> string option"

definition entry_line :: "conf_entry \<Rightarrow> string" where
  "entry_line e = (case e of (raw, name, params) \<Rightarrow>
     (if raw then ''module_raw '' else ''module '') @ name @ (case params of None \<Rightarrow> [] | Some ps \<Rightarrow> '' '' @ ps))"

definition entry_ok :: "conf_entry \<Rightarrow> bool" where
  "entry_ok e \<longleftrightarrow> is_token (fst (snd e)) \<and> CHR 0x0A \<notin> set (entry_line e) \<and> length (entry_line e) \<le> 510"

definition render :: "conf_entry list \<Rightarrow> string" where
  "render es = concat (map (\<lambda>e. entry_line e @ [CHR 0x0A]) es)"

fun load_all :: "(string \<Rightarrow> plugin option option) \<Rightarrow> string \<Rightarrow> ts_world \<Rightarrow> conf_entry list \<Rightarrow> ts_fault + (int \<times> ts_world)" where
  "load_all dl dir w [] = Inr (0, w)"
| "load_all dl dir w ((raw, name, params) # es) = tbind (load_module dl dir w name params raw) (\<lambda>(r, w').
     if r = 0 then load_all dl dir w' es else Inr (r, w'))"

lemma fgets_entry:
  assumes "CHR 0x0A \<notin> set l" "length l \<le> 510"
  shows "fgets_line (l @ CHR 0x0A # s) = l" "fgets_rest (l @ CHR 0x0A # s) = s"
proof -
  have "take 511 (l @ CHR 0x0A # s) = l @ CHR 0x0A # take (510 - length l) s" using assms(2) by (simp add: take_Cons')
  moreover have "\<And>c. c \<in> set l \<Longrightarrow> c \<noteq> CHR 0x0A" using assms(1) by blast
  ultimately show l: "fgets_line (l @ CHR 0x0A # s) = l" by (simp add: fgets_line_def takeWhile_append2)
  show "fgets_rest (l @ CHR 0x0A # s) = s" using assms(2) by (simp add: fgets_rest_def l)
qed

lemma strsep_params: "is_token name \<Longrightarrow> strsep (name @ (case params of None \<Rightarrow> [] | Some ps \<Rightarrow> '' '' @ ps)) = (name, params)"
  by (cases params) (simp_all add: strsep_token strsep_join)

lemma config_line_entry:
  assumes "entry_ok (raw, name, params)"
  shows "config_line dl dir w (entry_line (raw, name, params)) rv =
    tbind (load_module dl dir w name params raw) (\<lambda>(r, w'). Inr (r, r = 0, w'))"
proof -
  let ?kw = "if raw then ''module_raw'' else ''module''"
  let ?rest = "name @ (case params of None \<Rightarrow> [] | Some ps \<Rightarrow> '' '' @ ps)"
  have "entry_line (raw, name, params) = ?kw @ CHR '' '' # ?rest" by (simp add: entry_line_def)
  moreover have "strsep (?kw @ CHR '' '' # ?rest) = (?kw, Some ?rest)" by (rule strsep_join) (simp add: blank_def is_token_def)
  ultimately show ?thesis using assms strsep_params [of name params]
    by (cases raw) (simp_all add: config_line_def entry_ok_def strcaseeq_def tolower_def ts_load_module_def ts_load_module_raw_def)
qed

lemma config_loop_entries:
  assumes "\<forall>e \<in> set es. entry_ok e"
  shows "config_loop dl dir w (render es @ s) 0 = tbind (load_all dl dir w es) (\<lambda>(r, w').
    if r = 0 then config_loop dl dir w' s 0 else Inr (r, w'))"
  using assms
proof (induction es arbitrary: w)
  case (Cons e es)
  obtain raw name params where e: "e = (raw, name, params)" by (cases e) auto
  have r: "render (e # es) @ s = entry_line e @ CHR 0x0A # render es @ s" by (simp add: render_def)
  have ok: "entry_ok (raw, name, params)" using Cons.prems e by simp
  have "CHR 0x0A \<notin> set (entry_line e)" "length (entry_line e) \<le> 510" using Cons.prems by (auto simp: entry_ok_def)
  then have f: "fgets_line (render (e # es) @ s) = entry_line e" "fgets_rest (render (e # es) @ s) = render es @ s"
    unfolding r by (simp_all add: fgets_entry)
  have "render (e # es) \<noteq> []" by (simp add: render_def)
  then have "config_loop dl dir w (render (e # es) @ s) 0 = tbind (config_line dl dir w (entry_line e) 0) (\<lambda>(r, more, w').
      if more then config_loop dl dir w' (render es @ s) r else Inr (r, w'))"
    using config_loop.simps [of dl dir w "render (e # es) @ s" 0] unfolding f by simp
  also have "\<dots> = tbind (load_all dl dir w (e # es)) (\<lambda>(r, w'). if r = 0 then config_loop dl dir w' s 0 else Inr (r, w'))"
    using Cons by (cases "load_module dl dir w name params raw") (auto simp: e config_line_entry [OF ok])
  finally show ?case .
qed (simp add: render_def)

lemma config_loop_render:
  assumes "\<forall>e \<in> set es. entry_ok e"
  shows "config_loop dl dir w (render es) 0 = load_all dl dir w es"
  using config_loop_entries [OF assms, of dl dir w "[]"]
  by (cases "load_all dl dir w es") (auto simp: config_loop.simps [of _ _ _ "[]"])

text \<open>
  C10. A configuration that is written down, one line per module, is read back: \<^verbatim>\<open>ts_config\<close> on the text loads exactly
  the modules of the list, in order, with their parameters, raw or as filters, until one fails; its result is
  that of the last load, or -1 if no raw module was loaded.
\<close>

theorem ts_config_roundtrip:
  assumes "\<forall>e \<in> set es. entry_ok e"
  shows "ts_config dl dir (Some (render es)) w = tbind (load_all dl dir w es) (\<lambda>(rv, w').
    Inr (if ts_list_raw (w_dev w') = 0 then - 1 else rv, w'))"
  by (simp add: ts_config_def config_loop_render [OF assms])

text \<open>What the plugin directory has to offer for a list of entries.\<close>

definition provides :: "(string \<Rightarrow> plugin option option) \<Rightarrow> string \<Rightarrow> conf_entry \<Rightarrow> bool" where
  "provides dl dir e \<longleftrightarrow> (case e of (raw, name, params) \<Rightarrow>
     length (dir @ ''/'' @ name @ ''.so'') < 1024 \<and>
     (\<exists>init md. dl (dir @ ''/'' @ name @ ''.so'') = Some (Some init) \<and> init params = Inr (Some md) \<and>
        is_input md = raw \<and> mod_ok md))"

definition loaded :: "ts_world \<Rightarrow> nat list \<Rightarrow> bool" where
  "loaded w ps \<longleftrightarrow> good_chain (w_cells w) (ts_list (w_dev w)) ps \<and> chain (w_cells w) (ts_list (w_dev w)) ps \<and>
     (\<forall>a \<in> set ps. a < w_top w) \<and> ts_list_raw (w_dev w) = last ps"

lemma load_filter:
  assumes "provides dl dir (False, name, params)" "loaded w ps"
  obtains w' where "load_module dl dir w name params False = Inr (0, w')" "loaded w' (w_top w # ps)" "ts_fd w' = ts_fd w"
proof -
  obtain init md where i: "dl (dir @ ''/'' @ name @ ''.so'') = Some (Some init)" "init params = Inr (Some md)" "\<not> is_input md" "mod_ok md"
    "length (dir @ ''/'' @ name @ ''.so'') < 1024"
    using assms(1) by (auto simp: provides_def)
  let ?a = "w_top w" let ?m = "\<lparr>mi_dev = 0, mi_next = 0, mi_handle = length (w_handles w) + 1, mi_mod = md\<rparr>"
  let ?w1 = "w\<lparr>w_cells := (w_cells w)(?a := Some ?m), w_top := ?a + 1, w_handles := (length (w_handles w) + 1) # w_handles w\<rparr>"
  have ps: "ps \<noteq> []" "?a \<notin> set ps" using assms(2) by (auto simp: loaded_def)
  have a: "?a \<noteq> 0" using assms(2) ps by (cases ps) (auto simp: loaded_def)
  have "chain (w_cells ?w1) (ts_list (w_dev ?w1)) ps" using assms(2) ps by (subst path_frame [where h = "w_cells w"]) (auto simp: loaded_def)
  then obtain w' where w': "ts_attach ?a ?w1 = Inr (0, w')" "w_dev w' = (w_dev w)\<lparr>ts_list := ?a\<rparr>"
    "w_cells w' = (w_cells ?w1)(?a := Some (?m\<lparr>mi_dev := w_ts w, mi_next := ts_list (w_dev w)\<rparr>))" "w_top w' = Suc ?a"
    "chain (w_cells w') ?a (?a # ps)"
    using ts_attach_chain [of ?w1 ps ?a ?m] ps a by auto
  have "good_chain (w_cells w') (ts_list (w_dev w)) ps"
    using assms(2) ps by (subst good_chain_frame [where h = "w_cells w"]) (auto simp: loaded_def w'(3))
  then have "good_chain (w_cells w') ?a (?a # ps)" using ps i(3,4) by (cases ps) (auto simp: w'(3))
  with w' assms(2) ps have "loaded w' (?a # ps)" by (auto simp: loaded_def)
  moreover have "load_module dl dir w name params False = Inr (0, w')" using i w'(1) by (simp add: load_module_def Let_def)
  moreover have "ts_fd w' = ts_fd w" by (simp add: ts_fd_def w'(2))
  ultimately show ?thesis using that by blast
qed

lemma load_filters:
  assumes "\<forall>e \<in> set es. \<not> fst e \<and> provides dl dir e" "loaded w ps"
  shows "\<exists>w' qs. load_all dl dir w es = Inr (0, w') \<and> loaded w' qs \<and> length qs = length es + length ps \<and> ts_fd w' = ts_fd w"
  using assms
proof (induction es arbitrary: w ps)
  case (Cons e es)
  then obtain name params where e: "e = (False, name, params)" by (cases e) auto
  have "provides dl dir (False, name, params)" using Cons.prems e by auto
  then obtain w1 where w1: "load_module dl dir w name params False = Inr (0, w1)" "loaded w1 (w_top w # ps)" "ts_fd w1 = ts_fd w"
    using load_filter Cons.prems(2) by metis
  from Cons.IH [of w1 "w_top w # ps"] w1 Cons.prems show ?case by (auto simp: e)
qed auto

lemma load_first_raw:
  assumes "provides dl dir (True, name, params)" "ts_open mem fd = Some w"
  obtains w' where "load_module dl dir w name params True = Inr (0, w')" "loaded w' [1]" "ts_fd w' = fd"
proof -
  obtain init md where i: "dl (dir @ ''/'' @ name @ ''.so'') = Some (Some init)" "init params = Inr (Some md)" "is_input md"
    "length (dir @ ''/'' @ name @ ''.so'') < 1024"
    using assms(1) by (auto simp: provides_def)
  have w: "w = \<lparr>w_ts = mem, w_dev = \<lparr>ts_fd_no = fd, ts_list = 0, ts_list_raw = 0\<rparr>, w_cells = (\<lambda>_. None), w_top = 1, w_handles = []\<rparr>"
    using assms(2) by (auto simp: ts_open_def split: if_splits)
  show ?thesis
    by (rule that [of "\<lparr>w_ts = mem, w_dev = \<lparr>ts_fd_no = fd, ts_list = 1, ts_list_raw = 1\<rparr>,
        w_cells = [1 \<mapsto> \<lparr>mi_dev = mem, mi_next = 0, mi_handle = 1, mi_mod = md\<rparr>], w_top = 2, w_handles = [1]\<rparr>"])
      (use i in \<open>simp_all add: w load_module_def Let_def ts_attach_raw_def set_cell_def loaded_def ts_fd_def\<close>)
qed


text \<open>
  A wrong line is not an error for the caller: when every module before it was loaded, \<^verbatim>\<open>ts_config\<close> stops at a line with
  an unknown option, ignores the rest of the file and still returns 0.
\<close>

theorem ts_config_bad_line:
  assumes "\<forall>e \<in> set es. entry_ok e" "load_all dl dir w es = Inr (0, w')" "ts_list_raw (w_dev w') \<noteq> 0"
    and "CHR 0x0A \<notin> set l" "length l \<le> 510" "strsep l = (tok, Some q)" "tok = [] \<or> hd tok \<noteq> CHR ''#''"
    and "\<not> strcaseeq tok ''module''" "\<not> strcaseeq tok ''module_raw''"
  shows "ts_config dl dir (Some (render es @ l @ CHR 0x0A # s)) w = Inr (0, w')"
proof -
  let ?s = "l @ CHR 0x0A # s"
  have "?s \<noteq> []" by simp
  moreover have "config_line dl dir w' (fgets_line ?s) 0 = Inr (0, False, w')"
    using assms(4-9) by (simp add: fgets_entry config_line_def)
  ultimately have "config_loop dl dir w' ?s 0 = Inr (0, w')"
    using config_loop.simps [of dl dir w' ?s 0] by simp
  with config_loop_entries [OF assms(1), of dl dir w ?s] assms(2,3) show ?thesis by (simp add: ts_config_def)
qed

text \<open>
  \<^verbatim>\<open>ts_close\<close> frees the device structure only, although \<^verbatim>\<open>tslib.h\<close> says that it frees all resources: every module cell and
  every handle of \<^verbatim>\<open>dlopen\<close> that was there before is still there afterwards, out of reach of the caller.
\<close>

theorem ts_close_leaks:
  "w_cells (snd (ts_close rc w)) = w_cells w \<and> w_handles (snd (ts_close rc w)) = w_handles w \<and>
   ts_list (w_dev (snd (ts_close rc w))) = 0 \<and> fst (ts_close rc w) = rc"
  by (simp add: ts_close_def)

subsection \<open>Examples\<close>

text \<open>The plugin directory of an installation, and the start of \<^verbatim>\<open>etc/ts.conf\<close> with the input module.\<close>

definition demo_dl :: "string \<Rightarrow> plugin option option" where
  "demo_dl fn =
     (if fn = ''/p/input.so'' then Some (Some (\<lambda>_. Inr (map_option Input (input_mod_init True))))
      else if fn = ''/p/pthres.so'' then Some (Some (\<lambda>ps. tbind (pthres_mod_init 0 True ps) (\<lambda>q. Inr (map_option Pthres q))))
      else if fn = ''/p/dejitter.so'' then Some (Some (\<lambda>ps. tbind (dejitter_mod_init 0 True ps) (\<lambda>q. Inr (map_option Dejitter q))))
      else if fn = ''/p/linear.so'' then Some (Some (\<lambda>ps. tbind (linear_mod_init True None [] ps) (\<lambda>q. Inr (map_option Linear q))))
      else None)"

definition demo_conf :: "conf_entry list" where
  "demo_conf = [(False, ''dejitter'', None), (False, ''linear'', None)]"

lemma demo_provides:
  "provides demo_dl ''/p'' (True, ''input'', None)" "\<forall>e \<in> set demo_conf. \<not> fst e \<and> provides demo_dl ''/p'' e"
  "\<forall>e \<in> set ((True, ''input'', None) # demo_conf). entry_ok e"
  by (simp_all add: provides_def demo_dl_def demo_conf_def input_mod_init_def dejitter_init_fresh dejitter_fresh_wf
      linear_mod_init_def tslib_parse_vars_def linear_ok_def entry_ok_def entry_line_def blank_def is_token_def)

lemma demo_open: "ts_open 100 3 = Some \<lparr>w_ts = 100, w_dev = \<lparr>ts_fd_no = 3, ts_list = 0, ts_list_raw = 0\<rparr>, w_cells = (\<lambda>_. None), w_top = 1, w_handles = []\<rparr>"
  by (simp add: ts_open_def)


definition demo_world :: ts_world where
  "demo_world = \<lparr>w_ts = 100, w_dev = \<lparr>ts_fd_no = 3, ts_list = 0, ts_list_raw = 0\<rparr>, w_cells = (\<lambda>_. None), w_top = 1, w_handles = []\<rparr>"

definition demo_input :: tslib_module_info where
  "demo_input = \<lparr>mi_dev = 100, mi_next = 0, mi_handle = 1,
     mi_mod = Input \<lparr>current_x = 0, current_y = 0, current_p = 0, sane_fd = 0, using_syn = 0\<rparr>\<rparr>"

definition demo_raw_world :: ts_world where
  "demo_raw_world = demo_world\<lparr>w_dev := \<lparr>ts_fd_no = 3, ts_list = 1, ts_list_raw = 1\<rparr>, w_cells := [1 \<mapsto> demo_input],
     w_top := 2, w_handles := [1]\<rparr>"

lemma demo_load: "load_all demo_dl ''/p'' demo_world [(True, ''input'', None)] = Inr (0, demo_raw_world)"
  by (simp add: load_module_def demo_dl_def demo_world_def demo_raw_world_def demo_input_def input_mod_init_def Let_def
      ts_attach_raw_def set_cell_def)

theorem ts_config_roundtrip_witness:
  "ts_config demo_dl ''/p'' (Some (''module_raw input'' @ [CHR 0x0A])) demo_world = Inr (0, demo_raw_world)"
  using ts_config_roundtrip [of "[(True, ''input'', None)]" demo_dl "''/p''" demo_world] demo_provides(3)
  by (simp add: demo_load render_def entry_line_def demo_raw_world_def del: load_all.simps)

theorem ts_config_bad_line_witness:
  "ts_config demo_dl ''/p'' (Some (render [(True, ''input'', None)] @ ''modul linear'' @ CHR 0x0A # [])) demo_world = Inr (0, demo_raw_world)"
  by (rule ts_config_bad_line [OF _ demo_load, of "''modul linear''" "''modul''" "''linear''"])
    (use demo_provides(3) in \<open>simp_all add: demo_raw_world_def strsep_def blank_def strcaseeq_def tolower_def\<close>)

theorem ts_read_safe_witness:
  "\<exists>r samp' w' rs'. ts_read 1 demo_caps demo_sample demo_raw_world (events_of demo_sample) [demo_sample] 1 = Inr (r, samp', w', rs') \<and> r \<le> 1"
proof -
  have "good_chain (w_cells demo_raw_world) (ts_list (w_dev demo_raw_world)) [1]"
    by (simp add: demo_raw_world_def demo_input_def)
  from ts_read_safe [OF this, of "events_of demo_sample" 1 1 "[demo_sample]" demo_caps demo_sample] show ?thesis
    by (simp add: whole_events_def events_of_def mk_event_def) blast
qed

theorem attach_raw_after_filter_witness:
  "ts_attach_raw 2 (demo_world\<lparr>w_dev := \<lparr>ts_fd_no = 3, ts_list = 1, ts_list_raw = 0\<rparr>,
     w_cells := [1 \<mapsto> demo_input\<lparr>mi_mod := Linear_h2200\<rparr>, 2 \<mapsto> demo_input]\<rparr>) = Inl Null_deref"
  using attach_raw_after_filter [of "demo_world\<lparr>w_dev := \<lparr>ts_fd_no = 3, ts_list = 1, ts_list_raw = 0\<rparr>,
      w_cells := [1 \<mapsto> demo_input\<lparr>mi_mod := Linear_h2200\<rparr>, 2 \<mapsto> demo_input]\<rparr>" "[1]" 2 demo_input]
  by (simp add: demo_input_def)

end
