(* ===== verification/TsTypes.thy ===== *)
theory TsTypes
  imports TsChain
begin

section \<open>Samples keep their type\<close>

text \<open>
  The coordinates of \<^verbatim>\<open>struct ts_sample\<close> are of type \<^verbatim>\<open>int\<close>, in the model they are integers. This theory
  shows that the model respects the type: when the samples in the array, in the modules and in the
  events of the device fit into 32 bits, so do those after a read through any chain of modules, well
  formed or not. \<open>returns P\<close> says that a computation, unless it faults, ends in \<open>P\<close>; the locale
  \<open>typed_reader\<close> is the contract of a module whose reads keep the type.
\<close>

definition returns :: "('a \<Rightarrow> bool) \<Rightarrow> 'e + 'a \<Rightarrow> bool" where
  "returns P res \<longleftrightarrow> (case res of Inl _ \<Rightarrow> True | Inr v \<Rightarrow> P v)"

lemma returns_simps [simp]: "returns P (Inl e)" "returns P (Inr v) = P v"
  by (simp_all add: returns_def)

lemma returns_tbind: "returns Q m \<Longrightarrow> (\<And>a. Q a \<Longrightarrow> returns P (f a)) \<Longrightarrow> returns P (tbind m f)"
  by (cases m) simp_all

lemma returns_mono: "returns Q m \<Longrightarrow> (\<And>a. Q a \<Longrightarrow> P a) \<Longrightarrow> returns P m"
  by (cases m) simp_all

lemma list_all_update: "list_all P xs \<Longrightarrow> P v \<Longrightarrow> list_all P (xs[i := v])"
  by (auto simp: list_all_iff dest: set_update_subset_insert [THEN subsetD])

lemma returns_samp:
  "list_all P buf \<Longrightarrow> returns P (samp_get buf i)"
  "list_all P buf \<Longrightarrow> P v \<Longrightarrow> returns (list_all P) (samp_put buf i v)"
  "list_all P buf \<Longrightarrow> returns (list_all P) (samp_move buf d s n)"
  by (auto simp: samp_get_def samp_put_def samp_move_def list_all_update)
    (auto simp: list_all_iff dest: in_set_takeD in_set_dropD)

lemma c_sample_tv [simp]: "c_sample (c\<lparr>tv := t\<rparr>) = c_sample c"
  by (simp add: c_sample_def)

abbreviation typed_samples :: "ts_sample list \<Rightarrow> bool" where
  "typed_samples \<equiv> list_all c_sample"

locale typed_reader =
  fixes rd :: "'s reader" and I :: "'s \<Rightarrow> bool"
  assumes typed: "I s \<Longrightarrow> typed_samples buf \<Longrightarrow>
    returns (\<lambda>(r, buf', s'). typed_samples buf' \<and> I s') (rd s buf nr)"
begin

text \<open>What a filter does with the samples of the module below.\<close>

lemma typed_bind:
  assumes "I s" "typed_samples buf" "\<And>r buf' s'. typed_samples buf' \<Longrightarrow> I s' \<Longrightarrow> returns P (f (r, buf', s'))"
  shows "returns P (tbind (rd s buf nr) f)"
  using typed [OF assms(1,2)] by (rule returns_tbind) (use assms(3) in auto)

end

subsection \<open>The filters\<close>

definition typed_pthres :: "tslib_pthres \<Rightarrow> bool" where
  "typed_pthres p \<longleftrightarrow> in_s32 (xsave p) \<and> in_s32 (ysave p)"

lemma pthres_loop_typed:
  "typed_pthres p \<Longrightarrow> typed_samples samp \<Longrightarrow>
   returns (\<lambda>(k, samp', p'). typed_samples samp' \<and> typed_pthres p') (pthres_loop p samp rv i s nr)"
proof (induction "rv - i" arbitrary: p samp i s nr)
  case 0
  then show ?case by (subst pthres_loop.simps) simp
next
  case (Suc d)
  then have i: "i < rv" and next_i: "\<And>p samp s nr. typed_pthres p \<Longrightarrow> typed_samples samp \<Longrightarrow>
      returns (\<lambda>(k, samp', p'). typed_samples samp' \<and> typed_pthres p') (pthres_loop p samp rv (Suc i) s nr)"
    by (auto intro!: Suc.hyps(1))
  show ?case
    using i Suc.prems
    by (subst pthres_loop.simps)
      (auto intro!: returns_tbind [OF returns_samp(1) [where P = c_sample]]
        returns_tbind [OF returns_samp(2) [where P = c_sample]] returns_tbind [OF returns_samp(3) [where P = c_sample]]
        next_i [unfolded typed_pthres_def] simp: typed_pthres_def c_sample_def)
qed

lemma pthres_typed:
  assumes "typed_reader next_read I"
  shows "typed_reader (pthres_read next_read) (\<lambda>(p, n). typed_pthres p \<and> I n)"
proof (unfold_locales, clarify)
  fix p n buf nr assume a: "typed_pthres p" "I n" "typed_samples buf"
  show "returns (\<lambda>(r, buf', s'). typed_samples buf' \<and> (case s' of (p, n) \<Rightarrow> typed_pthres p \<and> I n))
      (pthres_read next_read (p, n) buf nr)"
    unfolding pthres_read_def split_conv
    by (rule typed_reader.typed_bind [OF assms a(2,3)])
      (auto intro: returns_tbind [OF pthres_loop_typed] simp: a(1))
qed

definition typed_variance :: "tslib_variance \<Rightarrow> bool" where
  "typed_variance v \<longleftrightarrow> c_sample (v_last v) \<and> c_sample (v_noise v)"

lemma variance_step_typed:
  assumes "typed_variance v" "c_sample c" "variance_step v c = (v', out)"
  shows "typed_variance v' \<and> (case out of None \<Rightarrow> True | Some o1 \<Rightarrow> c_sample o1)"
  using assms by (auto simp: variance_step_def variance_accept_def typed_variance_def Let_def split: if_splits)

lemma variance_loop_typed:
  assumes "typed_reader next_read I"
  shows "typed_variance v \<Longrightarrow> I n \<Longrightarrow> c_sample cur \<Longrightarrow> typed_samples samp \<Longrightarrow>
    returns (\<lambda>(r, samp', (v', n')). typed_samples samp' \<and> typed_variance v' \<and> I n')
      (variance_loop next_read fuel v n cur samp nr count)"
proof (induction fuel arbitrary: v n cur samp count)
  case (Suc fuel)
  let ?get = "if v_flags v AND VAR_SUBMITNOISE \<noteq> 0
      then Inr (1, [v_noise v], (v\<lparr>v_flags := v_flags v AND NOT VAR_SUBMITNOISE\<rparr>, n))
      else tbind (next_read n [cur] 1) (\<lambda>(r, buf, n'). Inr (r, buf, (v, n')))"
  have get: "returns (\<lambda>(r, buf, (v1, n')). typed_samples buf \<and> typed_variance v1 \<and> I n') ?get"
    using Suc.prems by (auto simp: typed_variance_def intro!: typed_reader.typed_bind [OF assms])
  have rest: "returns (\<lambda>(r, samp', (v', n')). typed_samples samp' \<and> typed_variance v' \<and> I n')
      (tbind (samp_get buf 0) (\<lambda>c. if r < 1 then Inr (int count, samp, (v1, n'))
         else (case variance_step v1 c of
             (v2, None) \<Rightarrow> variance_loop next_read fuel v2 n' c samp nr count
           | (v2, Some out) \<Rightarrow> tbind (samp_put samp count out)
               (\<lambda>samp'. variance_loop next_read fuel v2 n' c samp' nr (count + 1)))))"
    if "typed_samples buf" "typed_variance v1" "I n'" for r :: int and buf v1 n'
  proof (rule returns_tbind [OF returns_samp(1) [OF that(1)]])
    fix c assume c: "c_sample c"
    obtain v2 out where st: "variance_step v1 c = (v2, out)" by fastforce
    note ty = variance_step_typed [OF that(2) c st]
    show "returns (\<lambda>(r, samp', (v', n')). typed_samples samp' \<and> typed_variance v' \<and> I n')
        (if r < 1 then Inr (int count, samp, (v1, n'))
         else (case variance_step v1 c of
             (v2, None) \<Rightarrow> variance_loop next_read fuel v2 n' c samp nr count
           | (v2, Some out) \<Rightarrow> tbind (samp_put samp count out)
               (\<lambda>samp'. variance_loop next_read fuel v2 n' c samp' nr (count + 1))))"
    proof (cases out)
      case None
      with Suc.IH [of v2 n' c samp count] st ty that c Suc.prems(4) show ?thesis by simp
    next
      case (Some o1)
      have "returns (\<lambda>(r, samp', (v', n')). typed_samples samp' \<and> typed_variance v' \<and> I n')
          (tbind (samp_put samp count o1) (\<lambda>samp'. variance_loop next_read fuel v2 n' c samp' nr (count + 1)))"
        using ty Some that c Suc.prems(4)
        by (intro returns_tbind [OF returns_samp(2) [where P = c_sample]] Suc.IH) simp_all
      with st Some that Suc.prems(4) show ?thesis by simp
    qed
  qed
  show ?case
  proof (cases "int count < nr")
    case True
    then show ?thesis unfolding variance_loop.simps
      by (simp only: if_True, intro returns_tbind [OF get]) (simp only: split_paired_all split_conv rest)
  qed (use Suc.prems in simp)
qed simp

lemma variance_typed:
  assumes "typed_reader next_read I" "c_sample cur0"
  shows "typed_reader (variance_read cur0 next_read) (\<lambda>(v, n). typed_variance v \<and> I n)"
  by unfold_locales
    (auto simp: variance_read_def assms(2) intro!: returns_mono [OF variance_loop_typed [OF assms(1)]])

definition typed_hist :: "ts_hist \<Rightarrow> bool" where
  "typed_hist h \<longleftrightarrow> in_s32 (h_x h) \<and> in_s32 (h_y h)"

lemma in_s32_drop_bit: "in_s32 v \<Longrightarrow> in_s32 (drop_bit k v)"
proof -
  assume v: "in_s32 v"
  have p: "(0 :: int) < 1" "(1 :: int) \<le> 2 ^ k" by simp_all
  have "- 2147483648 \<le> - 2147483648 div (2 :: int) ^ k"
    using zdiv_mono2_neg [OF _ p, of "- 2147483648"] by simp
  also have "\<dots> \<le> v div 2 ^ k" using v by (intro zdiv_mono1) (simp_all add: in_s32_def)
  finally have lo: "- 2147483648 \<le> v div 2 ^ k" .
  have "v div 2 ^ k \<le> 2147483647 div 2 ^ k" using v by (intro zdiv_mono1) (simp_all add: in_s32_def)
  also have "\<dots> \<le> 2147483647" using zdiv_mono2 [OF _ p, of 2147483647] by simp
  finally show ?thesis using lo by (simp add: in_s32_def drop_bit_eq_div)
qed

lemma average_loop_typed:
  "in_s32 sx \<Longrightarrow> in_s32 sy \<Longrightarrow> returns (\<lambda>(x, y, p). in_s32 x \<and> in_s32 y) (average_loop hist ws sn sx sy sp)"
proof (induction ws arbitrary: sn sx sy sp)
  case (Cons w ws)
  then show ?case by (auto intro!: returns_tbind [where Q = "\<lambda>_. True"] simp: samp_get_def)
qed simp

lemma average_typed: "c_sample c \<Longrightarrow> returns c_sample (average d c)"
  unfolding average_def
  by (rule returns_tbind [where Q = "\<lambda>_. True"], simp add: samp_get_def,
      rule returns_tbind [OF average_loop_typed])
    (auto simp: c_sample_def intro!: in_s32_drop_bit, simp_all add: in_s32_def)

definition typed_dejitter :: "tslib_dejitter \<Rightarrow> bool" where
  "typed_dejitter d \<longleftrightarrow> list_all typed_hist (d_hist d)"

lemma dejitter_reset_typed: "typed_dejitter d \<Longrightarrow> returns typed_dejitter (dejitter_reset d c)"
  by (auto simp: dejitter_reset_def typed_dejitter_def samp_get_def)

lemma dejitter_loop_typed:
  "typed_dejitter d \<Longrightarrow> typed_samples samp \<Longrightarrow>
   returns (\<lambda>(k, samp', d'). typed_samples samp' \<and> typed_dejitter d') (dejitter_loop d samp s count rv)"
proof (induction rv arbitrary: d samp s count)
  case (Suc rv)
  let ?R = "returns (\<lambda>(k, samp', d'). typed_samples samp' \<and> typed_dejitter d')"
  show ?case
    unfolding dejitter_loop.simps
  proof (rule returns_tbind [OF returns_samp(1) [OF Suc.prems(2)]])
    fix c assume c: "c_sample c"
    let ?h = "\<lparr>h_x = ts_x c, h_y = ts_y c, h_p = pressure c\<rparr>"
    have h: "typed_hist ?h" using c by (simp add: typed_hist_def c_sample_def)
    have up: "?R (tbind (samp_put samp count c) (\<lambda>samp'. dejitter_loop (d\<lparr>d_nr := 0\<rparr>) samp' (s + 1) (count + 1) rv))"
      using Suc.prems c by (intro returns_tbind [OF returns_samp(2) [where P = c_sample]] Suc.IH)
        (simp_all add: typed_dejitter_def)
    have put: "returns typed_samples (if d_nr d2 = 1 then samp_put samp count c
        else tbind (samp_get samp count) (\<lambda>o0. tbind (average d2 o0) (\<lambda>o1. samp_put samp count (o1\<lparr>tv := tv c\<rparr>))))" for d2
      using Suc.prems(2) c
      by (auto intro!: returns_samp(2) returns_tbind [OF returns_samp(1) [where P = c_sample]]
          returns_tbind [OF average_typed])
    have down: "?R (tbind (dejitter_reset d c) (\<lambda>djt1.
       tbind (samp_put (d_hist djt1) (nat (d_head djt1)) ?h) (\<lambda>hist.
         let djt2 = djt1\<lparr>d_hist := hist, d_nr := (if d_nr djt1 < 4 then d_nr djt1 + 1 else d_nr djt1)\<rparr> in
         tbind (if d_nr djt2 = 1 then samp_put samp count c
                else tbind (samp_get samp count) (\<lambda>o0. tbind (average djt2 o0) (\<lambda>o1.
                  samp_put samp count (o1\<lparr>tv := tv c\<rparr>)))) (\<lambda>samp'.
           dejitter_loop (djt2\<lparr>d_head := (d_head djt2 + 1) AND 3\<rparr>) samp' (s + 1) (count + 1) rv))))"
      unfolding Let_def
      by (intro returns_tbind [OF dejitter_reset_typed [OF Suc.prems(1)]]
          returns_tbind [OF returns_samp(2) [where P = typed_hist]] returns_tbind [OF put] Suc.IH)
        (simp_all add: typed_dejitter_def h)
    show "?R (if pressure c = 0 then
        tbind (samp_put samp count c) (\<lambda>samp'. dejitter_loop (d\<lparr>d_nr := 0\<rparr>) samp' (s + 1) (count + 1) rv)
      else tbind (dejitter_reset d c) (\<lambda>djt1.
       tbind (samp_put (d_hist djt1) (nat (d_head djt1)) ?h) (\<lambda>hist.
         let djt2 = djt1\<lparr>d_hist := hist, d_nr := (if d_nr djt1 < 4 then d_nr djt1 + 1 else d_nr djt1)\<rparr> in
         tbind (if d_nr djt2 = 1 then samp_put samp count c
                else tbind (samp_get samp count) (\<lambda>o0. tbind (average djt2 o0) (\<lambda>o1.
                  samp_put samp count (o1\<lparr>tv := tv c\<rparr>)))) (\<lambda>samp'.
           dejitter_loop (djt2\<lparr>d_head := (d_head djt2 + 1) AND 3\<rparr>) samp' (s + 1) (count + 1) rv))))"
      using up down by (simp only: if_split) blast
  qed
qed simp

lemma dejitter_typed:
  assumes "typed_reader next_read I"
  shows "typed_reader (dejitter_read next_read) (\<lambda>(d, n). typed_dejitter d \<and> I n)"
proof (unfold_locales, clarify)
  fix d n buf nr assume a: "typed_dejitter d" "I n" "typed_samples buf"
  show "returns (\<lambda>(r, buf', s'). typed_samples buf' \<and> (case s' of (d, n) \<Rightarrow> typed_dejitter d \<and> I n))
      (dejitter_read next_read (d, n) buf nr)"
    unfolding dejitter_read_def split_conv
    by (rule typed_reader.typed_bind [OF assms a(2,3)])
      (auto intro: returns_tbind [OF dejitter_loop_typed] simp: a(1))
qed

lemma rewrite_loop_typed:
  assumes "\<And>c. c_sample c \<Longrightarrow> returns c_sample (f c)"
  shows "typed_samples samp \<Longrightarrow> returns typed_samples (rewrite_loop f samp i rv)"
proof (induction rv arbitrary: samp i)
  case (Suc rv)
  show ?case unfolding rewrite_loop.simps
    by (rule returns_tbind [OF returns_samp(1) [OF Suc.prems]], rule returns_tbind [OF assms], assumption,
        rule returns_tbind [OF returns_samp(2) [OF Suc.prems]], assumption, rule Suc.IH)
qed simp

lemma linear_sample_typed: "returns c_sample (linear_sample lin c)"
  by (simp add: linear_sample_def Let_def c_sample_def)

lemma linear_typed:
  assumes "typed_reader next_read I"
  shows "typed_reader (linear_read next_read) (\<lambda>(lin, n). I n)"
proof (unfold_locales, clarify)
  fix lin n buf nr assume a: "I n" "typed_samples buf"
  show "returns (\<lambda>(r, buf', s'). typed_samples buf' \<and> (case s' of (lin, n) \<Rightarrow> I n)) (linear_read next_read (lin, n) buf nr)"
    unfolding linear_read_def split_conv
    by (rule typed_reader.typed_bind [OF assms a])
      (auto intro!: returns_tbind [OF rewrite_loop_typed [OF linear_sample_typed]])
qed

lemma linear_h2200_typed:
  assumes "typed_reader next_read I"
  shows "typed_reader (linear_h2200_read next_read) I"
proof
  fix n buf nr assume a: "I n" "typed_samples buf"
  have s: "returns c_sample (Inr (linear_h2200_sample c) :: ts_fault + ts_sample)" for c
    by (simp add: linear_h2200_sample_def Let_def c_sample_def in_s32_drop_bit)
  show "returns (\<lambda>(r, buf', s'). typed_samples buf' \<and> I s') (linear_h2200_read next_read n buf nr)"
    unfolding linear_h2200_read_def
    by (rule typed_reader.typed_bind [OF assms a]) (auto intro!: returns_tbind [OF rewrite_loop_typed [OF s]])
qed

subsection \<open>The raw module and the chain\<close>

fun typed_answer :: "rd_answer \<Rightarrow> bool" where
  "typed_answer (Rd_event ev) = in_s32 (ev_value ev)"
| "typed_answer _ = True"

definition typed_input :: "tslib_input \<Rightarrow> bool" where
  "typed_input i \<longleftrightarrow> in_s32 (current_x i) \<and> in_s32 (current_y i)"

lemma typed_input_set:
  "typed_input i \<Longrightarrow> in_s32 v \<Longrightarrow> typed_input (i\<lparr>current_x := v\<rparr>)"
  "typed_input i \<Longrightarrow> in_s32 v \<Longrightarrow> typed_input (i\<lparr>current_y := v\<rparr>)"
  "typed_input (i\<lparr>current_p := v\<rparr>) = typed_input i"
  "typed_input (i\<lparr>sane_fd := v\<rparr>) = typed_input i"
  "typed_input (i\<lparr>using_syn := v\<rparr>) = typed_input i"
  by (simp_all add: typed_input_def)

lemma typed_input_samples:
  "c_sample (pen_up_sample ev)" "typed_input i \<Longrightarrow> c_sample (current_sample i ev)"
  by (simp_all add: pen_up_sample_def current_sample_def c_sample_def typed_input_def in_s32_def)

abbreviation typed_input_result :: "int \<times> ts_sample list \<times> (tslib_input \<times> rd_answer list) \<Rightarrow> bool" where
  "typed_input_result \<equiv> (\<lambda>(r, samp, (i, rs)). typed_samples samp \<and> typed_input i \<and> list_all typed_answer rs)"

lemma syn_loop_typed:
  "list_all typed_answer rs \<Longrightarrow> typed_input i \<Longrightarrow> typed_samples samp \<Longrightarrow>
   returns typed_input_result (syn_loop i rs samp tot nr)"
proof (induction rs arbitrary: i samp tot)
  case (Cons r rs)
  then show ?case
    by (cases r) (auto intro!: Cons.IH returns_tbind [OF returns_samp(2) [where P = c_sample]]
        simp: typed_input_set typed_input_samples)
qed simp

lemma nosyn_loop_typed:
  "list_all typed_answer rs \<Longrightarrow> typed_input i \<Longrightarrow> typed_samples samp \<Longrightarrow>
   returns typed_input_result (nosyn_loop i rs samp len tot nr)"
proof (induction rs arbitrary: i samp len tot)
  case (Cons r rs)
  then show ?case
    by (cases r) (auto intro!: Cons.IH returns_tbind [OF returns_samp(2) [where P = c_sample]]
        returns_tbind [OF returns_samp(1) [where P = c_sample]] simp: Let_def typed_input_set typed_input_samples)
qed simp

lemma ts_input_typed: "typed_reader (ts_input_read caps) (\<lambda>(i, rs). typed_input i \<and> list_all typed_answer rs)"
proof (unfold_locales, clarify)
  fix i rs buf nr assume a: "typed_input i" "list_all typed_answer rs" "typed_samples buf"
  define i1 where "i1 = (if sane_fd i = 0 then (case check_fd caps i of (r, i') \<Rightarrow> i'\<lparr>sane_fd := r\<rparr>) else i)"
  have "typed_input i1"
    using a(1) by (auto simp: i1_def check_fd_def typed_input_set split: option.split)
  with a(2,3) syn_loop_typed nosyn_loop_typed
  show "returns (\<lambda>(r, buf', s'). typed_samples buf' \<and> (case s' of (i, rs) \<Rightarrow> typed_input i \<and> list_all typed_answer rs))
      (ts_input_read caps (i, rs) buf nr)"
    unfolding ts_input_read_def split_conv Let_def i1_def [symmetric] by simp
qed

interpretation input_typed: typed_reader "ts_input_read caps" "\<lambda>(i, rs). typed_input i \<and> list_all typed_answer rs" for caps
  by (rule ts_input_typed)

fun typed_mod :: "tsmod \<Rightarrow> bool" where
  "typed_mod (Input i) = typed_input i"
| "typed_mod (Pthres p) = typed_pthres p"
| "typed_mod (Variance v) = typed_variance v"
| "typed_mod (Dejitter d) = typed_dejitter d"
| "typed_mod (Linear l) = True"
| "typed_mod Linear_h2200 = True"

definition typed_chain :: "chain_state \<Rightarrow> bool" where
  "typed_chain s \<longleftrightarrow> (\<forall>p m. fst s p = Some m \<longrightarrow> typed_mod (mi_mod m)) \<and> list_all typed_answer (snd s)"

lemma typed_chain_store:
  "typed_chain (h, rs) \<Longrightarrow> typed_mod md \<Longrightarrow> typed_chain (store_mod p md h, rs)"
  by (auto simp: typed_chain_def store_mod_def)

lemma through_typed:
  assumes "typed_reader rd (\<lambda>(q, s). Q q \<and> typed_chain s)" "Q q" "typed_chain (h, rs)" "typed_samples buf"
    and "\<And>q. Q q \<Longrightarrow> typed_mod (con q)"
  shows "returns (\<lambda>(r, buf', s'). typed_samples buf' \<and> typed_chain s') (through p con (rd (q, (h, rs)) buf nr))"
  unfolding through_def
  by (rule typed_reader.typed_bind [OF assms(1)]) (use assms(2-4) in \<open>auto intro!: typed_chain_store assms(5)\<close>)

lemma chain_read_typed:
  assumes "c_sample cur0"
  shows "typed_reader (chain_read d caps cur0 p) typed_chain"
proof (induction d arbitrary: p)
  case 0
  show ?case by unfold_locales simp
next
  case (Suc d)
  show ?case
  proof (unfold_locales, goal_cases)
    case (1 s buf nr)
    obtain h rs where s: "s = (h, rs)" by fastforce
    show ?case
    proof (cases "h p")
      case None
      then show ?thesis by (simp add: s)
    next
      case (Some m)
      let ?next = "chain_read d caps cur0 (mi_next m)"
      have md: "typed_mod (mi_mod m)" "list_all typed_answer rs" using 1(1) Some by (auto simp: s typed_chain_def)
      note t = Suc.IH [of "mi_next m"]
      note thr = through_typed [OF _ _ 1(1) [unfolded s] 1(2), where p = p and nr = nr]
      show ?thesis
      proof (cases "mi_mod m")
        case (Input i)
        have "returns (\<lambda>(r, buf', s'). typed_samples buf' \<and> typed_chain s')
          (tbind (ts_input_read caps (i, rs) buf nr) (\<lambda>(r, buf, (i', rs')). Inr (r, buf, (store_mod p (Input i') h, rs'))))"
          by (rule input_typed.typed_bind)
            (use md Input 1 in \<open>auto simp: s typed_chain_def store_mod_def\<close>)
        then show ?thesis using Some Input by (simp add: s)
      next
        case (Pthres q)
        then show ?thesis using Some md thr [OF pthres_typed [OF t], where q = q and con = Pthres] by (simp add: s)
      next
        case (Variance q)
        then show ?thesis using Some md thr [OF variance_typed [OF t assms], where q = q and con = Variance] by (simp add: s)
      next
        case (Dejitter q)
        then show ?thesis using Some md thr [OF dejitter_typed [OF t], where q = q and con = Dejitter] by (simp add: s)
      next
        case (Linear q)
        have "typed_reader (linear_read ?next) (\<lambda>(q, s). True \<and> typed_chain s)" using linear_typed [OF t] by simp
        from thr [OF this, where q = q and con = Linear] Linear Some md show ?thesis by (simp add: s)
      next
        case Linear_h2200
        then show ?thesis using Some typed_reader.typed [OF linear_h2200_typed [OF t] 1] by (simp add: s)
      qed
    qed
  qed
qed



end
