(* ===== verification/TsPath.thy ===== *)
theory TsPath
  imports Touch TsInput
begin

section \<open>From the pen to the samples of tslib\<close>

text \<open>
  The driver \<^verbatim>\<open>s3c_ts.c\<close> and the module \<^verbatim>\<open>input-raw.c\<close> meet at the input layer of the kernel: the driver
  reports axes, the button and the end of a packet, the module reads events. The layer itself is not
  part of the repository. \<open>input_layer\<close> is what it documents: reports become events in order; a report
  that repeats the current value of its axis or button may be dropped, and so may the end of a packet
  without events.
\<close>

definition abs_code :: "string \<Rightarrow> int" where
  "abs_code c = (if c = ''ABS_X'' then ABS_X else if c = ''ABS_Y'' then ABS_Y else ABS_PRESSURE)"

inductive input_layer :: "(string \<Rightarrow> int) \<Rightarrow> bool \<Rightarrow> kreq list \<Rightarrow> rd_answer list \<Rightarrow> bool" where
  finished: "input_layer v d [] []"
| abs_event: "input_layer (v(c := sint w)) True qs es \<Longrightarrow>
    input_layer v d (QCall ''input_report_abs'' [Num dev, Sym c, Num w] # qs)
      (mk_event t EV_ABS (abs_code c) (sint w) # es)"
| abs_drop: "input_layer v d qs es \<Longrightarrow> v c = sint w \<Longrightarrow>
    input_layer v d (QCall ''input_report_abs'' [Num dev, Sym c, Num w] # qs) es"
| key_event: "input_layer (v(c := sint w)) True qs es \<Longrightarrow> c = ''BTN_TOUCH'' \<Longrightarrow>
    input_layer v d (QCall ''input_report_key'' [Num dev, Sym c, Num w] # qs)
      (mk_event t EV_KEY BTN_TOUCH (sint w) # es)"
| key_drop: "input_layer v d qs es \<Longrightarrow> v c = sint w \<Longrightarrow>
    input_layer v d (QCall ''input_report_key'' [Num dev, Sym c, Num w] # qs) es"
| sync_event: "input_layer v False qs es \<Longrightarrow>
    input_layer v d (QCall ''input_sync'' [Num dev] # qs) (mk_event t EV_SYN 0 0 # es)"
| sync_drop: "input_layer v False qs es \<Longrightarrow>
    input_layer v False (QCall ''input_sync'' [Num dev] # qs) es"

inductive_cases input_layer_absE: "input_layer v d (QCall ''input_report_abs'' [Num dev, Sym c, Num w] # qs) es"
inductive_cases input_layer_keyE: "input_layer v d (QCall ''input_report_key'' [Num dev, Sym c, Num w] # qs) es"
inductive_cases input_layer_syncE: "input_layer v d (QCall ''input_sync'' [Num dev] # qs) es"
inductive_cases input_layer_NilE: "input_layer v d [] es"

subsection \<open>The samples in a stream of events\<close>

fun decode :: "tslib_input \<Rightarrow> rd_answer list \<Rightarrow> ts_sample list" where
  "decode i [] = []"
| "decode i (Rd_event ev # rs) =
     (if ev_type ev = EV_KEY then
        (if ev_code ev = BTN_TOUCH \<and> ev_value ev = 0 then pen_up_sample ev # decode i rs else decode i rs)
      else if ev_type ev = EV_SYN then current_sample i ev # decode i rs
      else if ev_type ev = EV_ABS then
        (if ev_code ev = ABS_X then decode (i\<lparr>current_x := ev_value ev\<rparr>) rs
         else if ev_code ev = ABS_Y then decode (i\<lparr>current_y := ev_value ev\<rparr>) rs
         else if ev_code ev = ABS_PRESSURE then decode (i\<lparr>current_p := ev_value ev\<rparr>) rs
         else decode i rs)
      else decode i rs)"
| "decode i (_ # rs) = []"

lemma syn_loop_full: "syn_loop i rs samp tot (int tot) = Inr (int tot, samp, (i, rs))"
  by (cases rs) simp_all

lemma syn_loop_decode:
  assumes "nr = int tot + int (length (decode i rs))" "nr \<le> int (length samp)"
  shows "\<exists>i' rs'. syn_loop i rs samp tot nr = Inr (nr, take tot samp @ decode i rs @ drop (nat nr) samp, (i', rs'))"
  using assms
proof (induction rs arbitrary: i samp tot)
  case (Cons r rs)
  show ?case
  proof (cases "decode i (r # rs) = []")
    case True
    with Cons.prems have "nr = int tot" by simp
    with True show ?thesis using syn_loop_full by auto
  next
    case False
    then obtain ev where r: "r = Rd_event ev" by (cases r) auto
    from False have "0 < length (decode i (r # rs))" by blast
    then have t: "int tot < nr" "tot < length samp" using Cons.prems by linarith+
    have put: "\<exists>i' rs'. syn_loop i rs (samp[tot := c]) (tot + 1) nr =
        Inr (nr, take tot samp @ c # decode i rs @ drop (nat nr) samp, (i', rs'))"
      if "nr = int tot + int (length (c # decode i rs))" for c
      using Cons.IH [of "tot + 1" i "samp[tot := c]"] that Cons.prems(2) t(2) by simp
    show ?thesis
      using t Cons.prems put Cons.IH [of tot _ samp] unfolding r by (auto split: if_splits)
  qed
qed (auto simp: syn_loop_full)

subsection \<open>Reports through the input layer\<close>

text \<open>The positions of the samples with the pen down.\<close>

definition pressed :: "ts_sample list \<Rightarrow> (int \<times> int) list" where
  "pressed cs = map (\<lambda>c. (ts_x c, ts_y c)) (filter (\<lambda>c. pressure c \<noteq> 0) cs)"

lemma pressed_simps [simp]:
  "pressed [] = []"
  "pressed (c # cs) = (if pressure c \<noteq> 0 then (ts_x c, ts_y c) # pressed cs else pressed cs)"
  by (simp_all add: pressed_def)

text \<open>The module has seen every value of the layer.\<close>

definition agree :: "(string \<Rightarrow> int) \<Rightarrow> tslib_input \<Rightarrow> bool" where
  "agree v i \<longleftrightarrow> current_x i = v ''ABS_X'' \<and> current_y i = v ''ABS_Y'' \<and> current_p i = v ''ABS_PRESSURE''"

lemma layer_abs:
  assumes "input_layer v d (QCall ''input_report_abs'' [Num dev, Sym c, Num w] # qs) es" "agree v i"
    "c \<in> {''ABS_X'', ''ABS_Y'', ''ABS_PRESSURE''}"
  obtains d' es' i' where "input_layer (v(c := sint w)) d' qs es'" "agree (v(c := sint w)) i'"
    "decode i es = decode i' es'" "d' \<or> \<not> d \<and> v c = sint w"
proof -
  from assms(1) consider (ev) es' t where "es = mk_event t EV_ABS (abs_code c) (sint w) # es'"
      "input_layer (v(c := sint w)) True qs es'"
    | (same) "input_layer v d qs es" "v c = sint w"
    by (auto elim: input_layer_absE)
  then show ?thesis
  proof cases
    case ev
    let ?i = "if c = ''ABS_X'' then i\<lparr>current_x := sint w\<rparr> else if c = ''ABS_Y'' then i\<lparr>current_y := sint w\<rparr>
      else i\<lparr>current_p := sint w\<rparr>"
    have "agree (v(c := sint w)) ?i" using assms(2,3) by (auto simp: agree_def)
    moreover have "decode i es = decode ?i es'"
      using assms(3) unfolding ev(1) by (auto simp: mk_event_def abs_code_def)
    ultimately show ?thesis using that ev(2) by blast
  next
    case same
    then have "v(c := sint w) = v" by auto
    with that [of d es i] same assms(2) show ?thesis by auto
  qed
qed

lemma layer_key:
  assumes "input_layer v d (QCall ''input_report_key'' [Num dev, Sym c, Num w] # qs) es" "agree v i"
    "c = ''BTN_TOUCH''"
  obtains d' es' where "input_layer (v(c := sint w)) d' qs es'" "agree (v(c := sint w)) i"
    "pressed (decode i es) = pressed (decode i es')" "d' \<or> \<not> d"
proof -
  from assms(1) consider (ev) es' t where "es = mk_event t EV_KEY BTN_TOUCH (sint w) # es'"
      "input_layer (v(c := sint w)) True qs es'"
    | (same) "input_layer v d qs es" "v c = sint w"
    by (auto elim: input_layer_keyE)
  then show ?thesis
  proof cases
    case ev
    have "agree (v(c := sint w)) i" using assms(2,3) by (auto simp: agree_def)
    with that [of True es'] ev show ?thesis by (auto simp: mk_event_def pen_up_sample_def)
  next
    case same
    then have "v(c := sint w) = v" by auto
    with that [of d es] same assms(2) show ?thesis by auto
  qed
qed

lemma layer_sync:
  assumes "input_layer v d (QCall ''input_sync'' [Num dev] # qs) es" "agree v i"
  obtains es' where "input_layer v False qs es'"
    "pressed (decode i es) =
       (if word_of_int (v ''ABS_PRESSURE'') \<noteq> (0 :: u32) then [(v ''ABS_X'', v ''ABS_Y'')] else []) @
         pressed (decode i es') \<or>
     \<not> d \<and> pressed (decode i es) = pressed (decode i es')"
proof -
  from assms(1) consider (ev) es' t where "es = mk_event t EV_SYN 0 0 # es'" "input_layer v False qs es'"
    | (same) "input_layer v False qs es" "\<not> d"
    by (auto elim: input_layer_syncE)
  then show ?thesis
  proof cases
    case ev
    then show ?thesis using that [of es'] assms(2) by (auto simp: mk_event_def current_sample_def agree_def)
  next
    case same
    with that [of es] show ?thesis by simp
  qed
qed

definition down :: "(string \<Rightarrow> int) \<Rightarrow> (int \<times> int) list" where
  "down v = (if v ''ABS_PRESSURE'' \<noteq> 0 then [(v ''ABS_X'', v ''ABS_Y'')] else [])"

lemma layer_touch:
  assumes "input_layer v False (report_reqs dev (Touch x y) @ qs) es" "agree v i" "x \<le> 0x3ff" "y \<le> 0x3ff"
  obtains v' es' i' where "input_layer v' False qs es'" "agree v' i'" "down v' = [(int x, int y)]"
    "pressed (decode i es) = (int x, int y) # pressed (decode i' es') \<or>
     down v = [(int x, int y)] \<and> pressed (decode i es) = pressed (decode i' es')"
proof -
  have small: "sint (of_nat n :: u32) = int n" if "n \<le> 0x3ff" for n
    using that by (simp add: signed_of_nat signed_take_bit_int_eq_self)
  obtain d1 es1 i1 where 1: "input_layer (v(''ABS_X'' := int x)) d1
      (QCall ''input_report_abs'' [Num dev, Sym ''ABS_Y'', Num (of_nat y)] #
       QCall ''input_report_abs'' [Num dev, Sym ''ABS_PRESSURE'', Num 1] #
       QCall ''input_report_key'' [Num dev, Sym ''BTN_TOUCH'', Num 1] # QCall ''input_sync'' [Num dev] # qs) es1"
    "agree (v(''ABS_X'' := int x)) i1" "decode i es = decode i1 es1" "d1 \<or> v ''ABS_X'' = int x"
    by (rule layer_abs [OF assms(1) [unfolded report_reqs.simps append.simps] assms(2)])
      (use small [OF assms(3)] in auto)
  obtain d2 es2 i2 where 2: "input_layer (v(''ABS_X'' := int x, ''ABS_Y'' := int y)) d2
      (QCall ''input_report_abs'' [Num dev, Sym ''ABS_PRESSURE'', Num 1] #
       QCall ''input_report_key'' [Num dev, Sym ''BTN_TOUCH'', Num 1] # QCall ''input_sync'' [Num dev] # qs) es2"
    "agree (v(''ABS_X'' := int x, ''ABS_Y'' := int y)) i2" "decode i1 es1 = decode i2 es2"
    "d2 \<or> \<not> d1 \<and> v ''ABS_Y'' = int y"
    by (rule layer_abs [OF 1(1,2)]) (use small [OF assms(4)] in auto)
  let ?v = "v(''ABS_X'' := int x, ''ABS_Y'' := int y, ''ABS_PRESSURE'' := 1)"
  obtain d3 es3 i3 where 3: "input_layer ?v d3
      (QCall ''input_report_key'' [Num dev, Sym ''BTN_TOUCH'', Num 1] # QCall ''input_sync'' [Num dev] # qs) es3"
    "agree ?v i3" "decode i2 es2 = decode i3 es3" "d3 \<or> \<not> d2 \<and> v ''ABS_PRESSURE'' = 1"
    by (rule layer_abs [OF 2(1,2)]) auto
  obtain d4 es4 where 4: "input_layer (?v(''BTN_TOUCH'' := 1)) d4 (QCall ''input_sync'' [Num dev] # qs) es4"
    "agree (?v(''BTN_TOUCH'' := 1)) i3" "pressed (decode i3 es3) = pressed (decode i3 es4)" "d4 \<or> \<not> d3"
    by (rule layer_key [OF 3(1,2)]) auto
  obtain es5 where 5: "input_layer (?v(''BTN_TOUCH'' := 1)) False qs es5"
    "pressed (decode i3 es4) = (int x, int y) # pressed (decode i3 es5) \<or>
     \<not> d4 \<and> pressed (decode i3 es4) = pressed (decode i3 es5)"
    by (rule layer_sync [OF 4(1,2)]) auto
  have "down (?v(''BTN_TOUCH'' := 1)) = [(int x, int y)]" by (simp add: down_def)
  moreover have "\<not> d4 \<Longrightarrow> down v = [(int x, int y)]" using 1(4) 2(4) 3(4) 4(4) by (auto simp: down_def)
  ultimately show ?thesis using that [OF 5(1) 4(2)] 1(3) 2(3) 3(3) 4(3) 5(2) by auto
qed

lemma layer_release:
  assumes "input_layer v False (report_reqs dev Release @ qs) es" "agree v i"
  obtains v' es' i' where "input_layer v' False qs es'" "agree v' i'" "down v' = []"
    "pressed (decode i es) = pressed (decode i' es')"
proof -
  let ?v = "v(''ABS_PRESSURE'' := 0)"
  obtain d1 es1 i1 where 1: "input_layer ?v d1
      (QCall ''input_report_key'' [Num dev, Sym ''BTN_TOUCH'', Num 0] # QCall ''input_sync'' [Num dev] # qs) es1"
    "agree ?v i1" "decode i es = decode i1 es1"
    by (rule layer_abs [OF assms(1) [unfolded report_reqs.simps append.simps] assms(2)]) auto
  obtain d2 es2 where 2: "input_layer (?v(''BTN_TOUCH'' := 0)) d2 (QCall ''input_sync'' [Num dev] # qs) es2"
    "agree (?v(''BTN_TOUCH'' := 0)) i1" "pressed (decode i1 es1) = pressed (decode i1 es2)"
    by (rule layer_key [OF 1(1,2)]) auto
  obtain es3 where 3: "input_layer (?v(''BTN_TOUCH'' := 0)) False qs es3"
    "pressed (decode i1 es2) = pressed (decode i1 es3)"
    by (rule layer_sync [OF 2(1,2)]) auto
  have "down (?v(''BTN_TOUCH'' := 0)) = []" by (simp add: down_def)
  with that [OF 3(1) 2(2)] 1(3) 2(3) 3(2) show ?thesis by simp
qed

fun touches :: "ts_report list \<Rightarrow> (int \<times> int) list" where
  "touches [] = []"
| "touches (Touch x y # rs) = (int x, int y) # touches rs"
| "touches (Release # rs) = touches rs"

lemma remdups_adj_Cons_cong: "remdups_adj xs = remdups_adj ys \<Longrightarrow> remdups_adj (a # xs) = remdups_adj (a # ys)"
  by (simp add: remdups_adj_Cons)

lemma layer_reports:
  assumes "input_layer v False (concat (map (report_reqs dev) rs)) es" "agree v i" "\<forall>r \<in> set rs. small_report r"
  shows "remdups_adj (down v @ pressed (decode i es)) = remdups_adj (down v @ touches rs)"
  using assms
proof (induction rs arbitrary: v i es)
  case Nil
  then show ?case by (auto elim: input_layer_NilE)
next
  case (Cons r rs)
  have down1: "down v = [] \<or> (\<exists>a. down v = [a])" by (simp add: down_def)
  show ?case
  proof (cases r)
    case Release
    with Cons.prems obtain v' es' i' where *: "input_layer v' False (concat (map (report_reqs dev) rs)) es'"
      "agree v' i'" "down v' = []" "pressed (decode i es) = pressed (decode i' es')"
      by (auto simp del: report_reqs.simps elim!: layer_release)
    have "remdups_adj (pressed (decode i' es')) = remdups_adj (touches rs)"
      using Cons.IH [OF *(1,2)] Cons.prems(3) *(3) by simp
    with down1 *(4) Release show ?thesis by (auto intro: remdups_adj_Cons_cong)
  next
    case (Touch x y)
    then have s: "x \<le> 0x3ff" "y \<le> 0x3ff" using Cons.prems(3) by simp_all
    have l: "input_layer v False (report_reqs dev (Touch x y) @ concat (map (report_reqs dev) rs)) es"
      using Cons.prems(1) Touch by simp
    obtain v' es' i' where *: "input_layer v' False (concat (map (report_reqs dev) rs)) es'"
      "agree v' i'" "down v' = [(int x, int y)]"
      "pressed (decode i es) = (int x, int y) # pressed (decode i' es') \<or>
       down v = [(int x, int y)] \<and> pressed (decode i es) = pressed (decode i' es')"
      using layer_touch [OF l Cons.prems(2) s] by blast
    have "remdups_adj ((int x, int y) # pressed (decode i' es')) = remdups_adj ((int x, int y) # touches rs)"
      using Cons.IH [OF *(1,2)] Cons.prems(3) *(3) by simp
    with down1 *(4) Touch show ?thesis by (auto intro: remdups_adj_Cons_cong)
  qed
qed

text \<open>
  C1. End to end: whatever sequence of pen interrupts, conversions and timer expiries the driver handles,
  and whichever repeated values the input layer drops, a freshly loaded \<^verbatim>\<open>input\<close> module decodes a list
  of samples whose positions with the pen down are, up to immediate repetitions, exactly the means of four
  conversions that the abstract machine reports, in order; and it hands this list to its caller.
\<close>

theorem pen_to_samples:
  assumes "ts_inv s" "touchscreen_caps caps" "input_mod_init True = Some i"
    and reports: "rs = snd (spec_run ts_spec (seen_inputs (ts_conc env) (ts_sees env) es s) (ts_abs s))"
    and told: "input_reqs (trace (fold (ts_conc env) es s)) = input_reqs (trace s) @ qs"
    and layer: "input_layer (\<lambda>c. 0) False qs evs"
  shows "\<exists>cs. remdups_adj (pressed cs) = remdups_adj (touches rs) \<and>
    (\<forall>samp. length cs \<le> length samp \<longrightarrow>
      (\<exists>st. ts_input_read caps (i, evs) samp (int (length cs)) = Inr (int (length cs), cs @ drop (length cs) samp, st)))"
proof -
  let ?i = "i\<lparr>using_syn := 1, sane_fd := 0\<rparr>"
  have qs: "qs = concat (map (report_reqs (s3c_ts_input_dev s)) rs)"
    using ts_sim.run_outs [of s "s3c_ts_input_dev s" env es] assms(1) told reports by simp
  have small: "\<forall>r \<in> set rs. small_report r" unfolding reports using assms(1) by (rule ts_run_small)
  have "agree (\<lambda>c. 0) ?i" using assms(3) by (auto simp: agree_def input_mod_init_def)
  from layer_reports [OF layer [unfolded qs] this small]
  have "remdups_adj (pressed (decode ?i evs)) = remdups_adj (touches rs)" by (simp add: down_def)
  moreover have "\<exists>st. ts_input_read caps (i, evs) samp (int (length (decode ?i evs))) =
      Inr (int (length (decode ?i evs)), decode ?i evs @ drop (length (decode ?i evs)) samp, st)"
    if "length (decode ?i evs) \<le> length samp" for samp
    using syn_loop_decode [of "int (length (decode ?i evs))" 0 ?i evs samp] that
    by (auto simp: input_ready [OF assms(2,3)])
  ultimately show ?thesis by blast
qed

lemma layer_demo:
  "input_layer (\<lambda>c. 0) False (report_reqs 1 (Touch 8 8))
     [mk_event t EV_ABS ABS_X 8, mk_event t EV_ABS ABS_Y 8, mk_event t EV_ABS ABS_PRESSURE 1,
      mk_event t EV_KEY BTN_TOUCH 1, mk_event t EV_SYN 0 0]"
proof -
  note key = key_event [where w = "1 :: u32" and c = "''BTN_TOUCH''" and t = t, simplified]
  note x = abs_event [where w = "8 :: u32" and c = "''ABS_X''" and t = t, simplified abs_code_def, simplified]
  note y = abs_event [where w = "8 :: u32" and c = "''ABS_Y''" and t = t, simplified abs_code_def, simplified]
  note p = abs_event [where w = "1 :: u32" and c = "''ABS_PRESSURE''" and t = t, simplified abs_code_def, simplified]
  show ?thesis by (simp, intro x y p key sync_event finished)
qed

theorem pen_to_samples_witness:
  "\<exists>evs cs i st. input_mod_init True = Some i \<and> remdups_adj (pressed cs) = [(8, 8)] \<and>
     ts_input_read demo_caps (i, evs) cs (int (length cs)) = Inr (int (length cs), cs, st)"
proof -
  let ?es = "[Ts_pen, Ts_adc, Ts_adc, Ts_adc, Ts_adc]"
  let ?t = "\<lparr>tv_sec = 1, tv_usec = 2\<rparr>"
  obtain i where i: "input_mod_init True = Some i" by (simp add: input_mod_init_def)
  have r: "[Touch 8 8] = snd (spec_run ts_spec (seen_inputs (ts_conc (\<lambda>n q. 8)) (ts_sees (\<lambda>n q. 8)) ?es ts_start)
      (ts_abs ts_start))"
    by (simp add: ts_abs_def ts_start_def mean4_def)
  have q: "input_reqs (trace (fold (ts_conc (\<lambda>n q. 8)) ?es ts_start)) = input_reqs (trace ts_start) @ report_reqs 1 (Touch 8 8)"
    using ts_sim.run_outs [of ts_start 1 "\<lambda>n q. 8" ?es] ts_start_inv unfolding r [symmetric] by (simp add: ts_start_def)
  from pen_to_samples [OF ts_start_inv demo_caps_ok i r q layer_demo [of ?t]]
  obtain cs where "remdups_adj (pressed cs) = [(8, 8)]"
    "\<exists>st. ts_input_read demo_caps (i, [mk_event ?t EV_ABS ABS_X 8, mk_event ?t EV_ABS ABS_Y 8,
      mk_event ?t EV_ABS ABS_PRESSURE 1, mk_event ?t EV_KEY BTN_TOUCH 1, mk_event ?t EV_SYN 0 0]) cs (int (length cs)) =
        Inr (int (length cs), cs @ drop (length cs) cs, st)"
    by auto
  with i show ?thesis by auto
qed

end
