(* ===== verification/FbUtils.thy ===== *)
theory FbUtils
  imports Tslib
begin

section \<open>tslib/tests/fbutils.c: drawing on a frame buffer\<close>

text \<open>
  The drawing functions of the calibration and test programs. The mapped frame buffer is a list of bytes,
  the other static variables are the record \<open>fbinfo\<close>, which drawing only reads. An address is an offset from
  \<^verbatim>\<open>fbuffer\<close>. An access outside the mapping, outside \<^verbatim>\<open>line_addr\<close> or outside \<^verbatim>\<open>colormap\<close>, a division by zero and
  a loop that is never left are faults; a shift count that C leaves undefined counts as out of bounds.
  \<^verbatim>\<open>unsigned long\<close> has four bytes on the target.
\<close>

record fb_channel =
  ch_offset :: u32
  ch_length :: u32

record fbinfo =
  fi_smem_len :: u32
  fi_line_length :: u32
  va_xres :: u32
  va_yres :: u32
  va_xres_virtual :: u32
  va_yres_virtual :: u32
  va_bits_per_pixel :: u32
  va_red :: fb_channel
  va_green :: fb_channel
  va_blue :: fb_channel
  line_addr :: "u32 list"
  bytes_per_pixel :: nat
  colormap :: "u32 list"

definition XORMODE :: u32 where
  "XORMODE = 0x80000000"

subsection \<open>Memory\<close>

text \<open>Little-endian values of \<open>n\<close> bytes.\<close>

definition le_bytes :: "nat \<Rightarrow> u32 \<Rightarrow> u8 list" where
  "le_bytes n v = map (\<lambda>i. ucast (drop_bit (8 * i) v)) [0..<n]"

fun le_value :: "u8 list \<Rightarrow> u32" where
  "le_value [] = 0"
| "le_value (b # bs) = ucast b OR push_bit 8 (le_value bs)"

definition mem_get :: "nat \<Rightarrow> nat \<Rightarrow> u8 list \<Rightarrow> ts_fault + u32" where
  "mem_get n a mem = (if a + n \<le> length mem then Inr (le_value (take n (drop a mem))) else Inl Out_of_bounds)"

definition mem_put :: "nat \<Rightarrow> nat \<Rightarrow> u32 \<Rightarrow> u8 list \<Rightarrow> ts_fault + u8 list" where
  "mem_put n a v mem =
     (if a + n \<le> length mem then Inr (take a mem @ le_bytes n v @ drop (a + n) mem) else Inl Out_of_bounds)"

subsection \<open>Pixels\<close>

text \<open>The width of the access in the switch of \<^verbatim>\<open>__setpixel\<close>: any depth but two and four bytes is written as one.\<close>

definition access_width :: "nat \<Rightarrow> nat" where
  "access_width bpp = (if bpp = 2 then 2 else if bpp = 4 then 4 else 1)"

definition setpixel :: "fbinfo \<Rightarrow> nat \<Rightarrow> u32 \<Rightarrow> u32 \<Rightarrow> u8 list \<Rightarrow> ts_fault + u8 list" where
  "setpixel fb loc xormode color mem =
     (let n = access_width (bytes_per_pixel fb) in
      if xormode \<noteq> 0 then tbind (mem_get n loc mem) (\<lambda>v. mem_put n loc (v XOR color) mem)
      else mem_put n loc color mem)"

definition pixel :: "fbinfo \<Rightarrow> int \<Rightarrow> int \<Rightarrow> u32 \<Rightarrow> u8 list \<Rightarrow> ts_fault + u8 list" where
  "pixel fb x y colidx mem =
     (if x < 0 \<or> word_of_int x \<ge> va_xres_virtual fb \<or> y < 0 \<or> word_of_int y \<ge> va_yres_virtual fb then Inr mem
      else let xormode = colidx AND XORMODE; colidx = colidx AND NOT XORMODE in
        tbind (samp_get (line_addr fb) (nat y)) (\<lambda>addr.
        tbind (samp_get (colormap fb) (unat colidx)) (\<lambda>color.
          setpixel fb (unat addr + nat x * bytes_per_pixel fb) xormode color mem)))"

subsection \<open>Lines\<close>

text \<open>
  Both loops of \<^verbatim>\<open>line\<close>: \<open>i\<close> runs up to \<open>lim\<close>, \<open>acc\<close> is the other coordinate in 16.16 fixed point. A loop up to the
  largest integer is never left; the fuel \<open>line\<close> gives is one more than the number of rounds of any other.
\<close>

fun scan :: "nat \<Rightarrow> (int \<Rightarrow> int \<Rightarrow> u8 list \<Rightarrow> ts_fault + u8 list) \<Rightarrow> int \<Rightarrow> int \<Rightarrow> int \<Rightarrow> int \<Rightarrow> u8 list \<Rightarrow> ts_fault + u8 list" where
  "scan 0 plot i lim acc d mem = Inl Diverges"
| "scan (Suc n) plot i lim acc d mem =
     (if i \<le> lim
      then tbind (plot i (drop_bit 16 acc) mem) (\<lambda>mem'. scan n plot (wrap32 (i + 1)) lim (wrap32 (acc + d)) d mem')
      else Inr mem)"

definition rounds :: "int \<Rightarrow> int \<Rightarrow> nat" where
  "rounds i lim = nat (lim - i + 2)"

definition shl16 :: "int \<Rightarrow> int" where
  "shl16 i = wrap32 (push_bit 16 i)"

definition abs32 :: "int \<Rightarrow> int" where
  "abs32 i = wrap32 \<bar>i\<bar>"

definition line :: "fbinfo \<Rightarrow> int \<Rightarrow> int \<Rightarrow> int \<Rightarrow> int \<Rightarrow> u32 \<Rightarrow> u8 list \<Rightarrow> ts_fault + u8 list" where
  "line fb x1 y1 x2 y2 colidx mem =
     (let dx = wrap32 (x2 - x1); dy = wrap32 (y2 - y1) in
      if abs32 dx < abs32 dy
      then let (x1, y1, x2, y2, dx, dy) =
             (if y1 > y2 then (x2, y2, x1, y1, wrap32 (- dx), wrap32 (- dy)) else (x1, y1, x2, y2, dx, dy))
           in if dy = 0 then Inl Div_by_zero
              else scan (rounds y1 y2) (\<lambda>y x. pixel fb x y colidx) y1 y2 (shl16 x1) (wrap32 (c_div (shl16 dx) dy)) mem
      else let (x1, y1, x2, y2, dx, dy) =
             (if x1 > x2 then (x2, y2, x1, y1, wrap32 (- dx), wrap32 (- dy)) else (x1, y1, x2, y2, dx, dy))
           in scan (rounds x1 x2) (\<lambda>x y. pixel fb x y colidx) x1 x2 (shl16 y1)
                (if dx \<noteq> 0 then wrap32 (c_div (shl16 dy) dx) else 0) mem)"

text \<open>A sequence of drawing steps.\<close>

fun draws :: "(u8 list \<Rightarrow> ts_fault + u8 list) list \<Rightarrow> u8 list \<Rightarrow> ts_fault + u8 list" where
  "draws [] mem = Inr mem"
| "draws (f # fs) mem = tbind (f mem) (draws fs)"

lemma draws_append: "draws (fs @ gs) mem = tbind (draws fs mem) (draws gs)"
proof (induction fs arbitrary: mem)
  case (Cons f fs)
  then show ?case by (cases "f mem") simp_all
qed simp

definition rect :: "fbinfo \<Rightarrow> int \<Rightarrow> int \<Rightarrow> int \<Rightarrow> int \<Rightarrow> u32 \<Rightarrow> u8 list \<Rightarrow> ts_fault + u8 list" where
  "rect fb x1 y1 x2 y2 colidx = draws
     [line fb x1 y1 x2 y1 colidx, line fb x2 y1 x2 y2 colidx, line fb x2 y2 x1 y2 colidx, line fb x1 y2 x1 y1 colidx]"

definition put_cross :: "fbinfo \<Rightarrow> int \<Rightarrow> int \<Rightarrow> u32 \<Rightarrow> u8 list \<Rightarrow> ts_fault + u8 list" where
  "put_cross fb x y colidx = (let ln = (\<lambda>a b c d. line fb (wrap32 a) (wrap32 b) (wrap32 c) (wrap32 d)) in draws
     [ln (x - 10) y (x - 2) y colidx, ln (x + 2) y (x + 10) y colidx,
      ln x (y - 10) x (y - 2) colidx, ln x (y + 2) x (y + 10) colidx,
      ln (x - 6) (y - 9) (x - 9) (y - 9) (colidx + 1), ln (x - 9) (y - 8) (x - 9) (y - 6) (colidx + 1),
      ln (x - 9) (y + 6) (x - 9) (y + 9) (colidx + 1), ln (x - 8) (y + 9) (x - 6) (y + 9) (colidx + 1),
      ln (x + 6) (y + 9) (x + 9) (y + 9) (colidx + 1), ln (x + 9) (y + 8) (x + 9) (y + 6) (colidx + 1),
      ln (x + 9) (y - 6) (x + 9) (y - 9) (colidx + 1), ln (x + 8) (y - 9) (x + 6) (y - 9) (colidx + 1)])"

subsection \<open>Rectangles\<close>

text \<open>Clipping of one coordinate: \<^verbatim>\<open>if (x < 0) x = 0; if ((__u32)x >= xres) x = xres - 1;\<close>\<close>

definition clip :: "u32 \<Rightarrow> int \<Rightarrow> int" where
  "clip res i = (let j = (if i < 0 then 0 else i) in if word_of_int j \<ge> res then sint (res - 1) else j)"

text \<open>The inner loop over a row, from address \<open>loc\<close> for \<open>k\<close> pixels, and the loop over \<open>rows\<close> rows from row \<open>y\<close>.\<close>

fun fill_row :: "fbinfo \<Rightarrow> u32 \<Rightarrow> u32 \<Rightarrow> int \<Rightarrow> nat \<Rightarrow> u8 list \<Rightarrow> ts_fault + u8 list" where
  "fill_row fb xormode color loc 0 mem = Inr mem"
| "fill_row fb xormode color loc (Suc k) mem =
     (if loc < 0 then Inl Out_of_bounds
      else tbind (setpixel fb (nat loc) xormode color mem) (fill_row fb xormode color (loc + int (bytes_per_pixel fb)) k))"

fun fill_rows :: "fbinfo \<Rightarrow> u32 \<Rightarrow> u32 \<Rightarrow> int \<Rightarrow> nat \<Rightarrow> int \<Rightarrow> nat \<Rightarrow> u8 list \<Rightarrow> ts_fault + u8 list" where
  "fill_rows fb xormode color x1 w y 0 mem = Inr mem"
| "fill_rows fb xormode color x1 w y (Suc k) mem =
     (if y < 0 then Inl Out_of_bounds
      else tbind (samp_get (line_addr fb) (nat y)) (\<lambda>addr.
        tbind (fill_row fb xormode color (uint addr + x1 * int (bytes_per_pixel fb)) w mem)
          (fill_rows fb xormode color x1 w (y + 1) k)))"

definition fillrect :: "fbinfo \<Rightarrow> int \<Rightarrow> int \<Rightarrow> int \<Rightarrow> int \<Rightarrow> u32 \<Rightarrow> u8 list \<Rightarrow> ts_fault + u8 list" where
  "fillrect fb x1 y1 x2 y2 colidx mem =
     (let (x1, x2) = (if x1 > x2 then (x2, x1) else (x1, x2));
          (y1, y2) = (if y1 > y2 then (y2, y1) else (y1, y2));
          x1 = clip (va_xres fb) x1; x2 = clip (va_xres fb) x2;
          y1 = clip (va_yres fb) y1; y2 = clip (va_yres fb) y2 in
      if x1 > x2 \<or> y1 > y2 then Inr mem
      else let xormode = colidx AND XORMODE; colidx = colidx AND NOT XORMODE in
        tbind (samp_get (colormap fb) (unat colidx)) (\<lambda>color.
          fill_rows fb xormode color x1 (nat (x2 - x1 + 1)) y1 (nat (y2 - y1 + 1)) mem))"

subsection \<open>Bytes\<close>

lemma length_le_bytes [simp]: "length (le_bytes n v) = n"
  by (simp add: le_bytes_def)

lemma le_bytes_xor: "le_bytes n (a XOR b) = map2 (XOR) (le_bytes n a) (le_bytes n b)"
proof -
  have "(ucast (drop_bit k (a XOR b)) :: u8) = ucast (drop_bit k a) XOR ucast (drop_bit k b)" for k
    by (rule bit_word_eqI) (auto simp: bit_simps)
  then show ?thesis by (intro nth_equalityI) (simp_all add: le_bytes_def)
qed

lemma bit_le_value: "bit (le_value bs) m \<longleftrightarrow> m < 32 \<and> m div 8 < length bs \<and> bit (bs ! (m div 8)) (m mod 8)"
proof (induction bs arbitrary: m)
  case (Cons b bs)
  show ?case
  proof (cases "m < 8")
    case True
    then show ?thesis by (simp add: bit_simps)
  next
    case False
    then obtain k where k: "m = 8 + k" using le_Suc_ex not_less by blast
    show ?thesis unfolding k
      using Cons.IH [of k] by (auto simp: bit_simps div_add1_eq [of 8 k] dest: bit_imp_le_length)
  qed
qed simp

lemma le_bytes_value: "length bs \<le> 4 \<Longrightarrow> le_bytes (length bs) (le_value bs) = bs"
proof (rule nth_equalityI)
  fix i assume "length bs \<le> 4" "i < length (le_bytes (length bs) (le_value bs))"
  then have i: "i < length bs" "i < 4" by simp_all
  show "le_bytes (length bs) (le_value bs) ! i = bs ! i"
    using i by (intro bit_word_eqI) (auto simp: le_bytes_def bit_simps bit_le_value)
qed simp

lemma access_width_le: "access_width n \<le> 4" "0 < n \<Longrightarrow> access_width n \<le> n" "0 < access_width n"
  by (simp_all add: access_width_def)

subsection \<open>A screen\<close>

text \<open>
  The geometry the drawing functions rely on, as \<^verbatim>\<open>open_framebuffer\<close> leaves it: a row holds its pixels, the
  mapping holds the rows, and the visible part lies in the virtual one.
\<close>

definition fb_ok :: "fbinfo \<Rightarrow> bool" where
  "fb_ok fb \<longleftrightarrow> length (colormap fb) = 256 \<and> 0 < bytes_per_pixel fb \<and>
     unat (va_xres_virtual fb) * bytes_per_pixel fb \<le> unat (fi_line_length fb) \<and>
     unat (va_yres_virtual fb) * unat (fi_line_length fb) \<le> unat (fi_smem_len fb) \<and>
     0 < va_xres fb \<and> 0 < va_yres fb \<and> unat (va_xres fb) < 2 ^ 31 \<and> unat (va_yres fb) < 2 ^ 31 \<and>
     va_xres fb \<le> va_xres_virtual fb \<and> va_yres fb \<le> va_yres_virtual fb \<and>
     line_addr fb = map (\<lambda>y. of_nat y * fi_line_length fb) [0..<unat (va_yres_virtual fb)]"

abbreviation fb_size :: "fbinfo \<Rightarrow> nat" where
  "fb_size fb \<equiv> unat (fi_smem_len fb)"

definition colour_ok :: "u32 \<Rightarrow> bool" where
  "colour_ok c \<longleftrightarrow> unat (c AND NOT XORMODE) < 256"

definition on_screen :: "fbinfo \<Rightarrow> int \<Rightarrow> int \<Rightarrow> bool" where
  "on_screen fb x y \<longleftrightarrow> 0 \<le> x \<and> x < uint (va_xres_virtual fb) \<and> 0 \<le> y \<and> y < uint (va_yres_virtual fb)"

definition pixel_addr :: "fbinfo \<Rightarrow> int \<Rightarrow> int \<Rightarrow> nat" where
  "pixel_addr fb x y = nat y * unat (fi_line_length fb) + nat x * bytes_per_pixel fb"

lemma on_screen_nat:
  assumes "on_screen fb x y"
  shows "nat x < unat (va_xres_virtual fb)" "nat y < unat (va_yres_virtual fb)"
proof -
  have "unat w = nat (uint w)" for w :: u32 by simp
  then show "nat x < unat (va_xres_virtual fb)" "nat y < unat (va_yres_virtual fb)"
    using assms by (simp_all only: on_screen_def zless_nat_conj nat_mono_iff simp_thms) linarith+
qed

lemma word_of_int_ge: "in_s32 i \<Longrightarrow> 0 \<le> i \<Longrightarrow> ((word_of_int i :: u32) \<ge> w) = (i \<ge> uint w)"
  by (simp add: word_le_def uint_word_of_int_eq take_bit_int_eq_self in_s32_def)

lemma unat_less_32: "unat (w :: u32) < 2 ^ 32"
  by (rule order_less_le_trans [OF unsigned_less]) simp

lemma row_fits:
  assumes "fb_ok fb" "y < unat (va_yres_virtual fb)"
  shows "y * unat (fi_line_length fb) + unat (fi_line_length fb) \<le> fb_size fb"
proof -
  have "Suc y * unat (fi_line_length fb) \<le> unat (va_yres_virtual fb) * unat (fi_line_length fb)"
    using assms(2) by (intro mult_right_mono) simp_all
  then show ?thesis using assms(1) by (simp add: fb_ok_def)
qed

lemma line_addr_nth:
  assumes "fb_ok fb" "y < unat (va_yres_virtual fb)"
  shows "y < length (line_addr fb)" "unat (line_addr fb ! y) = y * unat (fi_line_length fb)"
proof -
  have "y * unat (fi_line_length fb) < 2 ^ 32"
    using row_fits [OF assms] unat_less_32 [of "fi_smem_len fb"] by linarith
  then show "y < length (line_addr fb)" "unat (line_addr fb ! y) = y * unat (fi_line_length fb)"
    using assms by (simp_all add: fb_ok_def unat_word_ariths unat_of_nat mod_mult_left_eq)
qed

lemma pixel_in_row:
  assumes "fb_ok fb" "on_screen fb x y"
  shows "nat x * bytes_per_pixel fb + bytes_per_pixel fb \<le> unat (fi_line_length fb)"
proof -
  have "Suc (nat x) * bytes_per_pixel fb \<le> unat (va_xres_virtual fb) * bytes_per_pixel fb"
    using on_screen_nat(1) [OF assms(2)] by (intro mult_right_mono) simp_all
  then show ?thesis using assms(1) by (simp add: fb_ok_def)
qed

lemma pixel_fits:
  assumes "fb_ok fb" "on_screen fb x y"
  shows "pixel_addr fb x y + access_width (bytes_per_pixel fb) \<le> fb_size fb"
proof -
  from row_fits [OF assms(1) on_screen_nat(2) [OF assms(2)]] pixel_in_row [OF assms] access_width_le(2) [of "bytes_per_pixel fb"] assms(1)
  show ?thesis by (simp add: pixel_addr_def fb_ok_def)
qed

text \<open>What \<^verbatim>\<open>pixel\<close> does on a good screen.\<close>

lemma pixel_eq:
  assumes "fb_ok fb" "in_s32 x" "in_s32 y" "colour_ok c"
  shows "pixel fb x y c mem = (if on_screen fb x y
    then setpixel fb (pixel_addr fb x y) (c AND XORMODE) (colormap fb ! unat (c AND NOT XORMODE)) mem else Inr mem)"
proof -
  have off: "(x < 0 \<or> word_of_int x \<ge> va_xres_virtual fb \<or> y < 0 \<or> word_of_int y \<ge> va_yres_virtual fb) = (\<not> on_screen fb x y)"
    using assms(2,3) by (cases "x < 0"; cases "y < 0") (auto simp: on_screen_def word_of_int_ge)
  show ?thesis
  proof (cases "on_screen fb x y")
    case True
    note row = line_addr_nth [OF assms(1) on_screen_nat(2) [OF True]]
    have "unat (c AND NOT XORMODE) < length (colormap fb)" using assms(1,4) by (simp add: fb_ok_def colour_ok_def)
    with True row show ?thesis unfolding pixel_def off by (simp add: Let_def pixel_addr_def)
  qed (simp add: pixel_def off)
qed

subsection \<open>What holds for every drawing\<close>

text \<open>
  A property of single pixels that nothing and sequences keep holds for everything drawn from them. A
  coordinate is \<open>small\<close> when the differences of two such coordinates are integers of 32 bits.
\<close>

definition small :: "int \<Rightarrow> bool" where
  "small i \<longleftrightarrow> - 0x40000000 \<le> i \<and> i < 0x40000000"

lemma small_diff:
  assumes "small a" "small b"
  shows "wrap32 (b - a) = b - a" "wrap32 (- (b - a)) = - (b - a)" "abs32 (b - a) = \<bar>b - a\<bar>"
proof -
  have r: "- 0x80000000 < b - a" "b - a < 0x80000000" using assms by (simp_all add: small_def)
  then have "in_s32 (b - a)" "in_s32 (- (b - a))" "in_s32 \<bar>b - a\<bar>" unfolding in_s32_def by arith+
  then show "wrap32 (b - a) = b - a" "wrap32 (- (b - a)) = - (b - a)" "abs32 (b - a) = \<bar>b - a\<bar>"
    by (simp_all only: wrap32_id abs32_def)
qed

text \<open>The two loops of \<^verbatim>\<open>line\<close> from the end it starts at.\<close>

definition steep :: "fbinfo \<Rightarrow> int \<Rightarrow> int \<Rightarrow> int \<Rightarrow> int \<Rightarrow> u32 \<Rightarrow> u8 list \<Rightarrow> ts_fault + u8 list" where
  "steep fb x1 y1 x2 y2 c = scan (rounds y1 y2) (\<lambda>y x. pixel fb x y c) y1 y2 (shl16 x1)
     (wrap32 (c_div (shl16 (x2 - x1)) (y2 - y1)))"

definition flat :: "fbinfo \<Rightarrow> int \<Rightarrow> int \<Rightarrow> int \<Rightarrow> int \<Rightarrow> u32 \<Rightarrow> u8 list \<Rightarrow> ts_fault + u8 list" where
  "flat fb x1 y1 x2 y2 c = scan (rounds x1 x2) (\<lambda>x y. pixel fb x y c) x1 x2 (shl16 y1)
     (if x1 \<noteq> x2 then wrap32 (c_div (shl16 (y2 - y1)) (x2 - x1)) else 0)"

lemma line_small:
  assumes "small x1" "small y1" "small x2" "small y2"
  shows "line fb x1 y1 x2 y2 c = (if \<bar>x2 - x1\<bar> < \<bar>y2 - y1\<bar>
    then (if y1 > y2 then steep fb x2 y2 x1 y1 c else steep fb x1 y1 x2 y2 c)
    else (if x1 > x2 then flat fb x2 y2 x1 y1 c else flat fb x1 y1 x2 y2 c))"
proof (rule ext)
  fix mem
  define dx dy where "dx = x2 - x1" and "dy = y2 - y1"
  have dx: "x1 - x2 = - dx" "x2 - x1 = dx" "(x1 \<noteq> x2) = (dx \<noteq> 0)" "(x2 \<noteq> x1) = (dx \<noteq> 0)" by (auto simp: dx_def)
  have dy: "y1 - y2 = - dy" "y2 - y1 = dy" by (simp_all add: dy_def)
  note w = small_diff [OF assms(1,3), folded dx_def] small_diff [OF assms(2,4), folded dy_def]
  show "line fb x1 y1 x2 y2 c mem = (if \<bar>x2 - x1\<bar> < \<bar>y2 - y1\<bar>
    then (if y1 > y2 then steep fb x2 y2 x1 y1 c else steep fb x1 y1 x2 y2 c)
    else (if x1 > x2 then flat fb x2 y2 x1 y1 c else flat fb x1 y1 x2 y2 c)) mem"
    unfolding line_def steep_def flat_def dx dy by (auto simp: Let_def w)
qed

locale drawing =
  fixes fb :: fbinfo and P :: "(u8 list \<Rightarrow> ts_fault + u8 list) \<Rightarrow> bool" and good :: "u32 \<Rightarrow> bool"
  assumes P_nothing: "P Inr"
    and P_then: "P f \<Longrightarrow> P g \<Longrightarrow> P (\<lambda>mem. tbind (f mem) g)"
    and P_pixel: "in_s32 x \<Longrightarrow> in_s32 y \<Longrightarrow> good c \<Longrightarrow> P (pixel fb x y c)"
begin

lemma P_draws: "\<forall>f \<in> set fs. P f \<Longrightarrow> P (draws fs)"
proof (induction fs)
  case Nil
  have "draws [] = (Inr :: u8 list \<Rightarrow> ts_fault + u8 list)" by (rule ext) simp
  then show ?case using P_nothing by simp
next
  case (Cons f fs)
  have "draws (f # fs) = (\<lambda>mem. tbind (f mem) (draws fs))" by (rule ext) simp
  then show ?case using Cons P_then by simp
qed

lemma P_scan:
  assumes "\<And>i acc. in_s32 i \<Longrightarrow> in_s32 acc \<Longrightarrow> P (plot i acc)"
  shows "in_s32 i \<Longrightarrow> in_s32 acc \<Longrightarrow> lim < 0x7fffffff \<Longrightarrow> 0 < n \<Longrightarrow> lim - i + 1 < int n \<Longrightarrow> P (scan n plot i lim acc d)"
proof (induction n arbitrary: i acc)
  case (Suc n)
  show ?case
  proof (cases "i \<le> lim")
    case True
    have eq: "scan (Suc n) plot i lim acc d = (\<lambda>mem. tbind (plot i (drop_bit 16 acc) mem)
        (\<lambda>mem'. scan n plot (wrap32 (i + 1)) lim (wrap32 (acc + d)) d mem'))" using True by (intro ext) simp
    have s32: "in_s32 (i + 1)" using Suc.prems True by (simp add: in_s32_def)
    then have i: "wrap32 (i + 1) = i + 1" by simp
    have "in_s32 (drop_bit 16 acc)" using Suc.prems(2) by (auto simp: in_s32_def drop_bit_eq_div)
    then have "P (plot i (drop_bit 16 acc))" using assms Suc.prems(1) by blast
    moreover have "P (scan n plot (wrap32 (i + 1)) lim (wrap32 (acc + d)) d)"
      using Suc.prems True by (intro Suc.IH) (simp_all add: i s32)
    ultimately show ?thesis unfolding eq by (intro P_then) simp_all
  next
    case False
    then have "scan (Suc n) plot i lim acc d = Inr" by (intro ext) simp
    then show ?thesis using P_nothing by simp
  qed
qed simp

lemma P_line:
  assumes "small x1" "small y1" "small x2" "small y2" "good c"
  shows "P (line fb x1 y1 x2 y2 c)"
proof -
  have "P (flat fb a b a' b' c)" if "small a" "small a'" "a \<le> a'" for a b a' b'
    unfolding flat_def using that assms(5)
    by (intro P_scan) (auto simp: P_pixel small_def in_s32_def [of a] rounds_def shl16_def)
  moreover have "P (steep fb a b a' b' c)" if "small b" "small b'" "b \<le> b'" for a b a' b'
    unfolding steep_def using that assms(5)
    by (intro P_scan) (auto simp: P_pixel small_def in_s32_def [of b] rounds_def shl16_def)
  ultimately show ?thesis using assms by (simp add: line_small)
qed

lemma P_rect: "small x1 \<Longrightarrow> small y1 \<Longrightarrow> small x2 \<Longrightarrow> small y2 \<Longrightarrow> good c \<Longrightarrow> P (rect fb x1 y1 x2 y2 c)"
  unfolding rect_def by (intro P_draws) (simp add: P_line)

lemma P_put_cross:
  assumes "- 0x3ffffff0 \<le> x" "x < 0x3ffffff0" "- 0x3ffffff0 \<le> y" "y < 0x3ffffff0" "good c" "good (c + 1)"
  shows "P (put_cross fb x y c)"
proof -
  have "small (wrap32 (x + a))" "small (wrap32 (y + a))" if "- 10 \<le> a" "a \<le> 10" for a
    using assms that by (simp_all add: small_def in_s32_def)
  note sm = this [of "- 10"] this [of "- 9"] this [of "- 8"] this [of "- 6"] this [of "- 2"] this [of 0]
    this [of 2] this [of 6] this [of 8] this [of 9] this [of 10]
  show ?thesis unfolding put_cross_def Let_def
    by (intro P_draws) (use sm assms(5,6) in \<open>simp add: P_line\<close>)
qed

end

subsection \<open>Drawing stays inside the mapping\<close>

definition stays_inside :: "nat \<Rightarrow> (u8 list \<Rightarrow> ts_fault + u8 list) \<Rightarrow> bool" where
  "stays_inside n f \<longleftrightarrow> (\<forall>mem. length mem = n \<longrightarrow> (\<exists>mem'. f mem = Inr mem' \<and> length mem' = n))"

lemma mem_put_inside: "a + n \<le> L \<Longrightarrow> stays_inside L (mem_put n a v)"
  by (simp add: stays_inside_def mem_put_def)

lemma setpixel_inside: "a + access_width (bytes_per_pixel fb) \<le> L \<Longrightarrow> stays_inside L (setpixel fb a xm color)"
  by (simp add: stays_inside_def setpixel_def mem_get_def mem_put_def Let_def)

lemma pixel_inside:
  "fb_ok fb \<Longrightarrow> in_s32 x \<Longrightarrow> in_s32 y \<Longrightarrow> colour_ok c \<Longrightarrow> stays_inside (fb_size fb) (pixel fb x y c)"
  using setpixel_inside pixel_fits unfolding stays_inside_def by (simp add: pixel_eq)

interpretation inside: drawing fb "\<lambda>f. fb_ok fb \<longrightarrow> stays_inside (fb_size fb) f" colour_ok for fb
proof unfold_locales
  fix f g assume "fb_ok fb \<longrightarrow> stays_inside (fb_size fb) f" "fb_ok fb \<longrightarrow> stays_inside (fb_size fb) g"
  then show "fb_ok fb \<longrightarrow> stays_inside (fb_size fb) (\<lambda>mem. tbind (f mem) g)"
    unfolding stays_inside_def by (metis tbind_simps(2))
qed (simp_all add: stays_inside_def [of _ Inr] pixel_inside)

subsection \<open>Drawing twice in exclusive-or mode\<close>

definition xors :: "nat \<Rightarrow> (u8 list \<Rightarrow> ts_fault + u8 list) \<Rightarrow> bool" where
  "xors n f \<longleftrightarrow> (\<exists>mask. length mask = n \<and> (\<forall>mem. length mem = n \<longrightarrow> f mem = Inr (map2 (XOR) mem mask)))"

lemma xors_nothing: "xors n Inr"
  unfolding xors_def
  by (rule exI [of _ "replicate n 0"]) (auto intro!: nth_equalityI)

lemma xors_then: "xors n f \<Longrightarrow> xors n g \<Longrightarrow> xors n (\<lambda>mem. tbind (f mem) g)"
proof -
  assume "xors n f" "xors n g"
  then obtain a b where a: "length a = n" "\<And>mem. length mem = n \<Longrightarrow> f mem = Inr (map2 (XOR) mem a)"
    and b: "length b = n" "\<And>mem. length mem = n \<Longrightarrow> g mem = Inr (map2 (XOR) mem b)"
    unfolding xors_def by metis
  have "map2 (XOR) (map2 (XOR) mem a) b = map2 (XOR) mem (map2 (XOR) a b)" if "length mem = n" for mem
    using that a(1) b(1) by (auto intro!: nth_equalityI simp: xor.assoc)
  then show ?thesis unfolding xors_def
    using a b by (intro exI [of _ "map2 (XOR) a b"]) simp
qed

lemma xors_twice: "xors n f \<Longrightarrow> length mem = n \<Longrightarrow> tbind (f mem) f = Inr mem"
proof -
  assume "xors n f" and len: "length mem = n"
  then obtain a where a: "length a = n" "\<And>mem. length mem = n \<Longrightarrow> f mem = Inr (map2 (XOR) mem a)"
    unfolding xors_def by blast
  have "map2 (XOR) (map2 (XOR) mem a) a = mem"
    using len a(1) by (intro nth_equalityI) (simp_all add: xor.assoc)
  then show ?thesis using a len by simp
qed

lemma xors_setpixel:
  assumes "a + access_width (bytes_per_pixel fb) \<le> n" "xm \<noteq> 0"
  shows "xors n (setpixel fb a xm color)"
proof -
  let ?w = "access_width (bytes_per_pixel fb)"
  let ?mask = "replicate a 0 @ le_bytes ?w color @ replicate (n - (a + ?w)) 0"
  have "setpixel fb a xm color mem = Inr (map2 (XOR) mem ?mask)" if len: "length mem = n" for mem
  proof -
    define mid where "mid = take ?w (drop a mem)"
    have mid: "length mid = ?w" using assms(1) len by (simp add: mid_def)
    have old: "le_bytes ?w (le_value mid) = mid"
      using le_bytes_value [of mid] access_width_le(1) mid by simp
    have split: "mem = take a mem @ mid @ drop (a + ?w) mem"
      unfolding mid_def by (metis append_take_drop_id drop_drop add.commute)
    have "map2 (XOR) mem ?mask = map2 (XOR) (take a mem @ mid @ drop (a + ?w) mem) ?mask" using split by simp
    also have "\<dots> = map2 (XOR) (take a mem) (replicate a 0) @ map2 (XOR) mid (le_bytes ?w color) @
        map2 (XOR) (drop (a + ?w) mem) (replicate (n - (a + ?w)) 0)"
      using assms(1) len mid by simp
    also have "\<dots> = take a mem @ map2 (XOR) mid (le_bytes ?w color) @ drop (a + ?w) mem"
      using assms(1) len by (auto intro!: nth_equalityI)
    finally show ?thesis
      using assms len by (simp add: setpixel_def mem_get_def mem_put_def Let_def le_bytes_xor old mid_def [symmetric])
  qed
  then show ?thesis unfolding xors_def using assms(1) by (intro exI [of _ ?mask]) simp
qed

definition xor_colour :: "u32 \<Rightarrow> bool" where
  "xor_colour c \<longleftrightarrow> colour_ok c \<and> c AND XORMODE \<noteq> 0"

interpretation xoring: drawing fb "\<lambda>f. fb_ok fb \<longrightarrow> xors (fb_size fb) f" xor_colour for fb
proof unfold_locales
  fix x y c assume a: "in_s32 x" "in_s32 y" "xor_colour c"
  show "fb_ok fb \<longrightarrow> xors (fb_size fb) (pixel fb x y c)"
  proof
    assume ok: "fb_ok fb"
    then have "pixel fb x y c = (if on_screen fb x y
        then setpixel fb (pixel_addr fb x y) (c AND XORMODE) (colormap fb ! unat (c AND NOT XORMODE)) else Inr)"
      using a by (intro ext) (simp add: pixel_eq xor_colour_def)
    with ok a(3) show "xors (fb_size fb) (pixel fb x y c)"
      by (simp add: xors_nothing xors_setpixel pixel_fits xor_colour_def)
  qed
qed (simp_all add: xors_nothing xors_then)

lemma bit_XORMODE: "bit XORMODE k \<longleftrightarrow> k = 31"
proof -
  have "bit XORMODE k = bit (2 ^ 31 :: u32) k" by (simp add: XORMODE_def)
  also have "\<dots> \<longleftrightarrow> k = 31" unfolding bit_exp_iff by auto
  finally show ?thesis .
qed

lemma XORMODE_index:
  assumes "d < (256 :: u32)"
  shows "(d OR XORMODE) AND NOT XORMODE = d" "(d OR XORMODE) AND XORMODE = XORMODE" "d OR XORMODE = d + XORMODE"
proof -
  have "take_bit 8 d = d" using assms by (simp add: take_bit_eq_mod word_less_nat_alt mod_word_less)
  then have d: "\<not> bit d k" if "8 \<le> k" for k using that by (metis bit_take_bit_iff not_le)
  show "(d OR XORMODE) AND NOT XORMODE = d" "(d OR XORMODE) AND XORMODE = XORMODE"
    using d by (auto intro!: bit_word_eqI simp: bit_simps bit_XORMODE)
  have "d AND XORMODE = 0" using d by (auto intro!: bit_word_eqI simp: bit_simps bit_XORMODE)
  then show "d OR XORMODE = d + XORMODE" by (simp add: disjunctive_add_eq_or)
qed

lemma xor_colours:
  assumes "c < (255 :: u32)"
  shows "xor_colour (c OR XORMODE)" "xor_colour ((c OR XORMODE) + 1)"
proof -
  have ok: "xor_colour (d OR XORMODE)" if "d < 256" for d
    using that unfolding xor_colour_def colour_ok_def XORMODE_index(1,2) [OF that]
    by (simp add: XORMODE_def word_less_nat_alt)
  have "c < 256" "c + 1 < 256" using assms by (simp_all add: word_less_nat_alt unat_word_ariths)
  moreover have "(c OR XORMODE) + 1 = (c + 1) OR XORMODE"
    using calculation by (simp add: XORMODE_index(3))
  ultimately show "xor_colour (c OR XORMODE)" "xor_colour ((c OR XORMODE) + 1)" using ok by simp_all
qed

definition near_screen :: "int \<Rightarrow> bool" where
  "near_screen i \<longleftrightarrow> - 0x3ffffff0 \<le> i \<and> i < 0x3ffffff0"

lemma cross_twice:
  assumes "fb_ok fb" "length mem = fb_size fb" "near_screen x" "near_screen y"
  obtains mem1 where "put_cross fb x y (2 OR XORMODE) mem = Inr mem1" "put_cross fb x y (2 OR XORMODE) mem1 = Inr mem"
proof -
  have c: "xor_colour (2 OR XORMODE)" "xor_colour ((2 OR XORMODE) + 1)" using xor_colours [of 2] by simp_all
  have "xors (fb_size fb) (put_cross fb x y (2 OR XORMODE))"
    using xoring.P_put_cross [OF _ _ _ _ c] assms unfolding near_screen_def by blast
  from xors_twice [OF this assms(2)] that show thesis by (auto simp: tbind_Inr)
qed

text \<open>
  C35. The promise of \<^verbatim>\<open>fbutils.h\<close>: drawing the same line, rectangle or cross a second time in exclusive-or mode
  leaves the background intact, at every position, on or off the screen, and for every pixel depth.
\<close>

theorem xormode_restores:
  assumes "fb_ok fb" "length mem = fb_size fb" "c < 255"
    and "- 0x3ffffff0 \<le> x" "x < 0x3ffffff0" "- 0x3ffffff0 \<le> y" "y < 0x3ffffff0" "small x2" "small y2"
  shows "tbind (put_cross fb x y (c OR XORMODE) mem) (put_cross fb x y (c OR XORMODE)) = Inr mem \<and>
    tbind (line fb x y x2 y2 (c OR XORMODE) mem) (line fb x y x2 y2 (c OR XORMODE)) = Inr mem \<and>
    tbind (rect fb x y x2 y2 (c OR XORMODE) mem) (rect fb x y x2 y2 (c OR XORMODE)) = Inr mem"
proof -
  have c: "xor_colour (c OR XORMODE)" "xor_colour ((c OR XORMODE) + 1)"
    using xor_colours [OF assms(3)] by simp_all
  have sm: "small x" "small y" using assms by (simp_all add: small_def)
  show ?thesis
    using xoring.P_put_cross [OF assms(4-7) c] xoring.P_line [OF sm assms(8,9) c(1)] xoring.P_rect [OF sm assms(8,9) c(1)]
      assms(1) xors_twice [OF _ assms(2)] by blast
qed

subsection \<open>Which pixels a line has\<close>

text \<open>
  The other coordinate after \<open>k\<close> of \<open>n\<close> steps from \<open>m\<close> by \<open>delta\<close>, in fixed point, and the points of a line, for
  coordinates whose fixed-point values fit into 32 bits.
\<close>

definition minor :: "int \<Rightarrow> int \<Rightarrow> int \<Rightarrow> int \<Rightarrow> int" where
  "minor m delta n k = (65536 * m + k * c_div (65536 * delta) n) div 65536"

definition steep_points :: "int \<Rightarrow> int \<Rightarrow> int \<Rightarrow> int \<Rightarrow> (int \<times> int) list" where
  "steep_points x1 y1 x2 y2 = map (\<lambda>k. (minor x1 (x2 - x1) (y2 - y1) (int k), y1 + int k)) [0..<nat (y2 - y1 + 1)]"

definition flat_points :: "int \<Rightarrow> int \<Rightarrow> int \<Rightarrow> int \<Rightarrow> (int \<times> int) list" where
  "flat_points x1 y1 x2 y2 = map (\<lambda>k. (x1 + int k, minor y1 (y2 - y1) (x2 - x1) (int k))) [0..<nat (x2 - x1 + 1)]"

definition line_points :: "int \<Rightarrow> int \<Rightarrow> int \<Rightarrow> int \<Rightarrow> (int \<times> int) list" where
  "line_points x1 y1 x2 y2 = (if \<bar>x2 - x1\<bar> < \<bar>y2 - y1\<bar>
    then (if y1 > y2 then steep_points x2 y2 x1 y1 else steep_points x1 y1 x2 y2)
    else (if x1 > x2 then flat_points x2 y2 x1 y1 else flat_points x1 y1 x2 y2))"

definition tiny :: "int \<Rightarrow> bool" where
  "tiny i \<longleftrightarrow> - 0x4000 \<le> i \<and> i < 0x4000"

lemma tiny_small: "tiny i \<Longrightarrow> small i"
  by (simp add: tiny_def small_def)

lemma shl16_tiny: "- 0x8000 \<le> i \<Longrightarrow> i < 0x8000 \<Longrightarrow> shl16 i = 65536 * i"
  by (simp add: shl16_def push_bit_eq_mult in_s32_def)

lemma c_div_bounds:
  assumes "0 < n"
  shows "0 \<le> a \<Longrightarrow> a - n < c_div a n * n \<and> c_div a n * n \<le> a \<and> 0 \<le> c_div a n"
    and "a \<le> 0 \<Longrightarrow> a \<le> c_div a n * n \<and> c_div a n * n < a + n \<and> c_div a n \<le> 0"
proof -
  have d: "b - n < b div n * n \<and> b div n * n \<le> b" for b
    using assms by (simp add: minus_mod_eq_div_mult [symmetric])
  show "0 \<le> a \<Longrightarrow> a - n < c_div a n * n \<and> c_div a n * n \<le> a \<and> 0 \<le> c_div a n"
    using assms d [of a] by (simp add: c_div_nonneg pos_imp_zdiv_nonneg_iff)
  assume a: "a \<le> 0"
  then have "c_div a n = - (- a div n)" using assms by (auto simp: c_div_def sgn_if)
  then show "a \<le> c_div a n * n \<and> c_div a n * n < a + n \<and> c_div a n \<le> 0"
    using assms a d [of "- a"] by (simp add: pos_imp_zdiv_nonneg_iff)
qed

text \<open>The fixed-point value stays between the two ends, so that it never leaves 32 bits.\<close>

lemma minor_between:
  assumes "0 \<le> k" "k \<le> n" "0 < n"
  shows "min 0 (65536 * delta) \<le> k * c_div (65536 * delta) n \<and> k * c_div (65536 * delta) n \<le> max 0 (65536 * delta)"
proof (cases "0 \<le> delta")
  case True
  let ?d = "c_div (65536 * delta) n"
  from True c_div_bounds(1) [OF assms(3), of "65536 * delta"] have d: "?d * n \<le> 65536 * delta" "0 \<le> ?d" by simp_all
  then have "k * ?d \<le> n * ?d" using assms by (intro mult_right_mono) simp_all
  then have "k * ?d \<le> 65536 * delta" using d(1) by (simp add: mult.commute)
  moreover have "0 \<le> k * ?d" using assms(1) d(2) by simp
  ultimately show ?thesis using True by simp
next
  case False
  let ?d = "c_div (65536 * delta) n"
  from False c_div_bounds(2) [OF assms(3), of "65536 * delta"] have d: "65536 * delta \<le> ?d * n" "?d \<le> 0" by simp_all
  then have "n * ?d \<le> k * ?d" using assms by (intro mult_right_mono_neg) simp_all
  then have "65536 * delta \<le> k * ?d" using d(1) by (simp add: mult.commute)
  moreover have "k * ?d \<le> 0" using assms(1) d(2) by (simp add: mult_nonneg_nonpos)
  ultimately show ?thesis using False by simp
qed

lemma scan_draws:
  assumes "in_s32 i" "lim < 0x7fffffff" "lim - i + 1 < int n" "i \<le> lim + 1"
    and "\<And>k. 0 \<le> k \<Longrightarrow> k \<le> lim - i \<Longrightarrow> in_s32 (acc + k * d)"
  shows "scan n plot i lim acc d mem =
    draws (map (\<lambda>k. plot (i + int k) ((acc + int k * d) div 65536)) [0..<nat (lim - i + 1)]) mem"
  using assms
proof (induction n arbitrary: i acc mem)
  case (Suc n)
  show ?case
  proof (cases "i \<le> lim")
    case True
    have s32: "in_s32 (i + 1)" using Suc.prems True by (simp add: in_s32_def)
    have len: "nat (lim - i + 1) = Suc (nat (lim - (i + 1) + 1))" using True by simp
    have rest: "scan n plot (i + 1) lim (wrap32 (acc + d)) d =
        draws (map (\<lambda>k. plot (i + 1 + int k) ((acc + d + int k * d) div 65536)) [0..<nat (lim - (i + 1) + 1)])"
    proof (cases "i = lim")
      case True
      then show ?thesis using Suc.prems(3) by (cases n) (simp_all add: fun_eq_iff)
    next
      case False
      then have "in_s32 (acc + d)" using Suc.prems(5) [of 1] True by simp
      moreover have "in_s32 (acc + d + k * d)" if "0 \<le> k" "k \<le> lim - (i + 1)" for k
        using Suc.prems(5) [of "k + 1"] that by (simp add: algebra_simps)
      ultimately show ?thesis using Suc.IH [of "i + 1" "acc + d"] s32 Suc.prems(2,3) True by (intro ext) simp
    qed
    have "in_s32 acc" using Suc.prems(5) [of 0] True by simp
    then show ?thesis unfolding len upt_conv_Cons [OF zero_less_Suc] map_Suc_upt [symmetric]
      using True s32 rest by (simp add: drop_bit_eq_div comp_def algebra_simps)
  qed simp
qed simp

lemma steep_draws:
  assumes "tiny x1" "tiny y1" "tiny x2" "tiny y2" "y1 \<le> y2" "\<bar>x2 - x1\<bar> < \<bar>y2 - y1\<bar>"
  shows "steep fb x1 y1 x2 y2 c mem = draws (map (\<lambda>(x, y). pixel fb x y c) (steep_points x1 y1 x2 y2)) mem"
proof -
  let ?d = "c_div (65536 * (x2 - x1)) (y2 - y1)"
  have n: "0 < y2 - y1" using assms by linarith
  have sh: "shl16 x1 = 65536 * x1" "shl16 (x2 - x1) = 65536 * (x2 - x1)"
    using assms by (simp_all add: tiny_def shl16_tiny)
  note bet = minor_between [OF _ _ n, of _ "x2 - x1"]
  have d: "wrap32 ?d = ?d" using bet [of 1] n assms by (intro wrap32_id) (auto simp: in_s32_def tiny_def)
  have "in_s32 (65536 * x1 + k * ?d)" if "0 \<le> k" "k \<le> y2 - y1" for k
    using bet [OF that] assms by (auto simp: in_s32_def tiny_def min_def max_def split: if_splits)
  moreover have "in_s32 y1" using assms by (simp add: tiny_def in_s32_def)
  ultimately show ?thesis
    unfolding steep_def sh d steep_points_def
    using assms by (subst scan_draws) (auto simp: rounds_def tiny_def minor_def comp_def)
qed

lemma flat_draws:
  assumes "tiny x1" "tiny y1" "tiny x2" "tiny y2" "x1 \<le> x2"
  shows "flat fb x1 y1 x2 y2 c mem = draws (map (\<lambda>(x, y). pixel fb x y c) (flat_points x1 y1 x2 y2)) mem"
proof -
  let ?d = "c_div (65536 * (y2 - y1)) (x2 - x1)"
  have sh: "shl16 y1 = 65536 * y1" "shl16 (y2 - y1) = 65536 * (y2 - y1)"
    using assms by (simp_all add: tiny_def shl16_tiny)
  have bet: "min 0 (65536 * (y2 - y1)) \<le> k * ?d \<and> k * ?d \<le> max 0 (65536 * (y2 - y1))"
    if "0 \<le> k" "k \<le> x2 - x1 \<or> x1 = x2" for k
    using that assms(5) minor_between [of k "x2 - x1" "y2 - y1"] by (cases "x1 = x2") (auto simp: c_div_def)
  have d: "(if x1 \<noteq> x2 then wrap32 ?d else 0) = ?d"
    using bet [of 1] assms by (auto simp: c_div_def in_s32_def tiny_def intro!: wrap32_id)
  have "in_s32 (65536 * y1 + k * ?d)" if "0 \<le> k" "k \<le> x2 - x1" for k
    using bet [of k] that assms by (auto simp: in_s32_def tiny_def min_def max_def split: if_splits)
  moreover have "in_s32 x1" using assms by (simp add: tiny_def in_s32_def)
  ultimately show ?thesis
    unfolding flat_def sh d flat_points_def
    using assms by (subst scan_draws) (auto simp: rounds_def tiny_def minor_def comp_def)
qed

lemma line_draws:
  assumes "tiny x1" "tiny y1" "tiny x2" "tiny y2"
  shows "line fb x1 y1 x2 y2 c mem = draws (map (\<lambda>(x, y). pixel fb x y c) (line_points x1 y1 x2 y2)) mem"
  using assms by (simp add: line_small tiny_small line_points_def steep_draws flat_draws abs_minus_commute)

text \<open>How far a step of \<^const>\<open>minor\<close> is from the exact line, in units of \<open>1 / n\<close> pixels.\<close>

lemma minor_error:
  assumes "0 \<le> k" "k \<le> n" "0 < n" "n < 0x8000"
  shows "- 3 * n < 2 * ((minor m delta n k - m) * n - k * delta)" "2 * ((minor m delta n k - m) * n - k * delta) < n"
proof -
  let ?d = "c_div (65536 * delta) n"
  define q where "q = minor m delta n k - m"
  define e where "e = ?d * n - 65536 * delta"
  have e: "- n < e" "e < n"
    using c_div_bounds [OF assms(3), of "65536 * delta"] assms(3) unfolding e_def by (cases "0 \<le> delta"; simp)+
  have "65536 * q = k * ?d - (65536 * m + k * ?d) mod 65536"
    by (simp add: q_def minor_def minus_mod_eq_mult_div [symmetric] right_diff_distrib)
  then have q: "k * ?d - 65536 < 65536 * q" "65536 * q \<le> k * ?d" by simp_all
  have "65536 * q * n \<le> k * ?d * n" using q(2) assms(3) by (intro mult_right_mono) simp_all
  then have hi: "65536 * (q * n - k * delta) \<le> k * e" by (simp add: e_def algebra_simps)
  have "(k * ?d - 65536) * n < 65536 * q * n" using q(1) assms(3) by (intro mult_strict_right_mono)
  then have lo: "k * e - 65536 * n < 65536 * (q * n - k * delta)" by (simp add: e_def algebra_simps)
  have ke: "\<bar>k * e\<bar> < 0x8000 * n"
  proof -
    have "\<bar>k * e\<bar> = k * \<bar>e\<bar>" using assms(1) by (simp add: abs_mult)
    also have "\<dots> \<le> k * n" using e assms(1) by (intro mult_left_mono) simp_all
    also have "\<dots> < 0x8000 * n" using assms by (intro mult_strict_right_mono) simp_all
    finally show ?thesis .
  qed
  show "- 3 * n < 2 * ((minor m delta n k - m) * n - k * delta)" "2 * ((minor m delta n k - m) * n - k * delta) < n"
    unfolding q_def [symmetric] using lo hi ke by linarith+
qed

lemma line_symmetric:
  assumes "small x1" "small y1" "small x2" "small y2"
  shows "line fb x2 y2 x1 y1 c = line fb x1 y1 x2 y2 c"
  using assms by (auto simp: line_small abs_minus_commute)

lemma flat_points_near:
  assumes "tiny x1" "tiny x2" "x1 < x2" "(x, y) \<in> set (flat_points x1 y1 x2 y2)"
  shows "- 3 * (x2 - x1) < 2 * ((y - y1) * (x2 - x1) - (x - x1) * (y2 - y1))"
    and "2 * ((y - y1) * (x2 - x1) - (x - x1) * (y2 - y1)) < x2 - x1"
proof -
  obtain k where k: "k < nat (x2 - x1 + 1)" "x - x1 = int k" "y = minor y1 (y2 - y1) (x2 - x1) (int k)"
    using assms(4) by (auto simp: flat_points_def)
  have "0 \<le> int k" "int k \<le> x2 - x1" "0 < x2 - x1" "x2 - x1 < 0x8000" using k(1) assms(1-3) by (auto simp: tiny_def)
  from minor_error [OF this, of y1 "y2 - y1"]
  show "- 3 * (x2 - x1) < 2 * ((y - y1) * (x2 - x1) - (x - x1) * (y2 - y1))"
    "2 * ((y - y1) * (x2 - x1) - (x - x1) * (y2 - y1)) < x2 - x1" unfolding k(2,3) by simp_all
qed

lemma steep_flat: "steep_points x1 y1 x2 y2 = map prod.swap (flat_points y1 x1 y2 x2)"
  by (simp add: steep_points_def flat_points_def)

lemma flat_columns: "x1 \<le> x2 \<Longrightarrow> map fst (flat_points x1 y1 x2 y2) = [x1..x2]"
  by (intro nth_equalityI) (simp_all add: flat_points_def nth_upto)

text \<open>
  C36. \<^verbatim>\<open>line\<close> draws one pixel in every column, or in every row when the line is steep, and in no other place:
  each pixel lies less than half a pixel on the one side and less than one and a half on the other of
  the exact line between the two points. The fixed-point coordinates never overflow, and a line drawn
  from its other end is the same line.
\<close>

theorem line_accurate:
  assumes "tiny x1" "tiny y1" "tiny x2" "tiny y2"
  shows "line fb x1 y1 x2 y2 c mem = draws (map (\<lambda>(x, y). pixel fb x y c) (line_points x1 y1 x2 y2)) mem \<and>
    line fb x2 y2 x1 y1 c mem = line fb x1 y1 x2 y2 c mem \<and>
    (x1 < x2 \<and> \<bar>y2 - y1\<bar> \<le> x2 - x1 \<longrightarrow> map fst (line_points x1 y1 x2 y2) = [x1..x2] \<and>
      (\<forall>(x, y) \<in> set (line_points x1 y1 x2 y2).
        - 3 * (x2 - x1) < 2 * ((y - y1) * (x2 - x1) - (x - x1) * (y2 - y1)) \<and>
        2 * ((y - y1) * (x2 - x1) - (x - x1) * (y2 - y1)) < x2 - x1)) \<and>
    (y1 < y2 \<and> \<bar>x2 - x1\<bar> < y2 - y1 \<longrightarrow> map snd (line_points x1 y1 x2 y2) = [y1..y2] \<and>
      (\<forall>(x, y) \<in> set (line_points x1 y1 x2 y2).
        - 3 * (y2 - y1) < 2 * ((x - x1) * (y2 - y1) - (y - y1) * (x2 - x1)) \<and>
        2 * ((x - x1) * (y2 - y1) - (y - y1) * (x2 - x1)) < y2 - y1))"
proof (intro conjI)
  show "line fb x1 y1 x2 y2 c mem = draws (map (\<lambda>(x, y). pixel fb x y c) (line_points x1 y1 x2 y2)) mem"
    using assms by (rule line_draws)
  show "line fb x2 y2 x1 y1 c mem = line fb x1 y1 x2 y2 c mem"
    using assms by (simp add: line_symmetric tiny_small)
  show "x1 < x2 \<and> \<bar>y2 - y1\<bar> \<le> x2 - x1 \<longrightarrow> map fst (line_points x1 y1 x2 y2) = [x1..x2] \<and>
      (\<forall>(x, y) \<in> set (line_points x1 y1 x2 y2).
        - 3 * (x2 - x1) < 2 * ((y - y1) * (x2 - x1) - (x - x1) * (y2 - y1)) \<and>
        2 * ((y - y1) * (x2 - x1) - (x - x1) * (y2 - y1)) < x2 - x1)"
    using flat_points_near [OF assms(1,3)] by (auto simp: line_points_def flat_columns)
  show "y1 < y2 \<and> \<bar>x2 - x1\<bar> < y2 - y1 \<longrightarrow> map snd (line_points x1 y1 x2 y2) = [y1..y2] \<and>
      (\<forall>(x, y) \<in> set (line_points x1 y1 x2 y2).
        - 3 * (y2 - y1) < 2 * ((x - x1) * (y2 - y1) - (y - y1) * (x2 - x1)) \<and>
        2 * ((x - x1) * (y2 - y1) - (y - y1) * (x2 - x1)) < y2 - y1)"
    using flat_points_near [OF assms(2,4)] flat_columns [of y1 y2]
    by (auto simp: line_points_def steep_flat comp_def)
qed

text \<open>
  The division truncates, so a rising line misses its second end: unless its length divides the scaled
  height, the last pixel lies one below it.
\<close>

theorem line_misses_end:
  assumes "x1 < x2" "y1 < y2" "y2 - y1 \<le> x2 - x1" "\<not> (x2 - x1) dvd 65536 * (y2 - y1)" "x2 - x1 < 65536"
  shows "List.last (line_points x1 y1 x2 y2) = (x2, y2 - 1)"
proof -
  let ?n = "x2 - x1" and ?D = "y2 - y1"
  let ?d = "c_div (65536 * ?D) ?n"
  have n: "0 < ?n" using assms by simp
  have b: "65536 * ?D - ?n < ?d * ?n" "?d * ?n \<le> 65536 * ?D"
    using c_div_bounds(1) [OF n, of "65536 * ?D"] assms by simp_all
  moreover have "?d * ?n \<noteq> 65536 * ?D" using assms(4) by (metis dvd_triv_right)
  ultimately have "65536 * (y2 - 1) \<le> 65536 * y1 + ?n * ?d" "65536 * y1 + ?n * ?d < 65536 * y2"
    using assms(5) by (simp_all add: mult.commute [of ?n])
  moreover have "a div 65536 = q - 1" if "65536 * (q - 1) \<le> a" "a < 65536 * q" for a q :: int
    using that by (intro int_div_pos_eq [where r = "a - 65536 * (q - 1)"]) simp_all
  ultimately have "minor y1 ?D ?n ?n = y2 - 1" unfolding minor_def by blast
  then show ?thesis using assms
    by (simp add: line_points_def flat_points_def last_map nat_add_distrib)
qed

subsection \<open>The picture\<close>

text \<open>The value stored for a pixel, and the value a colour index stands for at the depth of the screen.\<close>

definition pixel_at :: "fbinfo \<Rightarrow> u8 list \<Rightarrow> int \<times> int \<Rightarrow> u32" where
  "pixel_at fb mem = (\<lambda>(x, y). le_value (take (access_width (bytes_per_pixel fb)) (drop (pixel_addr fb x y) mem)))"

definition paint :: "fbinfo \<Rightarrow> u32 \<Rightarrow> u32" where
  "paint fb c = take_bit (8 * access_width (bytes_per_pixel fb)) (colormap fb ! unat (c AND NOT XORMODE))"

lemma le_value_bytes: "n \<le> 4 \<Longrightarrow> le_value (le_bytes n v) = take_bit (8 * n) v"
proof (rule bit_word_eqI)
  fix m assume "n \<le> 4" "m < LENGTH(32)"
  then show "bit (le_value (le_bytes n v)) m = bit (take_bit (8 * n) v) m"
    by (auto simp: bit_le_value le_bytes_def bit_simps less_mult_imp_div_less div_less_iff_less_mult mult.commute)
qed

text \<open>Two pixels of the screen share no byte.\<close>

lemma pixels_disjoint:
  assumes "fb_ok fb" "on_screen fb x y" "on_screen fb x' y'" "(x', y') \<noteq> (x, y)"
  shows "pixel_addr fb x y + bytes_per_pixel fb \<le> pixel_addr fb x' y' \<or>
    pixel_addr fb x' y' + bytes_per_pixel fb \<le> pixel_addr fb x y"
proof -
  have step: "a * u + u \<le> b * u" if "a < b" for a b u :: nat
    using mult_right_mono [of "Suc a" b u] that by simp
  have row: "pixel_addr fb a b + bytes_per_pixel fb \<le> pixel_addr fb a' b'"
    if "on_screen fb a b" "nat b < nat b'" for a b a' b'
    using pixel_in_row [OF assms(1) that(1)] step [OF that(2), of "unat (fi_line_length fb)"]
    by (simp add: pixel_addr_def)
  have pos: "0 \<le> x" "0 \<le> y" "0 \<le> x'" "0 \<le> y'" using assms(2,3) by (simp_all add: on_screen_def)
  then consider "nat y < nat y'" | "nat y' < nat y" | "y = y'" "nat x < nat x'" | "y = y'" "nat x' < nat x"
    using assms(4) by fastforce
  then show ?thesis
    by cases (use row assms(2,3) step [of _ _ "bytes_per_pixel fb"] in \<open>auto simp: pixel_addr_def\<close>)
qed

lemma slice_put:
  assumes "a + n \<le> length mem" "length bs = n"
  shows "take n (drop a (take a mem @ bs @ drop (a + n) mem)) = bs"
    and "b + n \<le> a \<Longrightarrow> take n (drop b (take a mem @ bs @ drop (a + n) mem)) = take n (drop b mem)"
    and "a + n \<le> b \<Longrightarrow> take n (drop b (take a mem @ bs @ drop (a + n) mem)) = take n (drop b mem)"
proof -
  show "take n (drop a (take a mem @ bs @ drop (a + n) mem)) = bs" using assms by simp
  show "take n (drop b (take a mem @ bs @ drop (a + n) mem)) = take n (drop b mem)" if "b + n \<le> a"
    using assms that by (intro nth_equalityI) (auto simp: nth_append)
  show "take n (drop b (take a mem @ bs @ drop (a + n) mem)) = take n (drop b mem)" if "a + n \<le> b"
    using assms that by (simp add: drop_append min_def)
qed

lemma setpixel_at:
  assumes "fb_ok fb" "on_screen fb x y" "length mem = fb_size fb"
  obtains mem' where "setpixel fb (pixel_addr fb x y) 0 color mem = Inr mem'" "length mem' = fb_size fb"
    "\<And>x' y'. on_screen fb x' y' \<Longrightarrow> pixel_at fb mem' (x', y') =
      (if (x', y') = (x, y) then take_bit (8 * access_width (bytes_per_pixel fb)) color else pixel_at fb mem (x', y'))"
proof -
  let ?w = "access_width (bytes_per_pixel fb)" and ?a = "pixel_addr fb x y"
  let ?m = "take ?a mem @ le_bytes ?w color @ drop (?a + ?w) mem"
  have fits: "?a + ?w \<le> length mem" using pixel_fits [OF assms(1,2)] assms(3) by simp
  have w: "?w \<le> bytes_per_pixel fb" using assms(1) access_width_le(2) by (simp add: fb_ok_def)
  show thesis
  proof (rule that [of ?m])
    show "setpixel fb ?a 0 color mem = Inr ?m" using fits by (simp add: setpixel_def mem_put_def Let_def)
    show "length ?m = fb_size fb" using fits assms(3) by simp
    fix x' y' assume on: "on_screen fb x' y'"
    show "pixel_at fb ?m (x', y') = (if (x', y') = (x, y) then take_bit (8 * ?w) color else pixel_at fb mem (x', y'))"
    proof (cases "(x', y') = (x, y)")
      case True
      then show ?thesis using slice_put(1) [OF fits, of "le_bytes ?w color"]
        by (simp add: pixel_at_def le_value_bytes access_width_le(1))
    next
      case False
      from pixels_disjoint [OF assms(1,2) on False] w
      have "pixel_addr fb x' y' + ?w \<le> ?a \<or> ?a + ?w \<le> pixel_addr fb x' y'" by linarith
      then show ?thesis using False slice_put(2,3) [OF fits, of "le_bytes ?w color" "pixel_addr fb x' y'"]
        by (auto simp: pixel_at_def)
    qed
  qed
qed

text \<open>Painting a list of points.\<close>

definition pixels :: "fbinfo \<Rightarrow> u32 \<Rightarrow> (int \<times> int) list \<Rightarrow> u8 list \<Rightarrow> ts_fault + u8 list" where
  "pixels fb c ps = draws (map (\<lambda>(x, y). pixel fb x y c) ps)"

lemma pixels_picture:
  assumes "fb_ok fb" "colour_ok c" "c AND XORMODE = 0"
  shows "\<forall>(x, y) \<in> set ps. in_s32 x \<and> in_s32 y \<Longrightarrow> length mem = fb_size fb \<Longrightarrow>
    \<exists>mem'. pixels fb c ps mem = Inr mem' \<and> length mem' = fb_size fb \<and>
      (\<forall>x y. on_screen fb x y \<longrightarrow> pixel_at fb mem' (x, y) = (if (x, y) \<in> set ps then paint fb c else pixel_at fb mem (x, y)))"
proof (induction ps arbitrary: mem)
  case (Cons p ps)
  obtain x y where p: "p = (x, y)" by force
  have xy: "in_s32 x" "in_s32 y" using Cons.prems(1) p by auto
  obtain mem1 where m1: "pixel fb x y c mem = Inr mem1" "length mem1 = fb_size fb"
    "\<And>x' y'. on_screen fb x' y' \<Longrightarrow> pixel_at fb mem1 (x', y') = (if (x', y') = (x, y) then paint fb c else pixel_at fb mem (x', y'))"
  proof (cases "on_screen fb x y")
    case True
    show ?thesis
    proof (rule setpixel_at [OF assms(1) True Cons.prems(2), of "colormap fb ! unat (c AND NOT XORMODE)"])
      fix m assume "setpixel fb (pixel_addr fb x y) 0 (colormap fb ! unat (c AND NOT XORMODE)) mem = Inr m"
        "length m = fb_size fb" "\<And>x' y'. on_screen fb x' y' \<Longrightarrow> pixel_at fb m (x', y') = (if (x', y') = (x, y)
          then take_bit (8 * access_width (bytes_per_pixel fb)) (colormap fb ! unat (c AND NOT XORMODE))
          else pixel_at fb mem (x', y'))"
      then show thesis using that [of m] True by (simp add: pixel_eq [OF assms(1) xy assms(2)] assms(3) paint_def)
    qed
  next
    case False
    show ?thesis
    proof (rule that [of mem])
      show "pixel fb x y c mem = Inr mem" using False by (simp add: pixel_eq [OF assms(1) xy assms(2)])
    qed (use False Cons.prems(2) in auto)
  qed
  obtain mem2 where m2: "pixels fb c ps mem1 = Inr mem2" "length mem2 = fb_size fb"
    "\<forall>x y. on_screen fb x y \<longrightarrow> pixel_at fb mem2 (x, y) = (if (x, y) \<in> set ps then paint fb c else pixel_at fb mem1 (x, y))"
    using Cons.IH [of mem1] Cons.prems(1) m1(2) by auto
  then show ?case using m1 by (intro exI [of _ mem2]) (auto simp: pixels_def p)
qed (simp add: pixels_def)

subsection \<open>Filled rectangles\<close>

definition clipped :: "u32 \<Rightarrow> int \<Rightarrow> int" where
  "clipped res i = max 0 (min i (uint res - 1))"

lemma clip_clipped:
  assumes "0 < res" "unat res < 2 ^ 31" "in_s32 i"
  shows "clip res i = clipped res i"
proof -
  have "0 < uint res" using assms(1) by (simp add: word_less_def)
  moreover have "uint res < 2 ^ 31" using assms(2) unfolding uint_nat by (metis of_nat_less_iff of_nat_numeral of_nat_power)
  ultimately have res: "0 < uint res" "uint res < 2 ^ 31" by simp_all
  have "uint (res - 1) = uint res - 1" using res by (simp add: uint_sub_if')
  then have "sint (res - 1) = uint res - 1"
    using res by (simp add: sint_uint signed_take_bit_int_eq_self)
  moreover have "((word_of_int (if i < 0 then 0 else i) :: u32) \<ge> res) = ((if i < 0 then 0 else i) \<ge> uint res)"
    using assms(3) by (intro word_of_int_ge) (auto simp: in_s32_def)
  ultimately show ?thesis using res unfolding clip_def clipped_def Let_def by auto
qed

lemma fill_row_draws:
  assumes "fb_ok fb" "0 \<le> x" "0 \<le> y"
  shows "fill_row fb xm color (int (nat y * unat (fi_line_length fb)) + x * int (bytes_per_pixel fb)) k mem =
    draws (map (\<lambda>x. setpixel fb (pixel_addr fb x y) xm color) [x..x + int k - 1]) mem"
  using assms(2)
proof (induction k arbitrary: x mem)
  case (Suc k)
  let ?loc = "int (nat y * unat (fi_line_length fb)) + x * int (bytes_per_pixel fb)"
  have loc: "nat ?loc = pixel_addr fb x y"
    using Suc.prems by (simp add: pixel_addr_def nat_add_distrib nat_mult_distrib)
  have "0 \<le> ?loc" using Suc.prems by (intro add_nonneg_nonneg mult_nonneg_nonneg of_nat_0_le_iff)
  then have pos: "(?loc < 0) = False" by (metis not_less)
  have eq: "?loc + int (bytes_per_pixel fb) = int (nat y * unat (fi_line_length fb)) + (x + 1) * int (bytes_per_pixel fb)"
    by (simp add: algebra_simps)
  have rest: "fill_row fb xm color (?loc + int (bytes_per_pixel fb)) k =
      draws (map (\<lambda>x. setpixel fb (pixel_addr fb x y) xm color) [x + 1..(x + 1) + int k - 1])"
    unfolding eq using Suc.IH [of "x + 1"] Suc.prems by (intro ext) simp
  have "[x..x + int (Suc k) - 1] = x # [x + 1..(x + 1) + int k - 1]" by (subst upto_rec1) auto
  then show ?case by (simp only: fill_row.simps loc pos rest if_False list.map draws.simps)
qed simp

lemma fill_rows_draws:
  assumes "fb_ok fb" "0 \<le> x"
  shows "0 \<le> y \<Longrightarrow> y + int k \<le> uint (va_yres_virtual fb) \<Longrightarrow> fill_rows fb xm color x w y k mem =
    draws (concat (map (\<lambda>y. map (\<lambda>x. setpixel fb (pixel_addr fb x y) xm color) [x..x + int w - 1]) [y..y + int k - 1])) mem"
proof (induction k arbitrary: y mem)
  case (Suc k)
  have "nat y < unat (va_yres_virtual fb)" using Suc.prems by (simp add: nat_less_iff)
  note row = line_addr_nth [OF assms(1) this]
  have addr: "uint (line_addr fb ! nat y) = int (nat y * unat (fi_line_length fb))"
    unfolding uint_nat row(2) ..
  have list: "[y..y + int (Suc k) - 1] = y # [y + 1..(y + 1) + int k - 1]" by (subst upto_rec1) auto
  have rest: "fill_rows fb xm color x w (y + 1) k = draws (concat (map
      (\<lambda>y. map (\<lambda>x. setpixel fb (pixel_addr fb x y) xm color) [x..x + int w - 1]) [y + 1..(y + 1) + int k - 1]))"
    using Suc.IH [of "y + 1"] Suc.prems by (intro ext) simp
  have "(y < 0) = False" using Suc.prems(1) by simp
  then show ?case unfolding list
    by (simp only: fill_rows.simps if_False samp_get_ok [OF row(1)] tbind_simps addr
      fill_row_draws [OF assms Suc.prems(1)] rest list.map concat.simps draws_append)
qed simp

lemma uint_31: "unat (w :: u32) < 2 ^ 31 \<Longrightarrow> uint w < 2 ^ 31"
  unfolding uint_nat by (metis of_nat_less_iff of_nat_numeral of_nat_power)

lemma plain_colour:
  assumes "c < (256 :: u32)"
  shows "colour_ok c" "c AND XORMODE = 0" "c AND NOT XORMODE = c"
proof -
  have "take_bit 8 c = c" using assms by (simp add: take_bit_eq_mod word_less_nat_alt mod_word_less)
  then have b: "\<not> bit c k" if "8 \<le> k" for k using that by (metis bit_take_bit_iff not_le)
  show "c AND XORMODE = 0" and x: "c AND NOT XORMODE = c"
    using b by (auto intro!: bit_word_eqI simp: bit_simps bit_XORMODE)
  then show "colour_ok c" using assms by (simp add: colour_ok_def word_less_nat_alt)
qed

definition rect_points :: "int \<Rightarrow> int \<Rightarrow> int \<Rightarrow> int \<Rightarrow> (int \<times> int) list" where
  "rect_points a b c d = concat (map (\<lambda>y. map (\<lambda>x. (x, y)) [a..c]) [b..d])"

lemma set_rect_points: "(x, y) \<in> set (rect_points a b c d) \<longleftrightarrow> a \<le> x \<and> x \<le> c \<and> b \<le> y \<and> y \<le> d"
  by (force simp: rect_points_def)

lemma rect_points_s32:
  "in_s32 a \<Longrightarrow> in_s32 b \<Longrightarrow> in_s32 c \<Longrightarrow> in_s32 d \<Longrightarrow> \<forall>(x, y) \<in> set (rect_points a b c d). in_s32 x \<and> in_s32 y"
  unfolding in_s32_def by (auto simp: set_rect_points)

lemma clipped_bounds:
  assumes "0 < res"
  shows "0 \<le> clipped res i" "clipped res i < uint res"
  using assms by (auto simp: clipped_def word_less_def)

lemma clipped_s32: "0 < res \<Longrightarrow> unat res < 2 ^ 31 \<Longrightarrow> in_s32 (clipped res i)"
  using clipped_bounds [of res i] uint_31 [of res] by (simp add: in_s32_def)

lemma swap_min_max: "(if a > b then (b, a) else (a, b)) = (min a b, max (a :: int) b)"
  by auto

lemma min_max_s32: "in_s32 a \<Longrightarrow> in_s32 b \<Longrightarrow> in_s32 (min a b)" "in_s32 a \<Longrightarrow> in_s32 b \<Longrightarrow> in_s32 (max a b)"
  by (auto simp: in_s32_def min_def max_def)

lemma clipped_mono: "i \<le> j \<Longrightarrow> clipped res i \<le> clipped res j"
  by (auto simp: clipped_def)

text \<open>The fast loops over addresses draw what \<^verbatim>\<open>pixel\<close> would draw point by point.\<close>

lemma fillrect_pixels:
  assumes ok: "fb_ok fb" and c: "colour_ok c"
    and s32: "in_s32 x1" "in_s32 y1" "in_s32 x2" "in_s32 y2"
  shows "fillrect fb x1 y1 x2 y2 c mem = pixels fb c
    (rect_points (clipped (va_xres fb) (min x1 x2)) (clipped (va_yres fb) (min y1 y2))
      (clipped (va_xres fb) (max x1 x2)) (clipped (va_yres fb) (max y1 y2))) mem"
proof -
  let ?X1 = "clipped (va_xres fb) (min x1 x2)" and ?X2 = "clipped (va_xres fb) (max x1 x2)"
  let ?Y1 = "clipped (va_yres fb) (min y1 y2)" and ?Y2 = "clipped (va_yres fb) (max y1 y2)"
  have res: "0 < va_xres fb" "0 < va_yres fb" "unat (va_xres fb) < 2 ^ 31" "unat (va_yres fb) < 2 ^ 31"
    "uint (va_xres fb) \<le> uint (va_xres_virtual fb)" "uint (va_yres fb) \<le> uint (va_yres_virtual fb)"
    using ok by (simp_all add: fb_ok_def word_le_def)
  have b: "0 \<le> ?X1" "?X1 \<le> ?X2" "?X2 < uint (va_xres fb)" "0 \<le> ?Y1" "?Y1 \<le> ?Y2" "?Y2 < uint (va_yres fb)"
    using res(1,2) by (auto simp: clipped_bounds intro!: clipped_mono)
  let ?xm = "c AND XORMODE" and ?col = "colormap fb ! unat (c AND NOT XORMODE)"
  have px: "setpixel fb (pixel_addr fb x y) ?xm ?col = pixel fb x y c" if "x \<in> {?X1..?X2}" "y \<in> {?Y1..?Y2}" for x y
  proof (rule ext)
    fix m
    have "on_screen fb x y" "in_s32 x" "in_s32 y" using that b res(3-6) uint_31 [of "va_xres fb"] uint_31 [of "va_yres fb"]
      by (auto simp: on_screen_def in_s32_def)
    then show "setpixel fb (pixel_addr fb x y) ?xm ?col m = pixel fb x y c m" by (simp add: pixel_eq [OF ok _ _ c])
  qed
  have "unat (c AND NOT XORMODE) < length (colormap fb)" using ok c by (simp add: fb_ok_def colour_ok_def)
  then have "fillrect fb x1 y1 x2 y2 c mem =
      fill_rows fb ?xm ?col ?X1 (nat (?X2 - ?X1 + 1)) ?Y1 (nat (?Y2 - ?Y1 + 1)) mem"
    using b s32 res(1-4) unfolding fillrect_def swap_min_max prod.case Let_def
    by (simp add: clip_clipped min_max_s32 not_less)
  also have "\<dots> = draws (concat (map (\<lambda>y. map (\<lambda>x. setpixel fb (pixel_addr fb x y) ?xm ?col) [?X1..?X2]) [?Y1..?Y2])) mem"
    using b res(6) by (subst fill_rows_draws [OF ok]) simp_all
  also have "concat (map (\<lambda>y. map (\<lambda>x. setpixel fb (pixel_addr fb x y) ?xm ?col) [?X1..?X2]) [?Y1..?Y2]) =
      concat (map (\<lambda>y. map (\<lambda>x. pixel fb x y c) [?X1..?X2]) [?Y1..?Y2])"
    using px by (intro arg_cong [of _ _ concat] map_cong refl) auto
  finally show ?thesis by (simp add: pixels_def rect_points_def map_concat comp_def)
qed

text \<open>
  C37. \<^verbatim>\<open>fillrect\<close> paints exactly the part of the rectangle that is visible, whichever corners are given:
  every pixel of the virtual screen inside the clipped rectangle has the colour and every other one
  is unchanged. It touches no byte outside the mapping.
\<close>

theorem fillrect_picture:
  assumes "fb_ok fb" "length mem = fb_size fb" "c < 256"
    and "in_s32 x1" "in_s32 y1" "in_s32 x2" "in_s32 y2"
  shows "\<exists>mem'. fillrect fb x1 y1 x2 y2 c mem = Inr mem' \<and> length mem' = fb_size fb \<and>
    (\<forall>x y. on_screen fb x y \<longrightarrow> pixel_at fb mem' (x, y) =
      (if clipped (va_xres fb) (min x1 x2) \<le> x \<and> x \<le> clipped (va_xres fb) (max x1 x2) \<and>
          clipped (va_yres fb) (min y1 y2) \<le> y \<and> y \<le> clipped (va_yres fb) (max y1 y2)
       then take_bit (8 * access_width (bytes_per_pixel fb)) (colormap fb ! unat c) else pixel_at fb mem (x, y)))"
proof -
  let ?ps = "rect_points (clipped (va_xres fb) (min x1 x2)) (clipped (va_yres fb) (min y1 y2))
      (clipped (va_xres fb) (max x1 x2)) (clipped (va_yres fb) (max y1 y2))"
  have c: "colour_ok c" "c AND XORMODE = 0" "c AND NOT XORMODE = c" using plain_colour [OF assms(3)] by simp_all
  have "in_s32 (clipped (va_xres fb) i)" "in_s32 (clipped (va_yres fb) i)" for i
    using assms(1) by (simp_all add: fb_ok_def clipped_s32)
  then have "\<forall>(x, y) \<in> set ?ps. in_s32 x \<and> in_s32 y" by (intro rect_points_s32)
  from pixels_picture [OF assms(1) c(1,2) this assms(2)] show ?thesis
    unfolding fillrect_pixels [OF assms(1) c(1) assms(4-7)] set_rect_points paint_def c(3) .
qed

subsection \<open>A screen of four by two pixels\<close>

definition demo_fb :: fbinfo where
  "demo_fb = \<lparr>fi_smem_len = 16, fi_line_length = 8, va_xres = 4, va_yres = 2, va_xres_virtual = 4, va_yres_virtual = 2,
     va_bits_per_pixel = 16, va_red = \<lparr>ch_offset = 11, ch_length = 5\<rparr>, va_green = \<lparr>ch_offset = 5, ch_length = 6\<rparr>,
     va_blue = \<lparr>ch_offset = 0, ch_length = 5\<rparr>, line_addr = [0, 8], bytes_per_pixel = 2, colormap = replicate 256 0x1234\<rparr>"

lemma demo_fb_ok: "fb_ok demo_fb"
  by (simp add: fb_ok_def demo_fb_def upt_conv_Cons)

lemma demo_size: "fb_size demo_fb = 16"
  by (simp add: demo_fb_def)

theorem xormode_restores_witness:
  "tbind (put_cross demo_fb 2 1 (2 OR XORMODE) (replicate 16 7)) (put_cross demo_fb 2 1 (2 OR XORMODE)) =
     Inr (replicate 16 7)"
  using xormode_restores [OF demo_fb_ok, of "replicate 16 7" 2 2 1 0 0] by (simp add: demo_size small_def)

theorem line_accurate_witness:
  "map fst (line_points 0 0 3 1) = [0..3] \<and> line demo_fb 3 1 0 0 2 [] = line demo_fb 0 0 3 1 2 []"
  using line_accurate [of 0 0 3 1 demo_fb 2 "[]"] by (simp add: tiny_def)

theorem line_misses_end_witness: "List.last (line_points 0 0 3 1) = (3, 0)"
  using line_misses_end [of 0 3 0 1] by simp

theorem fillrect_picture_witness:
  "\<exists>mem'. fillrect demo_fb 1 (- 5) 2 0 2 (replicate 16 0) = Inr mem' \<and> pixel_at demo_fb mem' (1, 0) = 0x1234 \<and>
     pixel_at demo_fb mem' (1, 1) = pixel_at demo_fb (replicate 16 0) (1, 1)"
proof -
  have "on_screen demo_fb 1 0" "on_screen demo_fb 1 1" by (simp_all add: on_screen_def demo_fb_def)
  moreover have "length (replicate 16 (0 :: u8)) = fb_size demo_fb" by (simp add: demo_size)
  ultimately show ?thesis
    using fillrect_picture [OF demo_fb_ok, of "replicate 16 0" 2 1 "- 5" 2 0]
    by (fastforce simp: in_s32_def clipped_def demo_fb_def access_width_def)
qed

end
