(* ===== verification/FbFont.thy ===== *)
theory FbFont
  imports FbUtils
begin

section \<open>tslib/tests/font_8x8.c: text\<close>

text \<open>
  The table of \<^verbatim>\<open>font_vga_8x8\<close>, sixteen characters of eight rows in each part, and the functions of
  \<^verbatim>\<open>fbutils.c\<close> that draw text with it. \<^verbatim>\<open>char\<close> is unsigned on the target.
\<close>

definition font_part_0 :: "u8 list" where
  "font_part_0 = [
     0x00, 0x00, 0x00, 0x00, 0x00, 0x00, 0x00, 0x00, 0x7e, 0x81, 0xa5, 0x81, 0xbd, 0x99, 0x81, 0x7e,
     0x7e, 0xff, 0xdb, 0xff, 0xc3, 0xe7, 0xff, 0x7e, 0x6c, 0xfe, 0xfe, 0xfe, 0x7c, 0x38, 0x10, 0x00,
     0x10, 0x38, 0x7c, 0xfe, 0x7c, 0x38, 0x10, 0x00, 0x38, 0x7c, 0x38, 0xfe, 0xfe, 0xd6, 0x10, 0x38,
     0x10, 0x38, 0x7c, 0xfe, 0xfe, 0x7c, 0x10, 0x38, 0x00, 0x00, 0x18, 0x3c, 0x3c, 0x18, 0x00, 0x00,
     0xff, 0xff, 0xe7, 0xc3, 0xc3, 0xe7, 0xff, 0xff, 0x00, 0x3c, 0x66, 0x42, 0x42, 0x66, 0x3c, 0x00,
     0xff, 0xc3, 0x99, 0xbd, 0xbd, 0x99, 0xc3, 0xff, 0x0f, 0x07, 0x0f, 0x7d, 0xcc, 0xcc, 0xcc, 0x78,
     0x3c, 0x66, 0x66, 0x66, 0x3c, 0x18, 0x7e, 0x18, 0x3f, 0x33, 0x3f, 0x30, 0x30, 0x70, 0xf0, 0xe0,
     0x7f, 0x63, 0x7f, 0x63, 0x63, 0x67, 0xe6, 0xc0, 0x18, 0xdb, 0x3c, 0xe7, 0xe7, 0x3c, 0xdb, 0x18]"

definition font_part_1 :: "u8 list" where
  "font_part_1 = [
     0x80, 0xe0, 0xf8, 0xfe, 0xf8, 0xe0, 0x80, 0x00, 0x02, 0x0e, 0x3e, 0xfe, 0x3e, 0x0e, 0x02, 0x00,
     0x18, 0x3c, 0x7e, 0x18, 0x18, 0x7e, 0x3c, 0x18, 0x66, 0x66, 0x66, 0x66, 0x66, 0x00, 0x66, 0x00,
     0x7f, 0xdb, 0xdb, 0x7b, 0x1b, 0x1b, 0x1b, 0x00, 0x3e, 0x61, 0x3c, 0x66, 0x66, 0x3c, 0x86, 0x7c,
     0x00, 0x00, 0x00, 0x00, 0x7e, 0x7e, 0x7e, 0x00, 0x18, 0x3c, 0x7e, 0x18, 0x7e, 0x3c, 0x18, 0xff,
     0x18, 0x3c, 0x7e, 0x18, 0x18, 0x18, 0x18, 0x00, 0x18, 0x18, 0x18, 0x18, 0x7e, 0x3c, 0x18, 0x00,
     0x00, 0x18, 0x0c, 0xfe, 0x0c, 0x18, 0x00, 0x00, 0x00, 0x30, 0x60, 0xfe, 0x60, 0x30, 0x00, 0x00,
     0x00, 0x00, 0xc0, 0xc0, 0xc0, 0xfe, 0x00, 0x00, 0x00, 0x24, 0x66, 0xff, 0x66, 0x24, 0x00, 0x00,
     0x00, 0x18, 0x3c, 0x7e, 0xff, 0xff, 0x00, 0x00, 0x00, 0xff, 0xff, 0x7e, 0x3c, 0x18, 0x00, 0x00]"

definition font_part_2 :: "u8 list" where
  "font_part_2 = [
     0x00, 0x00, 0x00, 0x00, 0x00, 0x00, 0x00, 0x00, 0x18, 0x3c, 0x3c, 0x18, 0x18, 0x00, 0x18, 0x00,
     0x66, 0x66, 0x24, 0x00, 0x00, 0x00, 0x00, 0x00, 0x6c, 0x6c, 0xfe, 0x6c, 0xfe, 0x6c, 0x6c, 0x00,
     0x18, 0x3e, 0x60, 0x3c, 0x06, 0x7c, 0x18, 0x00, 0x00, 0xc6, 0xcc, 0x18, 0x30, 0x66, 0xc6, 0x00,
     0x38, 0x6c, 0x38, 0x76, 0xdc, 0xcc, 0x76, 0x00, 0x18, 0x18, 0x30, 0x00, 0x00, 0x00, 0x00, 0x00,
     0x0c, 0x18, 0x30, 0x30, 0x30, 0x18, 0x0c, 0x00, 0x30, 0x18, 0x0c, 0x0c, 0x0c, 0x18, 0x30, 0x00,
     0x00, 0x66, 0x3c, 0xff, 0x3c, 0x66, 0x00, 0x00, 0x00, 0x18, 0x18, 0x7e, 0x18, 0x18, 0x00, 0x00,
     0x00, 0x00, 0x00, 0x00, 0x00, 0x18, 0x18, 0x30, 0x00, 0x00, 0x00, 0x7e, 0x00, 0x00, 0x00, 0x00,
     0x00, 0x00, 0x00, 0x00, 0x00, 0x18, 0x18, 0x00, 0x06, 0x0c, 0x18, 0x30, 0x60, 0xc0, 0x80, 0x00]"

definition font_part_3 :: "u8 list" where
  "font_part_3 = [
     0x38, 0x6c, 0xc6, 0xd6, 0xc6, 0x6c, 0x38, 0x00, 0x18, 0x38, 0x18, 0x18, 0x18, 0x18, 0x7e, 0x00,
     0x7c, 0xc6, 0x06, 0x1c, 0x30, 0x66, 0xfe, 0x00, 0x7c, 0xc6, 0x06, 0x3c, 0x06, 0xc6, 0x7c, 0x00,
     0x1c, 0x3c, 0x6c, 0xcc, 0xfe, 0x0c, 0x1e, 0x00, 0xfe, 0xc0, 0xc0, 0xfc, 0x06, 0xc6, 0x7c, 0x00,
     0x38, 0x60, 0xc0, 0xfc, 0xc6, 0xc6, 0x7c, 0x00, 0xfe, 0xc6, 0x0c, 0x18, 0x30, 0x30, 0x30, 0x00,
     0x7c, 0xc6, 0xc6, 0x7c, 0xc6, 0xc6, 0x7c, 0x00, 0x7c, 0xc6, 0xc6, 0x7e, 0x06, 0x0c, 0x78, 0x00,
     0x00, 0x18, 0x18, 0x00, 0x00, 0x18, 0x18, 0x00, 0x00, 0x18, 0x18, 0x00, 0x00, 0x18, 0x18, 0x30,
     0x06, 0x0c, 0x18, 0x30, 0x18, 0x0c, 0x06, 0x00, 0x00, 0x00, 0x7e, 0x00, 0x00, 0x7e, 0x00, 0x00,
     0x60, 0x30, 0x18, 0x0c, 0x18, 0x30, 0x60, 0x00, 0x7c, 0xc6, 0x0c, 0x18, 0x18, 0x00, 0x18, 0x00]"

definition font_part_4 :: "u8 list" where
  "font_part_4 = [
     0x7c, 0xc6, 0xde, 0xde, 0xde, 0xc0, 0x78, 0x00, 0x38, 0x6c, 0xc6, 0xfe, 0xc6, 0xc6, 0xc6, 0x00,
     0xfc, 0x66, 0x66, 0x7c, 0x66, 0x66, 0xfc, 0x00, 0x3c, 0x66, 0xc0, 0xc0, 0xc0, 0x66, 0x3c, 0x00,
     0xf8, 0x6c, 0x66, 0x66, 0x66, 0x6c, 0xf8, 0x00, 0xfe, 0x62, 0x68, 0x78, 0x68, 0x62, 0xfe, 0x00,
     0xfe, 0x62, 0x68, 0x78, 0x68, 0x60, 0xf0, 0x00, 0x3c, 0x66, 0xc0, 0xc0, 0xce, 0x66, 0x3a, 0x00,
     0xc6, 0xc6, 0xc6, 0xfe, 0xc6, 0xc6, 0xc6, 0x00, 0x3c, 0x18, 0x18, 0x18, 0x18, 0x18, 0x3c, 0x00,
     0x1e, 0x0c, 0x0c, 0x0c, 0xcc, 0xcc, 0x78, 0x00, 0xe6, 0x66, 0x6c, 0x78, 0x6c, 0x66, 0xe6, 0x00,
     0xf0, 0x60, 0x60, 0x60, 0x62, 0x66, 0xfe, 0x00, 0xc6, 0xee, 0xfe, 0xfe, 0xd6, 0xc6, 0xc6, 0x00,
     0xc6, 0xe6, 0xf6, 0xde, 0xce, 0xc6, 0xc6, 0x00, 0x7c, 0xc6, 0xc6, 0xc6, 0xc6, 0xc6, 0x7c, 0x00]"

definition font_part_5 :: "u8 list" where
  "font_part_5 = [
     0xfc, 0x66, 0x66, 0x7c, 0x60, 0x60, 0xf0, 0x00, 0x7c, 0xc6, 0xc6, 0xc6, 0xc6, 0xce, 0x7c, 0x0e,
     0xfc, 0x66, 0x66, 0x7c, 0x6c, 0x66, 0xe6, 0x00, 0x3c, 0x66, 0x30, 0x18, 0x0c, 0x66, 0x3c, 0x00,
     0x7e, 0x7e, 0x5a, 0x18, 0x18, 0x18, 0x3c, 0x00, 0xc6, 0xc6, 0xc6, 0xc6, 0xc6, 0xc6, 0x7c, 0x00,
     0xc6, 0xc6, 0xc6, 0xc6, 0xc6, 0x6c, 0x38, 0x00, 0xc6, 0xc6, 0xc6, 0xd6, 0xd6, 0xfe, 0x6c, 0x00,
     0xc6, 0xc6, 0x6c, 0x38, 0x6c, 0xc6, 0xc6, 0x00, 0x66, 0x66, 0x66, 0x3c, 0x18, 0x18, 0x3c, 0x00,
     0xfe, 0xc6, 0x8c, 0x18, 0x32, 0x66, 0xfe, 0x00, 0x3c, 0x30, 0x30, 0x30, 0x30, 0x30, 0x3c, 0x00,
     0xc0, 0x60, 0x30, 0x18, 0x0c, 0x06, 0x02, 0x00, 0x3c, 0x0c, 0x0c, 0x0c, 0x0c, 0x0c, 0x3c, 0x00,
     0x10, 0x38, 0x6c, 0xc6, 0x00, 0x00, 0x00, 0x00, 0x00, 0x00, 0x00, 0x00, 0x00, 0x00, 0x00, 0xff]"

definition font_part_6 :: "u8 list" where
  "font_part_6 = [
     0x30, 0x18, 0x0c, 0x00, 0x00, 0x00, 0x00, 0x00, 0x00, 0x00, 0x78, 0x0c, 0x7c, 0xcc, 0x76, 0x00,
     0xe0, 0x60, 0x7c, 0x66, 0x66, 0x66, 0xdc, 0x00, 0x00, 0x00, 0x7c, 0xc6, 0xc0, 0xc6, 0x7c, 0x00,
     0x1c, 0x0c, 0x7c, 0xcc, 0xcc, 0xcc, 0x76, 0x00, 0x00, 0x00, 0x7c, 0xc6, 0xfe, 0xc0, 0x7c, 0x00,
     0x3c, 0x66, 0x60, 0xf8, 0x60, 0x60, 0xf0, 0x00, 0x00, 0x00, 0x76, 0xcc, 0xcc, 0x7c, 0x0c, 0xf8,
     0xe0, 0x60, 0x6c, 0x76, 0x66, 0x66, 0xe6, 0x00, 0x18, 0x00, 0x38, 0x18, 0x18, 0x18, 0x3c, 0x00,
     0x06, 0x00, 0x06, 0x06, 0x06, 0x66, 0x66, 0x3c, 0xe0, 0x60, 0x66, 0x6c, 0x78, 0x6c, 0xe6, 0x00,
     0x38, 0x18, 0x18, 0x18, 0x18, 0x18, 0x3c, 0x00, 0x00, 0x00, 0xec, 0xfe, 0xd6, 0xd6, 0xd6, 0x00,
     0x00, 0x00, 0xdc, 0x66, 0x66, 0x66, 0x66, 0x00, 0x00, 0x00, 0x7c, 0xc6, 0xc6, 0xc6, 0x7c, 0x00]"

definition font_part_7 :: "u8 list" where
  "font_part_7 = [
     0x00, 0x00, 0xdc, 0x66, 0x66, 0x7c, 0x60, 0xf0, 0x00, 0x00, 0x76, 0xcc, 0xcc, 0x7c, 0x0c, 0x1e,
     0x00, 0x00, 0xdc, 0x76, 0x60, 0x60, 0xf0, 0x00, 0x00, 0x00, 0x7e, 0xc0, 0x7c, 0x06, 0xfc, 0x00,
     0x30, 0x30, 0xfc, 0x30, 0x30, 0x36, 0x1c, 0x00, 0x00, 0x00, 0xcc, 0xcc, 0xcc, 0xcc, 0x76, 0x00,
     0x00, 0x00, 0xc6, 0xc6, 0xc6, 0x6c, 0x38, 0x00, 0x00, 0x00, 0xc6, 0xd6, 0xd6, 0xfe, 0x6c, 0x00,
     0x00, 0x00, 0xc6, 0x6c, 0x38, 0x6c, 0xc6, 0x00, 0x00, 0x00, 0xc6, 0xc6, 0xc6, 0x7e, 0x06, 0xfc,
     0x00, 0x00, 0x7e, 0x4c, 0x18, 0x32, 0x7e, 0x00, 0x0e, 0x18, 0x18, 0x70, 0x18, 0x18, 0x0e, 0x00,
     0x18, 0x18, 0x18, 0x18, 0x18, 0x18, 0x18, 0x00, 0x70, 0x18, 0x18, 0x0e, 0x18, 0x18, 0x70, 0x00,
     0x76, 0xdc, 0x00, 0x00, 0x00, 0x00, 0x00, 0x00, 0x00, 0x10, 0x38, 0x6c, 0xc6, 0xc6, 0xfe, 0x00]"

definition font_part_8 :: "u8 list" where
  "font_part_8 = [
     0x7c, 0xc6, 0xc0, 0xc0, 0xc6, 0x7c, 0x0c, 0x78, 0xcc, 0x00, 0xcc, 0xcc, 0xcc, 0xcc, 0x76, 0x00,
     0x0c, 0x18, 0x7c, 0xc6, 0xfe, 0xc0, 0x7c, 0x00, 0x7c, 0x82, 0x78, 0x0c, 0x7c, 0xcc, 0x76, 0x00,
     0xc6, 0x00, 0x78, 0x0c, 0x7c, 0xcc, 0x76, 0x00, 0x30, 0x18, 0x78, 0x0c, 0x7c, 0xcc, 0x76, 0x00,
     0x30, 0x30, 0x78, 0x0c, 0x7c, 0xcc, 0x76, 0x00, 0x00, 0x00, 0x7e, 0xc0, 0xc0, 0x7e, 0x0c, 0x38,
     0x7c, 0x82, 0x7c, 0xc6, 0xfe, 0xc0, 0x7c, 0x00, 0xc6, 0x00, 0x7c, 0xc6, 0xfe, 0xc0, 0x7c, 0x00,
     0x30, 0x18, 0x7c, 0xc6, 0xfe, 0xc0, 0x7c, 0x00, 0x66, 0x00, 0x38, 0x18, 0x18, 0x18, 0x3c, 0x00,
     0x7c, 0x82, 0x38, 0x18, 0x18, 0x18, 0x3c, 0x00, 0x30, 0x18, 0x00, 0x38, 0x18, 0x18, 0x3c, 0x00,
     0xc6, 0x38, 0x6c, 0xc6, 0xfe, 0xc6, 0xc6, 0x00, 0x38, 0x6c, 0x7c, 0xc6, 0xfe, 0xc6, 0xc6, 0x00]"

definition font_part_9 :: "u8 list" where
  "font_part_9 = [
     0x18, 0x30, 0xfe, 0xc0, 0xf8, 0xc0, 0xfe, 0x00, 0x00, 0x00, 0x7e, 0x18, 0x7e, 0xd8, 0x7e, 0x00,
     0x3e, 0x6c, 0xcc, 0xfe, 0xcc, 0xcc, 0xce, 0x00, 0x7c, 0x82, 0x7c, 0xc6, 0xc6, 0xc6, 0x7c, 0x00,
     0xc6, 0x00, 0x7c, 0xc6, 0xc6, 0xc6, 0x7c, 0x00, 0x30, 0x18, 0x7c, 0xc6, 0xc6, 0xc6, 0x7c, 0x00,
     0x78, 0x84, 0x00, 0xcc, 0xcc, 0xcc, 0x76, 0x00, 0x60, 0x30, 0xcc, 0xcc, 0xcc, 0xcc, 0x76, 0x00,
     0xc6, 0x00, 0xc6, 0xc6, 0xc6, 0x7e, 0x06, 0xfc, 0xc6, 0x38, 0x6c, 0xc6, 0xc6, 0x6c, 0x38, 0x00,
     0xc6, 0x00, 0xc6, 0xc6, 0xc6, 0xc6, 0x7c, 0x00, 0x18, 0x18, 0x7e, 0xc0, 0xc0, 0x7e, 0x18, 0x18,
     0x38, 0x6c, 0x64, 0xf0, 0x60, 0x66, 0xfc, 0x00, 0x66, 0x66, 0x3c, 0x7e, 0x18, 0x7e, 0x18, 0x18,
     0xf8, 0xcc, 0xcc, 0xfa, 0xc6, 0xcf, 0xc6, 0xc7, 0x0e, 0x1b, 0x18, 0x3c, 0x18, 0xd8, 0x70, 0x00]"

definition font_part_10 :: "u8 list" where
  "font_part_10 = [
     0x18, 0x30, 0x78, 0x0c, 0x7c, 0xcc, 0x76, 0x00, 0x0c, 0x18, 0x00, 0x38, 0x18, 0x18, 0x3c, 0x00,
     0x0c, 0x18, 0x7c, 0xc6, 0xc6, 0xc6, 0x7c, 0x00, 0x18, 0x30, 0xcc, 0xcc, 0xcc, 0xcc, 0x76, 0x00,
     0x76, 0xdc, 0x00, 0xdc, 0x66, 0x66, 0x66, 0x00, 0x76, 0xdc, 0x00, 0xe6, 0xf6, 0xde, 0xce, 0x00,
     0x3c, 0x6c, 0x6c, 0x3e, 0x00, 0x7e, 0x00, 0x00, 0x38, 0x6c, 0x6c, 0x38, 0x00, 0x7c, 0x00, 0x00,
     0x18, 0x00, 0x18, 0x18, 0x30, 0x63, 0x3e, 0x00, 0x00, 0x00, 0x00, 0xfe, 0xc0, 0xc0, 0x00, 0x00,
     0x00, 0x00, 0x00, 0xfe, 0x06, 0x06, 0x00, 0x00, 0x63, 0xe6, 0x6c, 0x7e, 0x33, 0x66, 0xcc, 0x0f,
     0x63, 0xe6, 0x6c, 0x7a, 0x36, 0x6a, 0xdf, 0x06, 0x18, 0x00, 0x18, 0x18, 0x3c, 0x3c, 0x18, 0x00,
     0x00, 0x33, 0x66, 0xcc, 0x66, 0x33, 0x00, 0x00, 0x00, 0xcc, 0x66, 0x33, 0x66, 0xcc, 0x00, 0x00]"

definition font_part_11 :: "u8 list" where
  "font_part_11 = [
     0x22, 0x88, 0x22, 0x88, 0x22, 0x88, 0x22, 0x88, 0x55, 0xaa, 0x55, 0xaa, 0x55, 0xaa, 0x55, 0xaa,
     0x77, 0xdd, 0x77, 0xdd, 0x77, 0xdd, 0x77, 0xdd, 0x18, 0x18, 0x18, 0x18, 0x18, 0x18, 0x18, 0x18,
     0x18, 0x18, 0x18, 0x18, 0xf8, 0x18, 0x18, 0x18, 0x18, 0x18, 0xf8, 0x18, 0xf8, 0x18, 0x18, 0x18,
     0x36, 0x36, 0x36, 0x36, 0xf6, 0x36, 0x36, 0x36, 0x00, 0x00, 0x00, 0x00, 0xfe, 0x36, 0x36, 0x36,
     0x00, 0x00, 0xf8, 0x18, 0xf8, 0x18, 0x18, 0x18, 0x36, 0x36, 0xf6, 0x06, 0xf6, 0x36, 0x36, 0x36,
     0x36, 0x36, 0x36, 0x36, 0x36, 0x36, 0x36, 0x36, 0x00, 0x00, 0xfe, 0x06, 0xf6, 0x36, 0x36, 0x36,
     0x36, 0x36, 0xf6, 0x06, 0xfe, 0x00, 0x00, 0x00, 0x36, 0x36, 0x36, 0x36, 0xfe, 0x00, 0x00, 0x00,
     0x18, 0x18, 0xf8, 0x18, 0xf8, 0x00, 0x00, 0x00, 0x00, 0x00, 0x00, 0x00, 0xf8, 0x18, 0x18, 0x18]"

definition font_part_12 :: "u8 list" where
  "font_part_12 = [
     0x18, 0x18, 0x18, 0x18, 0x1f, 0x00, 0x00, 0x00, 0x18, 0x18, 0x18, 0x18, 0xff, 0x00, 0x00, 0x00,
     0x00, 0x00, 0x00, 0x00, 0xff, 0x18, 0x18, 0x18, 0x18, 0x18, 0x18, 0x18, 0x1f, 0x18, 0x18, 0x18,
     0x00, 0x00, 0x00, 0x00, 0xff, 0x00, 0x00, 0x00, 0x18, 0x18, 0x18, 0x18, 0xff, 0x18, 0x18, 0x18,
     0x18, 0x18, 0x1f, 0x18, 0x1f, 0x18, 0x18, 0x18, 0x36, 0x36, 0x36, 0x36, 0x37, 0x36, 0x36, 0x36,
     0x36, 0x36, 0x37, 0x30, 0x3f, 0x00, 0x00, 0x00, 0x00, 0x00, 0x3f, 0x30, 0x37, 0x36, 0x36, 0x36,
     0x36, 0x36, 0xf7, 0x00, 0xff, 0x00, 0x00, 0x00, 0x00, 0x00, 0xff, 0x00, 0xf7, 0x36, 0x36, 0x36,
     0x36, 0x36, 0x37, 0x30, 0x37, 0x36, 0x36, 0x36, 0x00, 0x00, 0xff, 0x00, 0xff, 0x00, 0x00, 0x00,
     0x36, 0x36, 0xf7, 0x00, 0xf7, 0x36, 0x36, 0x36, 0x18, 0x18, 0xff, 0x00, 0xff, 0x00, 0x00, 0x00]"

definition font_part_13 :: "u8 list" where
  "font_part_13 = [
     0x36, 0x36, 0x36, 0x36, 0xff, 0x00, 0x00, 0x00, 0x00, 0x00, 0xff, 0x00, 0xff, 0x18, 0x18, 0x18,
     0x00, 0x00, 0x00, 0x00, 0xff, 0x36, 0x36, 0x36, 0x36, 0x36, 0x36, 0x36, 0x3f, 0x00, 0x00, 0x00,
     0x18, 0x18, 0x1f, 0x18, 0x1f, 0x00, 0x00, 0x00, 0x00, 0x00, 0x1f, 0x18, 0x1f, 0x18, 0x18, 0x18,
     0x00, 0x00, 0x00, 0x00, 0x3f, 0x36, 0x36, 0x36, 0x36, 0x36, 0x36, 0x36, 0xff, 0x36, 0x36, 0x36,
     0x18, 0x18, 0xff, 0x18, 0xff, 0x18, 0x18, 0x18, 0x18, 0x18, 0x18, 0x18, 0xf8, 0x00, 0x00, 0x00,
     0x00, 0x00, 0x00, 0x00, 0x1f, 0x18, 0x18, 0x18, 0xff, 0xff, 0xff, 0xff, 0xff, 0xff, 0xff, 0xff,
     0x00, 0x00, 0x00, 0x00, 0xff, 0xff, 0xff, 0xff, 0xf0, 0xf0, 0xf0, 0xf0, 0xf0, 0xf0, 0xf0, 0xf0,
     0x0f, 0x0f, 0x0f, 0x0f, 0x0f, 0x0f, 0x0f, 0x0f, 0xff, 0xff, 0xff, 0xff, 0x00, 0x00, 0x00, 0x00]"

definition font_part_14 :: "u8 list" where
  "font_part_14 = [
     0x00, 0x00, 0x76, 0xdc, 0xc8, 0xdc, 0x76, 0x00, 0x78, 0xcc, 0xcc, 0xd8, 0xcc, 0xc6, 0xcc, 0x00,
     0xfe, 0xc6, 0xc0, 0xc0, 0xc0, 0xc0, 0xc0, 0x00, 0x00, 0x00, 0xfe, 0x6c, 0x6c, 0x6c, 0x6c, 0x00,
     0xfe, 0xc6, 0x60, 0x30, 0x60, 0xc6, 0xfe, 0x00, 0x00, 0x00, 0x7e, 0xd8, 0xd8, 0xd8, 0x70, 0x00,
     0x00, 0x00, 0x66, 0x66, 0x66, 0x66, 0x7c, 0xc0, 0x00, 0x76, 0xdc, 0x18, 0x18, 0x18, 0x18, 0x00,
     0x7e, 0x18, 0x3c, 0x66, 0x66, 0x3c, 0x18, 0x7e, 0x38, 0x6c, 0xc6, 0xfe, 0xc6, 0x6c, 0x38, 0x00,
     0x38, 0x6c, 0xc6, 0xc6, 0x6c, 0x6c, 0xee, 0x00, 0x0e, 0x18, 0x0c, 0x3e, 0x66, 0x66, 0x3c, 0x00,
     0x00, 0x00, 0x7e, 0xdb, 0xdb, 0x7e, 0x00, 0x00, 0x06, 0x0c, 0x7e, 0xdb, 0xdb, 0x7e, 0x60, 0xc0,
     0x1e, 0x30, 0x60, 0x7e, 0x60, 0x30, 0x1e, 0x00, 0x00, 0x7c, 0xc6, 0xc6, 0xc6, 0xc6, 0xc6, 0x00]"

definition font_part_15 :: "u8 list" where
  "font_part_15 = [
     0x00, 0xfe, 0x00, 0xfe, 0x00, 0xfe, 0x00, 0x00, 0x18, 0x18, 0x7e, 0x18, 0x18, 0x00, 0x7e, 0x00,
     0x30, 0x18, 0x0c, 0x18, 0x30, 0x00, 0x7e, 0x00, 0x0c, 0x18, 0x30, 0x18, 0x0c, 0x00, 0x7e, 0x00,
     0x0e, 0x1b, 0x1b, 0x18, 0x18, 0x18, 0x18, 0x18, 0x18, 0x18, 0x18, 0x18, 0x18, 0xd8, 0xd8, 0x70,
     0x00, 0x18, 0x00, 0x7e, 0x00, 0x18, 0x00, 0x00, 0x00, 0x76, 0xdc, 0x00, 0x76, 0xdc, 0x00, 0x00,
     0x38, 0x6c, 0x6c, 0x38, 0x00, 0x00, 0x00, 0x00, 0x00, 0x00, 0x00, 0x18, 0x18, 0x00, 0x00, 0x00,
     0x00, 0x00, 0x00, 0x18, 0x00, 0x00, 0x00, 0x00, 0x0f, 0x0c, 0x0c, 0x0c, 0xec, 0x6c, 0x3c, 0x1c,
     0x6c, 0x36, 0x36, 0x36, 0x36, 0x00, 0x00, 0x00, 0x78, 0x0c, 0x18, 0x30, 0x7c, 0x00, 0x00, 0x00,
     0x00, 0x00, 0x3c, 0x3c, 0x3c, 0x3c, 0x00, 0x00, 0x00, 0x00, 0x00, 0x00, 0x00, 0x00, 0x00, 0x00]"

definition fontdata_8x8 :: "u8 list" where
  "fontdata_8x8 = concat [font_part_0, font_part_1, font_part_2, font_part_3, font_part_4, font_part_5, font_part_6, font_part_7, font_part_8, font_part_9, font_part_10, font_part_11, font_part_12, font_part_13, font_part_14, font_part_15]"

lemmas font_parts = font_part_0_def font_part_1_def font_part_2_def font_part_3_def font_part_4_def font_part_5_def font_part_6_def font_part_7_def font_part_8_def font_part_9_def font_part_10_def font_part_11_def font_part_12_def font_part_13_def font_part_14_def font_part_15_def

lemma length_fontdata: "length fontdata_8x8 = 2048"
  by (simp add: fontdata_8x8_def font_parts)

subsection \<open>Characters and strings\<close>

text \<open>The inner loop over the columns, with \<open>k\<close> columns to go, and the outer loop over the rows.\<close>

fun char_cols :: "fbinfo \<Rightarrow> int \<Rightarrow> int \<Rightarrow> u32 \<Rightarrow> u32 \<Rightarrow> nat \<Rightarrow> u8 list \<Rightarrow> ts_fault + u8 list" where
  "char_cols fb x y colidx bits 0 mem = Inr mem"
| "char_cols fb x y colidx bits (Suc k) mem =
     tbind (if bits AND 0x80 \<noteq> 0 then pixel fb x y colidx mem else Inr mem)
       (char_cols fb (wrap32 (x + 1)) y colidx (push_bit 1 bits) k)"

fun char_rows :: "fbinfo \<Rightarrow> int \<Rightarrow> int \<Rightarrow> int \<Rightarrow> u32 \<Rightarrow> nat \<Rightarrow> nat \<Rightarrow> u8 list \<Rightarrow> ts_fault + u8 list" where
  "char_rows fb x y c colidx i 0 mem = Inr mem"
| "char_rows fb x y c colidx i (Suc k) mem =
     (let a = 8 * c + int i in
      tbind (if a < 0 then Inl Out_of_bounds else samp_get fontdata_8x8 (nat a)) (\<lambda>bits.
      tbind (char_cols fb x (wrap32 (y + int i)) colidx (ucast bits) 8 mem)
        (char_rows fb x y c colidx (i + 1) k)))"

definition put_char :: "fbinfo \<Rightarrow> int \<Rightarrow> int \<Rightarrow> int \<Rightarrow> u32 \<Rightarrow> u8 list \<Rightarrow> ts_fault + u8 list" where
  "put_char fb x y c colidx = char_rows fb x y c colidx 0 8"

fun put_string :: "fbinfo \<Rightarrow> int \<Rightarrow> int \<Rightarrow> string \<Rightarrow> u32 \<Rightarrow> u8 list \<Rightarrow> ts_fault + u8 list" where
  "put_string fb x y [] colidx mem = Inr mem"
| "put_string fb x y (c # s) colidx mem =
     tbind (put_char fb x y (int (of_char c)) colidx mem) (put_string fb (wrap32 (x + 8)) y s colidx)"

definition put_string_center :: "fbinfo \<Rightarrow> int \<Rightarrow> int \<Rightarrow> string \<Rightarrow> u32 \<Rightarrow> u8 list \<Rightarrow> ts_fault + u8 list" where
  "put_string_center fb x y s = put_string fb (wrap32 (x - int (length s div 2 * 8))) (wrap32 (y - 4)) s"

subsection \<open>Text is drawn from pixels\<close>

context drawing
begin

lemma P_char_cols: "in_s32 x \<Longrightarrow> in_s32 y \<Longrightarrow> good c \<Longrightarrow> P (char_cols fb x y c bits k)"
proof (induction k arbitrary: x bits)
  case 0
  have "char_cols fb x y c bits 0 = Inr" by (rule ext) simp
  then show ?case using P_nothing by simp
next
  case (Suc k)
  have eq: "char_cols fb x y c bits (Suc k) = (\<lambda>mem. tbind ((if bits AND 0x80 \<noteq> 0 then pixel fb x y c else Inr) mem)
      (char_cols fb (wrap32 (x + 1)) y c (push_bit 1 bits) k))" by (rule ext) simp
  show ?case unfolding eq using Suc by (intro P_then) (simp_all add: P_nothing P_pixel)
qed

lemma P_char_rows: "in_s32 x \<Longrightarrow> good c \<Longrightarrow> 0 \<le> ch \<Longrightarrow> ch < 256 \<Longrightarrow> i + k \<le> 8 \<Longrightarrow> P (char_rows fb x y ch c i k)"
proof (induction k arbitrary: i)
  case 0
  have "char_rows fb x y ch c i 0 = Inr" by (rule ext) simp
  then show ?case using P_nothing by simp
next
  case (Suc k)
  let ?a = "8 * ch + int i"
  have a: "\<not> ?a < 0" "nat ?a < length fontdata_8x8" using Suc.prems by (simp_all add: length_fontdata)
  have eq: "char_rows fb x y ch c i (Suc k) = (\<lambda>mem. tbind
      (char_cols fb x (wrap32 (y + int i)) c (ucast (fontdata_8x8 ! nat ?a)) 8 mem) (char_rows fb x y ch c (i + 1) k))"
    using a by (intro ext) (simp add: Let_def)
  show ?case unfolding eq using Suc by (intro P_then P_char_cols) simp_all
qed

lemma P_put_string: "in_s32 x \<Longrightarrow> good c \<Longrightarrow> P (put_string fb x y s c)"
proof (induction s arbitrary: x)
  case Nil
  have "put_string fb x y [] c = Inr" by (rule ext) simp
  then show ?case using P_nothing by simp
next
  case (Cons ch s)
  have eq: "put_string fb x y (ch # s) c = (\<lambda>mem. tbind (put_char fb x y (int (of_char ch)) c mem)
      (put_string fb (wrap32 (x + 8)) y s c))" by (rule ext) simp
  have "int (of_char ch) < 256" using nat_of_char_less_256 [of ch] by simp
  then have "P (put_char fb x y (int (of_char ch)) c)"
    unfolding put_char_def using Cons.prems by (intro P_char_rows) simp_all
  then show ?case unfolding eq using Cons by (intro P_then) simp_all
qed

end

text \<open>
  C38. On a good screen nothing is ever written outside the mapping, no table is indexed out of range, nothing
  divides by zero and every loop ends: for lines, rectangles and crosses at all positions up to a quarter
  of the integer range, on or off the screen, and for every text at every position.
\<close>

theorem drawing_inside:
  assumes "fb_ok fb" "length mem = fb_size fb" "c < 255" "small x1" "small y1" "small x2" "small y2"
    and "- 0x3ffffff0 \<le> x" "x < 0x3ffffff0" "- 0x3ffffff0 \<le> y" "y < 0x3ffffff0"
  shows "(\<exists>m. line fb x1 y1 x2 y2 c mem = Inr m \<and> length m = fb_size fb) \<and>
    (\<exists>m. rect fb x1 y1 x2 y2 c mem = Inr m \<and> length m = fb_size fb) \<and>
    (\<exists>m. put_cross fb x y c mem = Inr m \<and> length m = fb_size fb) \<and>
    (\<exists>m. put_string_center fb a b s c mem = Inr m \<and> length m = fb_size fb)"
proof -
  have "c < 256" "c + 1 < 256" using assms(3) by (simp_all add: word_less_nat_alt unat_word_ariths)
  then have c: "colour_ok c" "colour_ok (c + 1)" using plain_colour(1) by blast+
  have "stays_inside (fb_size fb) (line fb x1 y1 x2 y2 c)" "stays_inside (fb_size fb) (rect fb x1 y1 x2 y2 c)"
    "stays_inside (fb_size fb) (put_cross fb x y c)" "stays_inside (fb_size fb) (put_string_center fb a b s c)"
    using assms(1) inside.P_line [OF assms(4-7) c(1)] inside.P_rect [OF assms(4-7) c(1)]
      inside.P_put_cross [OF assms(8-11) c] inside.P_put_string [OF in_s32_wrap32 c(1)]
    by (simp_all add: put_string_center_def)
  then show ?thesis using assms(2) unfolding stays_inside_def by blast
qed

theorem drawing_inside_witness:
  "\<exists>m. put_cross demo_fb 2 1 2 (replicate 16 0) = Inr m \<and> length m = 16"
  using drawing_inside [OF demo_fb_ok, of "replicate 16 0" 2 0 0 3 1 2 1]
  by (simp add: demo_fb_def small_def)

end
