(* ===== verification/FbScreen.thy ===== *)
theory FbScreen
  imports FbFont Linear Lcd
begin

section \<open>tslib/tests/fbutils.c: opening the screen\<close>

text \<open>
  \<^verbatim>\<open>open_framebuffer\<close>, \<^verbatim>\<open>close_framebuffer\<close> and \<^verbatim>\<open>setcolor\<close>. System calls are requests to the environment, as the
  calls of the drivers are; what an \<^verbatim>\<open>ioctl\<close> stores is fetched with \<^const>\<open>out\<close>. The two environment variables are
  arguments. The result is a fault or the value returned.
\<close>

record fbstate = kworld +
  con_fd :: u32
  fb_fd :: u32
  last_vt :: u32
  consoledevice :: string
  fb_mem :: "u8 list"
  fbi :: fbinfo

abbreviation failed :: "u32 \<Rightarrow> bool" where
  "failed r \<equiv> sint r < 0"

definition perror :: "kenv \<Rightarrow> string \<Rightarrow> ('s kworld_scheme, unit) state" where
  "perror env m = callv env ''perror'' [Str m]"

definition ioctl :: "kenv \<Rightarrow> u32 \<Rightarrow> string \<Rightarrow> karg list \<Rightarrow> ('s kworld_scheme, u32) state" where
  "ioctl env fd req xs = call env ''ioctl'' (Num fd # Sym req # xs)"

text \<open>An error path: the message, the descriptors that are closed, the value -1.\<close>

definition give_up :: "kenv \<Rightarrow> string \<Rightarrow> u32 list \<Rightarrow> ('s kworld_scheme, ts_fault + u32) state" where
  "give_up env m fds = do { perror env m; each (\<lambda>fd. callv env ''close'' [Num fd]) fds; ret (Inr (- 1)) }"

text \<open>\<^verbatim>\<open>sprintf (vtname, "%s%d", consoledevice, nr)\<close> into an array of 128 bytes.\<close>

definition vtname :: "string \<Rightarrow> u32 \<Rightarrow> string option" where
  "vtname console nr = (let s = console @ dec_int (sint nr) in if length s < 128 then Some s else None)"

definition open_console :: "kenv \<Rightarrow> (fbstate, ts_fault + u32) state" where
  "open_console env = do {
     console \<leftarrow> gets consoledevice;
     (case vtname console 1 of None \<Rightarrow> ret (Inl Out_of_bounds) | Some name1 \<Rightarrow> do {
     fd \<leftarrow> call env ''open'' [Str name1, Sym ''O_WRONLY''];
     (if failed fd then give_up env ''open consoledevice'' [] else do {
     r \<leftarrow> ioctl env fd ''VT_OPENQRY'' [];
     (if failed r then give_up env ''ioctl VT_OPENQRY'' [] else do {
     nr \<leftarrow> out env ''VT_OPENQRY'' 0;
     callv env ''close'' [Num fd];
     (case vtname console nr of None \<Rightarrow> ret (Inl Out_of_bounds) | Some name \<Rightarrow> do {
     con \<leftarrow> call env ''open'' [Str name, Sym ''O_RDWR | O_NDELAY''];
     modify (\<lambda>s. s\<lparr>con_fd := con\<rparr>);
     (if failed con then give_up env ''open tty'' [] else do {
     r1 \<leftarrow> ioctl env con ''VT_GETSTATE'' [];
     (if r1 = 0 then do {
        active \<leftarrow> out env ''VT_GETSTATE'' 0;
        modify (\<lambda>s. s\<lparr>last_vt := take_bit 16 active\<rparr>) } else skip);
     r2 \<leftarrow> ioctl env con ''VT_ACTIVATE'' [Num nr];
     (if failed r2 then give_up env ''VT_ACTIVATE'' [con] else do {
     r3 \<leftarrow> ioctl env con ''VT_WAITACTIVE'' [Num nr];
     (if failed r3 then give_up env ''VT_WAITACTIVE'' [con] else do {
     r4 \<leftarrow> ioctl env con ''KDSETMODE'' [Sym ''KD_GRAPHICS''];
     (if failed r4 then give_up env ''KDSETMODE'' [con] else ret (Inr 0)) }) }) }) }) }) }) }) }"

text \<open>What the two requests for the geometry store.\<close>

definition get_fix :: "kenv \<Rightarrow> (fbstate, unit) state" where
  "get_fix env = do {
     len \<leftarrow> out env ''FBIOGET_FSCREENINFO'' 0;
     ll \<leftarrow> out env ''FBIOGET_FSCREENINFO'' 1;
     modify (\<lambda>s. s\<lparr>fbi := (fbi s)\<lparr>fi_smem_len := len, fi_line_length := ll\<rparr>\<rparr>) }"

definition get_bitfield :: "kenv \<Rightarrow> nat \<Rightarrow> (fbstate, fb_channel) state" where
  "get_bitfield env i = do {
     off \<leftarrow> out env ''FBIOGET_VSCREENINFO'' i;
     len \<leftarrow> out env ''FBIOGET_VSCREENINFO'' (i + 1);
     ret \<lparr>ch_offset = off, ch_length = len\<rparr> }"

definition get_var :: "kenv \<Rightarrow> (fbstate, unit) state" where
  "get_var env = do {
     xr \<leftarrow> out env ''FBIOGET_VSCREENINFO'' 0;
     yr \<leftarrow> out env ''FBIOGET_VSCREENINFO'' 1;
     xv \<leftarrow> out env ''FBIOGET_VSCREENINFO'' 2;
     yv \<leftarrow> out env ''FBIOGET_VSCREENINFO'' 3;
     bpp \<leftarrow> out env ''FBIOGET_VSCREENINFO'' 4;
     r \<leftarrow> get_bitfield env 5;
     g \<leftarrow> get_bitfield env 7;
     b \<leftarrow> get_bitfield env 9;
     modify (\<lambda>s. s\<lparr>fbi := (fbi s)\<lparr>va_xres := xr, va_yres := yr, va_xres_virtual := xv, va_yres_virtual := yv,
       va_bits_per_pixel := bpp, va_red := r, va_green := g, va_blue := b\<rparr>\<rparr>) }"

text \<open>
  The table of line addresses: \<^verbatim>\<open>malloc\<close> gets the product of 32 bits, which is too small from \<open>2 ^ 30\<close> lines on, the loop
  writes one entry for every line, and \<^verbatim>\<open>addr\<close> wraps around.
\<close>

definition lines_table :: "u32 \<Rightarrow> fbinfo \<Rightarrow> ts_fault + u32 list" where
  "lines_table p fb =
     (if p = NULL \<and> va_yres_virtual fb \<noteq> 0 then Inl Null_deref
      else if va_yres_virtual fb \<ge> 0x40000000 then Inl Out_of_bounds
      else Inr (map (\<lambda>y. of_nat y * fi_line_length fb) [0..<unat (va_yres_virtual fb)]))"

definition make_lines :: "kenv \<Rightarrow> (fbstate, ts_fault + u32) state" where
  "make_lines env = do {
     fb \<leftarrow> gets fbi;
     p \<leftarrow> call env ''malloc'' [Num (4 * va_yres_virtual fb)];
     (case lines_table p fb of
        Inl e \<Rightarrow> ret (Inl e)
      | Inr la \<Rightarrow> do { modify (\<lambda>s. s\<lparr>fbi := (fbi s)\<lparr>line_addr := la\<rparr>\<rparr>); ret (Inr 0) }) }"

text \<open>The part of \<^verbatim>\<open>open_framebuffer\<close> behind the console.\<close>

definition open_screen :: "kenv \<Rightarrow> string \<Rightarrow> (fbstate, ts_fault + u32) state" where
  "open_screen env fbdevice = do {
     fd \<leftarrow> call env ''open'' [Str fbdevice, Sym ''O_RDWR''];
     modify (\<lambda>s. s\<lparr>fb_fd := fd\<rparr>);
     (if fd = - 1 then give_up env ''open fbdevice'' [] else do {
     r1 \<leftarrow> ioctl env fd ''FBIOGET_FSCREENINFO'' [];
     (if failed r1 then give_up env ''ioctl FBIOGET_FSCREENINFO'' [fd] else do {
     get_fix env;
     r2 \<leftarrow> ioctl env fd ''FBIOGET_VSCREENINFO'' [];
     (if failed r2 then give_up env ''ioctl FBIOGET_VSCREENINFO'' [fd] else do {
     get_var env;
     fb \<leftarrow> gets fbi;
     p \<leftarrow> call env ''mmap'' [Num NULL, Num (fi_smem_len fb), Num fd];
     (if p = - 1 then give_up env ''mmap framebuffer'' [fd] else do {
     modify (\<lambda>s. s\<lparr>fb_mem := replicate (unat (fi_smem_len fb)) 0\<rparr>);
     modify (\<lambda>s. s\<lparr>fbi := (fbi s)\<lparr>bytes_per_pixel := unat ((va_bits_per_pixel fb + 7) div 8)\<rparr>\<rparr>);
     make_lines env }) }) }) }) }"

definition open_framebuffer :: "kenv \<Rightarrow> string option \<Rightarrow> string option \<Rightarrow> (fbstate, ts_fault + u32) state" where
  "open_framebuffer env fbdev console = do {
     let fbdevice = (case fbdev of None \<Rightarrow> ''/dev/fb0'' | Some d \<Rightarrow> d);
     modify (\<lambda>s. s\<lparr>consoledevice := (case console of None \<Rightarrow> ''/dev/tty'' | Some d \<Rightarrow> d)\<rparr>);
     con \<leftarrow> gets consoledevice;
     c \<leftarrow> (if con \<noteq> ''none'' then open_console env else ret (Inr 0));
     (if c = Inr 0 then open_screen env fbdevice else ret c) }"

definition close_framebuffer :: "kenv \<Rightarrow> (fbstate, unit) state" where
  "close_framebuffer env = do {
     fb \<leftarrow> gets fbi;
     fd \<leftarrow> gets fb_fd;
     callv env ''munmap'' [Sym ''fbuffer'', Num (fi_smem_len fb)];
     callv env ''close'' [Num fd];
     console \<leftarrow> gets consoledevice;
     (if console \<noteq> ''none'' then do {
        con \<leftarrow> gets con_fd;
        r1 \<leftarrow> ioctl env con ''KDSETMODE'' [Sym ''KD_TEXT''];
        (if failed r1 then perror env ''KDSETMODE'' else skip);
        vt \<leftarrow> gets last_vt;
        (if sint vt \<ge> 0 then do {
           r2 \<leftarrow> ioctl env con ''VT_ACTIVATE'' [Num vt];
           (if r2 \<noteq> 0 then perror env ''VT_ACTIVATE'' else skip) } else skip);
        callv env ''close'' [Num con] } else skip);
     callv env ''free'' [Sym ''line_addr''] }"

subsection \<open>Colours\<close>

text \<open>One channel of the shifts in \<^verbatim>\<open>setcolor\<close>.\<close>

definition channel :: "u32 \<Rightarrow> fb_channel \<Rightarrow> ts_fault + u32" where
  "channel v f =
     (let n = 8 - ch_length f in
      if n \<ge> 32 \<or> ch_offset f \<ge> 32 then Inl Out_of_bounds
      else Inr (push_bit (unat (ch_offset f)) (drop_bit (unat n) v)))"

definition direct_colour :: "fbinfo \<Rightarrow> u32 \<Rightarrow> ts_fault + u32" where
  "direct_colour fb v =
     tbind (channel (drop_bit 16 v AND 0xff) (va_red fb)) (\<lambda>r.
     tbind (channel (drop_bit 8 v AND 0xff) (va_green fb)) (\<lambda>g.
     tbind (channel (v AND 0xff) (va_blue fb)) (\<lambda>b. Inr (r OR g OR b))))"

definition setcolor :: "kenv \<Rightarrow> u32 \<Rightarrow> u32 \<Rightarrow> (fbstate, ts_fault + unit) state" where
  "setcolor env colidx v = do {
     fb \<leftarrow> gets fbi;
     res \<leftarrow> (if bytes_per_pixel fb = 2 \<or> bytes_per_pixel fb = 4 then ret (direct_colour fb v)
       else do {
         fd \<leftarrow> gets fb_fd;
         r \<leftarrow> ioctl env fd ''FBIOPUTCMAP'' [Num colidx, Num (drop_bit 8 v AND 0xff00), Num (v AND 0xff00),
           Num (push_bit 8 v AND 0xff00)];
         (if failed r then perror env ''ioctl FBIOPUTCMAP'' else skip);
         ret (Inr colidx) });
     (case tbind res (\<lambda>c. samp_put (colormap fb) (unat colidx) c) of
        Inl e \<Rightarrow> ret (Inl e)
      | Inr cm \<Rightarrow> do { modify (\<lambda>s. s\<lparr>fbi := (fbi s)\<lparr>colormap := cm\<rparr>\<rparr>); ret (Inr ()) }) }"

subsection \<open>An open screen is a good screen\<close>

text \<open>What the driver of the frame buffer answers to the two requests.\<close>

definition fb_answers :: "kenv \<Rightarrow> (nat \<Rightarrow> u32) \<Rightarrow> (nat \<Rightarrow> u32) \<Rightarrow> bool" where
  "fb_answers env fx va \<longleftrightarrow>
     (\<forall>n i. env n (QOut ''FBIOGET_FSCREENINFO'' i) = fx i \<and> env n (QOut ''FBIOGET_VSCREENINFO'' i) = va i)"

definition screen_info :: "fbinfo \<Rightarrow> (nat \<Rightarrow> u32) \<Rightarrow> (nat \<Rightarrow> u32) \<Rightarrow> fbinfo" where
  "screen_info fb fx va = \<lparr>fi_smem_len = fx 0, fi_line_length = fx 1, va_xres = va 0, va_yres = va 1,
     va_xres_virtual = va 2, va_yres_virtual = va 3, va_bits_per_pixel = va 4,
     va_red = \<lparr>ch_offset = va 5, ch_length = va 6\<rparr>, va_green = \<lparr>ch_offset = va 7, ch_length = va 8\<rparr>,
     va_blue = \<lparr>ch_offset = va 9, ch_length = va 10\<rparr>,
     line_addr = map (\<lambda>y. of_nat y * fx 1) [0..<unat (va 3)],
     bytes_per_pixel = unat ((va 4 + 7) div 8), colormap = colormap fb\<rparr>"

lemma result_give_up [simp]: "result (give_up env m fds) s = Inr (- 1)"
  by (simp add: give_up_def result_bind del: run_state_bind)

lemma get_fix_info:
  assumes "fb_answers env fx va"
  shows "fbi (exec (get_fix env) s) = (fbi s)\<lparr>fi_smem_len := fx 0, fi_line_length := fx 1\<rparr>"
    "fb_mem (exec (get_fix env) s) = fb_mem s"
  using assms by (simp_all add: get_fix_def fb_answers_def)

lemma get_var_info:
  assumes "fb_answers env fx va"
  shows "fbi (exec (get_var env) s) = (fbi s)\<lparr>va_xres := va 0, va_yres := va 1, va_xres_virtual := va 2,
     va_yres_virtual := va 3, va_bits_per_pixel := va 4, va_red := \<lparr>ch_offset = va 5, ch_length = va 6\<rparr>,
     va_green := \<lparr>ch_offset = va 7, ch_length = va 8\<rparr>, va_blue := \<lparr>ch_offset = va 9, ch_length = va 10\<rparr>\<rparr>"
    "fb_mem (exec (get_var env) s) = fb_mem s"
  using assms by (simp_all add: get_var_def get_bitfield_def fb_answers_def)

lemma lines_table_Inr:
  "lines_table p fb = Inr la \<Longrightarrow> la = map (\<lambda>y. of_nat y * fi_line_length fb) [0..<unat (va_yres_virtual fb)]"
  unfolding lines_table_def by (metis Inl_Inr_False sum.inject(2))

lemma make_lines_info:
  assumes "result (make_lines env) s = Inr 0"
  shows "fbi (exec (make_lines env) s) = (fbi s)\<lparr>line_addr :=
      map (\<lambda>y. of_nat y * fi_line_length (fbi s)) [0..<unat (va_yres_virtual (fbi s))]\<rparr>"
    "fb_mem (exec (make_lines env) s) = fb_mem s"
proof -
  let ?t = "lines_table (env (length (trace s)) (QCall ''malloc'' [Num (4 * va_yres_virtual (fbi s))])) (fbi s)"
  obtain la where la: "?t = Inr la" using assms by (cases ?t) (simp_all add: make_lines_def)
  have "la = map (\<lambda>y. of_nat y * fi_line_length (fbi s)) [0..<unat (va_yres_virtual (fbi s))]"
    using lines_table_Inr [OF la] .
  with la show "fbi (exec (make_lines env) s) = (fbi s)\<lparr>line_addr :=
      map (\<lambda>y. of_nat y * fi_line_length (fbi s)) [0..<unat (va_yres_virtual (fbi s))]\<rparr>"
    "fb_mem (exec (make_lines env) s) = fb_mem s"
    by (simp_all add: make_lines_def)
qed

text \<open>An error path is not success.\<close>

lemma success_if: "(fst (if b then run_state (give_up env m fds) s else r) = Inr 0) = (\<not> b \<and> fst r = Inr 0)"
  by simp

lemma open_screen_info:
  assumes "fb_answers env fx va" "result (open_screen env d) s = Inr 0"
  shows "fbi (exec (open_screen env d) s) = screen_info (fbi s) fx va"
    "fb_mem (exec (open_screen env d) s) = replicate (unat (fx 0)) 0"
  using assms(2) unfolding open_screen_def ioctl_def
  by (simp_all add: get_fix_info [OF assms(1)] get_var_info [OF assms(1)] screen_info_def make_lines_info result_bind exec_bind success_if del: run_state_bind)

lemma keeps_option: "keeps f m \<Longrightarrow> (\<And>a. keeps f (g a)) \<Longrightarrow> keeps f (case x of None \<Rightarrow> m | Some a \<Rightarrow> g a)"
  by (cases x) simp_all

lemma keeps_each: "(\<And>x. keeps f (g x)) \<Longrightarrow> keeps f (each g xs)"
  by (induction xs) (simp_all add: keeps_bind keeps_ret)

lemma fbi_callv: "keeps fbi (callv env g xs)" "keeps fbi (call env g xs)" "keeps fbi (out env g i)"
  by (simp_all add: keeps_def)

lemma fbi_give_up: "keeps fbi (give_up env m fds)"
  unfolding give_up_def perror_def by (intro keeps_bind keeps_each keeps_ret fbi_callv)

lemma open_console_fbi: "keeps fbi (open_console env)"
  unfolding open_console_def ioctl_def
  by (intro keeps_bind keeps_if keeps_option keeps_ret keeps_gets keeps_modify fbi_callv fbi_give_up) simp_all

lemma open_framebuffer_info:
  assumes "fb_answers env fx va" "result (open_framebuffer env fbdev console) s = Inr 0"
  shows "fbi (exec (open_framebuffer env fbdev console) s) = screen_info (fbi s) fx va"
    "fb_mem (exec (open_framebuffer env fbdev console) s) = replicate (unat (fx 0)) 0"
proof -
  define s1 where "s1 = s\<lparr>consoledevice := (case console of None \<Rightarrow> ''/dev/tty'' | Some d \<Rightarrow> d)\<rparr>"
  define m where "m = (if consoledevice s1 \<noteq> ''none'' then open_console env else ret (Inr 0))"
  define d where "d = (case fbdev of None \<Rightarrow> ''/dev/fb0'' | Some d \<Rightarrow> d)"
  have run: "run_state (open_framebuffer env fbdev console) s =
      run_state (if result m s1 = Inr 0 then open_screen env d else ret (result m s1)) (exec m s1)"
    unfolding open_framebuffer_def m_def d_def s1_def by (simp add: Let_def split_beta)
  have "keeps fbi m" unfolding m_def by (intro keeps_if open_console_fbi keeps_ret)
  then have "fbi (exec m s1) = fbi s" by (simp add: keepsD s1_def)
  moreover have ok: "result m s1 = Inr 0" using assms(2) unfolding run by (cases "result m s1 = Inr 0") simp_all
  moreover have "result (open_screen env d) (exec m s1) = Inr 0" using assms(2) ok unfolding run by simp
  ultimately show "fbi (exec (open_framebuffer env fbdev console) s) = screen_info (fbi s) fx va"
    "fb_mem (exec (open_framebuffer env fbdev console) s) = replicate (unat (fx 0)) 0"
    unfolding run using open_screen_info [OF assms(1), of d "exec m s1"] by simp_all
qed

text \<open>The geometry a driver of the frame buffer has to announce.\<close>

definition good_geometry :: "(nat \<Rightarrow> u32) \<Rightarrow> (nat \<Rightarrow> u32) \<Rightarrow> bool" where
  "good_geometry fx va \<longleftrightarrow> 0 < va 4 \<and> va 4 \<le> 32 \<and>
     unat (va 2) * unat ((va 4 + 7) div 8) \<le> unat (fx 1) \<and> unat (va 3) * unat (fx 1) \<le> unat (fx 0) \<and>
     0 < va 0 \<and> 0 < va 1 \<and> unat (va 0) < 2 ^ 31 \<and> unat (va 1) < 2 ^ 31 \<and> va 0 \<le> va 2 \<and> va 1 \<le> va 3"

lemma good_screen:
  assumes "good_geometry fx va" "length (colormap fb) = 256"
  shows "fb_ok (screen_info fb fx va)"
proof -
  have "0 < unat (va 4)" "unat (va 4) \<le> 32"
    using assms(1) by (simp_all add: good_geometry_def word_less_nat_alt word_le_nat_alt)
  then have "8 \<le> unat (va 4 + 7)" by (simp add: unat_word_ariths)
  then have "0 < unat (va 4 + 7) div 8" by (simp add: div_greater_zero_iff)
  then have "0 < unat ((va 4 + 7) div 8)" by (simp add: unat_div_distrib)
  then show ?thesis using assms by (simp add: fb_ok_def screen_info_def good_geometry_def)
qed

text \<open>The answers of the frame buffer layer for the driver of \<^verbatim>\<open>10th_lcd/lcd.c\<close>.\<close>

definition lcd_fix :: "fb_info \<Rightarrow> nat \<Rightarrow> u32" where
  "lcd_fix f i = (if i = 0 then smem_len f else line_length f)"

definition lcd_var :: "fb_info \<Rightarrow> nat \<Rightarrow> u32" where
  "lcd_var f i = [xres f, yres f, xres_virtual f, yres_virtual f, bits_per_pixel f,
     of_nat (bf_offset (var_red f)), of_nat (bf_length (var_red f)), of_nat (bf_offset (var_green f)),
     of_nat (bf_length (var_green f)), of_nat (bf_offset (var_blue f)), of_nat (bf_length (var_blue f))] ! min i 10"

text \<open>
  C39. On the frame buffer that the driver \<^verbatim>\<open>10th_lcd/lcd.c\<close> announces, a successful \<^verbatim>\<open>open_framebuffer\<close> leaves a
  screen on which drawing is safe: 240 by 320 pixels of two bytes, cleared, with the address of every line
  inside the mapping.
\<close>

theorem open_on_lcd:
  assumes "fb_answers env (lcd_fix (lcd_info f)) (lcd_var (lcd_info f))" "length (colormap (fbi s)) = 256"
    and "result (open_framebuffer env fbdev console) s = Inr 0"
  shows "let t = exec (open_framebuffer env fbdev console) s in
    fb_ok (fbi t) \<and> fb_mem t = replicate (fb_size (fbi t)) 0 \<and> fb_size (fbi t) = 153600 \<and>
    va_xres (fbi t) = 240 \<and> va_yres (fbi t) = 320 \<and> bytes_per_pixel (fbi t) = 2 \<and>
    (\<forall>y < 320. unat (line_addr (fbi t) ! y) = 480 * y)"
proof -
  let ?fx = "lcd_fix (lcd_info f)" and ?va = "lcd_var (lcd_info f)"
  let ?t = "exec (open_framebuffer env fbdev console) s"
  have "good_geometry ?fx ?va" by (simp add: good_geometry_def lcd_fix_def lcd_var_def lcd_info_def)
  then have ok: "fb_ok (fbi ?t)" using open_framebuffer_info(1) [OF assms(1,3)] good_screen assms(2) by simp
  have info: "fi_smem_len (fbi ?t) = 153600" "va_xres (fbi ?t) = 240" "va_yres (fbi ?t) = 320"
    "bytes_per_pixel (fbi ?t) = 2" "fi_line_length (fbi ?t) = 480" "va_yres_virtual (fbi ?t) = 320"
    unfolding open_framebuffer_info(1) [OF assms(1,3)]
    by (simp_all add: screen_info_def lcd_fix_def lcd_var_def lcd_info_def)
  have "fb_mem ?t = replicate (fb_size (fbi ?t)) 0"
    unfolding open_framebuffer_info(2) [OF assms(1,3)] info by (simp add: lcd_fix_def lcd_info_def)
  moreover have "unat (line_addr (fbi ?t) ! y) = 480 * y" if "y < 320" for y
    using line_addr_nth(2) [OF ok, of y] that by (simp add: info)
  ultimately show ?thesis using ok info by (simp add: Let_def)
qed

definition lcd_env :: kenv where
  "lcd_env n q = (case q of
     QOut f i \<Rightarrow> if f = ''FBIOGET_FSCREENINFO'' then lcd_fix (lcd_info fb_zero) i else lcd_var (lcd_info fb_zero) i
   | QCall f xs \<Rightarrow> if f = ''ioctl'' then 0 else 3
   | QRd a \<Rightarrow> 0)"

definition fb_start :: fbstate where
  "fb_start = \<lparr>trace = [], con_fd = 0, fb_fd = 0, last_vt = - 1, consoledevice = [], fb_mem = [],
     fbi = demo_fb\<lparr>colormap := replicate 256 0\<rparr>\<rparr>"

lemma lcd_env_opens: "result (open_framebuffer lcd_env None (Some ''none'')) fb_start = Inr 0"
  by (simp add: open_framebuffer_def open_screen_def ioctl_def get_fix_def get_var_def get_bitfield_def make_lines_def
    lines_table_def lcd_env_def lcd_fix_def lcd_var_def lcd_info_def fb_start_def Let_def)

theorem open_on_lcd_witness:
  "let t = exec (open_framebuffer lcd_env None (Some ''none'')) fb_start in fb_ok (fbi t) \<and> va_xres (fbi t) = 240"
proof -
  have "fb_answers lcd_env (lcd_fix (lcd_info fb_zero)) (lcd_var (lcd_info fb_zero))"
    by (simp add: fb_answers_def lcd_env_def)
  moreover have "length (colormap (fbi fb_start)) = 256" by (simp add: fb_start_def)
  ultimately show ?thesis using open_on_lcd [OF _ _ lcd_env_opens] by (simp add: Let_def)
qed

subsection \<open>Colours of the program and of the driver\<close>

definition kernel_channel :: "fb_channel \<Rightarrow> fb_bitfield" where
  "kernel_channel f = \<lparr>bf_offset = unat (ch_offset f), bf_length = unat (ch_length f)\<rparr>"

definition good_channel :: "fb_channel \<Rightarrow> bool" where
  "good_channel f \<longleftrightarrow> ch_length f \<le> 8 \<and> ch_offset f < 32"

lemma channel_field:
  assumes "good_channel f" "v \<le> 0xff"
  shows "channel v f = Inr (chan_to_field (push_bit 8 v) (kernel_channel f))"
proof -
  have len: "unat (ch_length f) \<le> 8" using assms(1) by (simp add: good_channel_def word_le_nat_alt)
  then have n: "unat (8 - ch_length f) = 8 - unat (ch_length f)"
    using assms(1) by (simp add: good_channel_def unat_sub)
  have "take_bit 8 v = v" using assms(2) by (simp add: take_bit_eq_mod word_le_nat_alt mod_word_less word_less_nat_alt)
  then have b: "\<not> bit v k" if "8 \<le> k" for k using that by (metis bit_take_bit_iff not_le)
  have mask: "w AND 0xffff = take_bit 16 w" for w :: u32 by (simp add: take_bit_eq_mask mask_numeral)
  have "drop_bit (8 - unat (ch_length f)) v = drop_bit (16 - unat (ch_length f)) (push_bit 8 v AND 0xffff)"
  proof (rule bit_word_eqI)
    fix k assume "k < LENGTH(32)"
    have i: "16 - unat (ch_length f) + k - 8 = 8 - unat (ch_length f) + k" using len by simp
    show "bit (drop_bit (8 - unat (ch_length f)) v) k = bit (drop_bit (16 - unat (ch_length f)) (push_bit 8 v AND 0xffff)) k"
    proof (cases "k < unat (ch_length f)")
      case True
      then have "16 - unat (ch_length f) + k < 16" "8 \<le> 16 - unat (ch_length f) + k" using len by simp_all
      then show ?thesis unfolding mask bit_drop_bit_eq o_def bit_take_bit_iff bit_push_bit_iff i by simp
    next
      case False
      then have "\<not> bit v (8 - unat (ch_length f) + k)" "\<not> 16 - unat (ch_length f) + k < 16" using len by (simp_all add: b)
      then show ?thesis unfolding mask bit_drop_bit_eq o_def bit_take_bit_iff by simp
    qed
  qed
  then show ?thesis
    using assms(1) n len by (simp add: channel_def Let_def chan_to_field_def kernel_channel_def good_channel_def word_le_nat_alt word_less_nat_alt)
qed

text \<open>
  At two or four bytes per pixel \<^verbatim>\<open>setcolor\<close> stores, for every layout with channels of at most eight bits, the
  value that the driver's \<^verbatim>\<open>setcolreg\<close> computes for the same colour at sixteen bits per channel; no other
  entry changes and the screen stays good.
\<close>

theorem setcolor_agrees_with_driver:
  assumes "fb_ok (fbi s)" "bytes_per_pixel (fbi s) \<in> {2, 4}" "colidx < 256"
    and "good_channel (va_red (fbi s))" "good_channel (va_green (fbi s))" "good_channel (va_blue (fbi s))"
  shows "let t = exec (setcolor env colidx v) s; fb = fbi s in
    result (setcolor env colidx v) s = Inr () \<and> fb_ok (fbi t) \<and>
    colormap (fbi t) = (colormap fb)[unat colidx :=
      chan_to_field (push_bit 8 (drop_bit 16 v AND 0xff)) (kernel_channel (va_red fb)) OR
      chan_to_field (push_bit 8 (drop_bit 8 v AND 0xff)) (kernel_channel (va_green fb)) OR
      chan_to_field (push_bit 8 (v AND 0xff)) (kernel_channel (va_blue fb))]"
proof -
  have le: "w AND 0xff \<le> 0xff" for w :: u32 by (simp add: word_and_le1)
  have "unat colidx < length (colormap (fbi s))" using assms(1,3) by (simp add: fb_ok_def word_less_nat_alt)
  then show ?thesis
    using assms(1,2) channel_field [OF assms(4) le] channel_field [OF assms(5) le] channel_field [OF assms(6) le]
    by (auto simp: setcolor_def direct_colour_def Let_def fb_ok_def or.assoc)
qed

theorem setcolor_agrees_with_driver_witness:
  "colormap (fbi (exec (setcolor lcd_env 1 0xffe080) fb_start)) ! 1 = 0xff10"
proof -
  have "fb_ok (fbi fb_start)" using demo_fb_ok by (simp add: fb_start_def fb_ok_def)
  then show ?thesis
    using setcolor_agrees_with_driver [where s = fb_start and colidx = 1 and env = lcd_env and v = "0xffe080"]
    by (simp add: Let_def fb_start_def demo_fb_def good_channel_def kernel_channel_def chan_to_field_def)
qed

subsection \<open>What goes wrong\<close>

text \<open>
  The name of the console is printed into 128 bytes without a bound: a value of \<^verbatim>\<open>TSLIB_CONSOLEDEVICE\<close> of 127
  characters or more overruns the array before anything is opened.
\<close>

theorem console_name_overrun:
  assumes "127 \<le> length console"
  shows "result (open_framebuffer env fbdev (Some console)) s = Inl Out_of_bounds"
proof -
  have "0 < length (dec (Suc 0))" using dec_nonempty by blast
  then have "vtname console 1 = None" using assms by (simp add: vtname_def Let_def dec_int_def del: length_greater_0_conv)
  moreover have "console \<noteq> ''none''" using assms by auto
  ultimately show ?thesis by (simp add: open_framebuffer_def open_console_def Let_def)
qed

theorem console_name_overrun_witness:
  "result (open_framebuffer lcd_env None (Some (replicate 127 CHR ''x''))) fb_start = Inl Out_of_bounds"
  using console_name_overrun [of "replicate 127 CHR ''x''"] by simp

text \<open>
  The caller of \<^verbatim>\<open>open_framebuffer\<close> calls \<^verbatim>\<open>close_framebuffer\<close> when it failed. When the geometry could not be read
  the descriptor was closed already, and it is closed a second time.
\<close>

definition closes :: "u32 \<Rightarrow> kevent list \<Rightarrow> nat" where
  "closes fd es = length (filter (\<lambda>e. case e of Ev (QCall f xs) r \<Rightarrow> f = ''close'' \<and> xs = [Num fd] | _ \<Rightarrow> False) es)"

lemma closes_simps [simp]:
  "closes fd [] = 0" "closes fd (xs @ ys) = closes fd xs + closes fd ys"
  "closes fd (Ev (QCall f as) r # es) = (if f = ''close'' \<and> as = [Num fd] then Suc (closes fd es) else closes fd es)"
  "closes fd (Ev (QOut f i) r # es) = closes fd es"
  by (simp_all add: closes_def)

theorem failed_open_closes_twice:
  assumes "always env ''open'' fd" "fd \<noteq> - 1" "always env ''ioctl'' (- 1)"
  shows "let t = exec (open_framebuffer env fbdev (Some ''none'')) s in
    result (open_framebuffer env fbdev (Some ''none'')) s = Inr (- 1) \<and>
    closes fd (trace (exec (close_framebuffer env) t)) = closes fd (trace s) + 2"
  using assms
  by (simp add: always_def open_framebuffer_def open_screen_def ioctl_def give_up_def perror_def close_framebuffer_def Let_def)

theorem failed_open_closes_twice_witness:
  "let env = (\<lambda>n q. case q of QCall f xs \<Rightarrow> if f = ''ioctl'' then - 1 else 3 | _ \<Rightarrow> 0);
       t = exec (open_framebuffer env None (Some ''none'')) fb_start in
   closes 3 (trace (exec (close_framebuffer env) t)) = 2"
  using failed_open_closes_twice [of "\<lambda>n q. case q of QCall f xs \<Rightarrow> if f = ''ioctl'' then - 1 else 3 | _ \<Rightarrow> 0" 3 None fb_start]
  by (simp add: always_def Let_def fb_start_def)

end
