(* ===== verification/TsGetxy.thy ===== *)
theory TsGetxy
  imports Tslib "HOL-Library.Multiset"
begin

section \<open>tslib/tests/testutils.c: one touch\<close>

text \<open>
  \<^verbatim>\<open>getxy\<close> waits for the pen, collects at most 127 samples until it is lifted and returns their median. The raw
  read of the device is a \<^typ>\<open>'s reader\<close>, the initial content of the array on the stack is an argument. Both
  loops run until the pen moves; the fuel counts their rounds, and a loop that uses it up diverges.
  \<^verbatim>\<open>qsort\<close> is a function of the C library: a parameter of which only the law of the standard is used.
\<close>

definition sort_by_x :: "ts_sample \<Rightarrow> ts_sample \<Rightarrow> int" where
  "sort_by_x a b = wrap32 (ts_x a - ts_x b)"

definition sort_by_y :: "ts_sample \<Rightarrow> ts_sample \<Rightarrow> int" where
  "sort_by_y a b = wrap32 (ts_y a - ts_y b)"

type_synonym sorter = "(ts_sample \<Rightarrow> ts_sample \<Rightarrow> int) \<Rightarrow> ts_sample list \<Rightarrow> ts_sample list"

text \<open>\<open>Exited\<close>: a read failed, the program printed an error, closed the frame buffer and left.\<close>

datatype 'a attempt = Exited | Went 'a

fun wait_touch :: "nat \<Rightarrow> 's reader \<Rightarrow> 's \<Rightarrow> ts_sample list \<Rightarrow> ts_fault + (ts_sample list \<times> 's) attempt" where
  "wait_touch 0 rd s samp = Inl Diverges"
| "wait_touch (Suc n) rd s samp = tbind (rd s samp 1) (\<lambda>(r, samp', s').
     if r < 0 then Inr Exited
     else tbind (samp_get samp' 0) (\<lambda>c. if pressure c = 0 then wait_touch n rd s' samp' else Inr (Went (samp', s'))))"

fun collect_touch :: "nat \<Rightarrow> 's reader \<Rightarrow> 's \<Rightarrow> ts_sample list \<Rightarrow> nat \<Rightarrow> ts_fault + (nat \<times> ts_sample list \<times> 's) attempt" where
  "collect_touch 0 rd s samp index = Inl Diverges"
| "collect_touch (Suc n) rd s samp index =
     (let index = (if index < 127 then index + 1 else index) in
      tbind (rd s (drop index samp) 1) (\<lambda>(r, rest, s').
      let samp' = take index samp @ rest in
      if r < 0 then Inr Exited
      else tbind (samp_get samp' index) (\<lambda>c.
        if pressure c > 0 then collect_touch n rd s' samp' index else Inr (Went (index, samp', s')))))"

text \<open>One coordinate of the result: sort the first \<open>index\<close> samples, take the middle one or the mean of the middle two.\<close>

definition pick :: "(ts_sample \<Rightarrow> int) \<Rightarrow> ts_sample list \<Rightarrow> nat \<Rightarrow> ts_fault + int" where
  "pick co samp index =
     (let middle = index div 2 in
      if odd index then tbind (samp_get samp middle) (\<lambda>a. Inr (co a))
      else if middle = 0 then Inl Out_of_bounds
      else tbind (samp_get samp (middle - 1)) (\<lambda>a. tbind (samp_get samp middle) (\<lambda>b.
        Inr (wrap32 (c_div (wrap32 (co a + co b)) 2)))))"

definition getxy :: "sorter \<Rightarrow> nat \<Rightarrow> 's reader \<Rightarrow> 's \<Rightarrow> ts_sample list \<Rightarrow> bool \<Rightarrow> bool \<Rightarrow>
    ts_fault + (int option \<times> int option \<times> 's) attempt" where
  "getxy qsort fuel rd s samp wantx wanty =
     tbind (wait_touch fuel rd s samp) (\<lambda>w. case w of Exited \<Rightarrow> Inr Exited | Went (samp1, s1) \<Rightarrow>
     tbind (collect_touch fuel rd s1 samp1 0) (\<lambda>c. case c of Exited \<Rightarrow> Inr Exited | Went (index, samp2, s2) \<Rightarrow>
     (let samp3 = (if wantx then qsort sort_by_x (take index samp2) @ drop index samp2 else samp2);
          samp4 = (if wanty then qsort sort_by_y (take index samp3) @ drop index samp3 else samp3) in
      tbind (if wantx then tbind (pick ts_x samp3 index) (\<lambda>x. Inr (Some x)) else Inr None) (\<lambda>x.
      tbind (if wanty then tbind (pick ts_y samp4 index) (\<lambda>y. Inr (Some y)) else Inr None) (\<lambda>y.
        Inr (Went (x, y, s2)))))))"

subsection \<open>qsort\<close>

text \<open>
  The law of \<^verbatim>\<open>qsort\<close>: when the comparison orders the elements consistently, by some key, the result is
  a permutation in ascending order.
\<close>

definition compares_by :: "('a \<Rightarrow> 'a \<Rightarrow> int) \<Rightarrow> ('a \<Rightarrow> int) \<Rightarrow> 'a list \<Rightarrow> bool" where
  "compares_by cmp key xs \<longleftrightarrow> (\<forall>a \<in> set xs. \<forall>b \<in> set xs. (cmp a b \<le> 0) = (key a \<le> key b))"

definition sorts :: "sorter \<Rightarrow> bool" where
  "sorts qsort \<longleftrightarrow> (\<forall>cmp key xs. compares_by cmp key xs \<longrightarrow>
     mset (qsort cmp xs) = mset xs \<and> sorted (map key (qsort cmp xs)))"

fun insert_by :: "('a \<Rightarrow> 'a \<Rightarrow> int) \<Rightarrow> 'a \<Rightarrow> 'a list \<Rightarrow> 'a list" where
  "insert_by cmp a [] = [a]"
| "insert_by cmp a (b # bs) = (if cmp a b \<le> 0 then a # b # bs else b # insert_by cmp a bs)"

fun insertion_sort :: "('a \<Rightarrow> 'a \<Rightarrow> int) \<Rightarrow> 'a list \<Rightarrow> 'a list" where
  "insertion_sort cmp [] = []"
| "insertion_sort cmp (a # as) = insert_by cmp a (insertion_sort cmp as)"

lemma mset_insert_by: "mset (insert_by cmp a bs) = add_mset a (mset bs)"
  by (induction bs) auto

lemma mset_insertion_sort: "mset (insertion_sort cmp xs) = mset xs"
  by (induction xs) (simp_all add: mset_insert_by)

lemma sorted_insert_by:
  "compares_by cmp key (a # bs) \<Longrightarrow> sorted (map key bs) \<Longrightarrow> sorted (map key (insert_by cmp a bs))"
proof (induction bs)
  case (Cons b bs)
  have "compares_by cmp key (a # bs)" using Cons.prems(1) by (simp add: compares_by_def)
  moreover have "(cmp a b \<le> 0) = (key a \<le> key b)" using Cons.prems(1) by (simp add: compares_by_def)
  moreover have "set (insert_by cmp a bs) = insert a (set bs)"
    using mset_insert_by [of cmp a bs] by (metis set_mset_add_mset_insert set_mset_mset)
  ultimately show ?case using Cons by auto
qed simp

lemma insertion_sort_sorts: "sorts insertion_sort"
proof -
  have "sorted (map key (insertion_sort cmp xs))" if "compares_by cmp key xs" for cmp and key :: "ts_sample \<Rightarrow> int" and xs
    using that
  proof (induction xs)
    case (Cons a as)
    have "set (insertion_sort cmp as) = set as" using mset_insertion_sort by (metis set_mset_mset)
    then have "compares_by cmp key (a # insertion_sort cmp as)" "compares_by cmp key as"
      using Cons.prems by (simp_all add: compares_by_def)
    then show ?case using Cons.IH sorted_insert_by by simp
  qed simp
  then show ?thesis by (simp add: sorts_def mset_insertion_sort)
qed

subsection \<open>The median\<close>

definition median :: "int list \<Rightarrow> int" where
  "median xs = (let s = sort xs; m = length xs div 2 in
     if odd (length xs) then s ! m else c_div (s ! (m - 1) + s ! m) 2)"

text \<open>A coordinate far from overflow.\<close>

definition modest :: "int \<Rightarrow> bool" where
  "modest i \<longleftrightarrow> - 0x40000000 \<le> i \<and> i < 0x40000000"

lemma c_div2_between:
  assumes "a \<le> b"
  shows "a \<le> c_div (a + b) 2" "c_div (a + b) 2 \<le> b"
  using assms by (auto simp: c_div_def sgn_if)

lemma pick_median:
  assumes "sorted (map co zs)" "zs \<noteq> []" "\<forall>z \<in> set zs. modest (co z)"
  shows "pick co (zs @ rest) (length zs) = Inr (median (map co zs))"
proof (cases "odd (length zs)")
  case True
  then have "length zs div 2 < length zs" by (cases zs) auto
  with True assms(1) show ?thesis by (simp add: pick_def median_def Let_def nth_append sorted_sort_id)
next
  case False
  then have m: "length zs div 2 < length zs" "length zs div 2 - 1 < length zs" "length zs div 2 \<noteq> 0"
    using assms(2) by (cases zs; auto elim: oddE)+
  let ?a = "co (zs ! (length zs div 2 - 1))" and ?b = "co (zs ! (length zs div 2))"
  have "modest ?a" "modest ?b" using m assms(3) by simp_all
  moreover have "?a \<le> ?b" using sorted_nth_mono [OF assms(1), of "length zs div 2 - 1" "length zs div 2"] m by simp
  ultimately have "in_s32 (?a + ?b)" "in_s32 (c_div (?a + ?b) 2)"
    using c_div2_between [of ?a ?b] by (auto simp: modest_def in_s32_def)
  with False m assms(1) show ?thesis by (simp add: pick_def median_def Let_def nth_append sorted_sort_id)
qed

lemma sort_by_compares:
  assumes "\<forall>z \<in> set zs. modest (ts_x z) \<and> modest (ts_y z)"
  shows "compares_by sort_by_x ts_x zs" "compares_by sort_by_y ts_y zs"
proof -
  have "in_s32 (i - j)" if "modest i" "modest j" for i j using that by (simp add: modest_def in_s32_def)
  then show "compares_by sort_by_x ts_x zs" "compares_by sort_by_y ts_y zs"
    using assms by (simp_all add: compares_by_def sort_by_x_def sort_by_y_def)
qed

lemma median_perm:
  assumes "mset xs = mset ys"
  shows "median (map co xs) = median (map co ys)"
proof -
  have "sort (map co xs) = sort (map co ys)" using assms by (metis mset_map sorted_list_of_multiset_mset)
  then show ?thesis using mset_eq_length [OF assms] by (simp add: median_def)
qed

lemma sorted_median:
  assumes "sorts qsort" "compares_by cmp co zs" "zs \<noteq> []" "\<forall>z \<in> set zs. modest (co z)"
  shows "pick co (qsort cmp zs @ rest) (length zs) = Inr (median (map co zs))" "mset (qsort cmp zs) = mset zs"
proof -
  have q: "mset (qsort cmp zs) = mset zs" "sorted (map co (qsort cmp zs))"
    using assms(1,2) unfolding sorts_def by blast+
  have len: "length (qsort cmp zs) = length zs" and set: "set (qsort cmp zs) = set zs"
    using mset_eq_length [OF q(1)] mset_eq_setD [OF q(1)] by simp_all
  have "median (map co (qsort cmp zs)) = median (map co zs)" using q(1) by (rule median_perm)
  moreover have "qsort cmp zs \<noteq> []" using len assms(3) by auto
  ultimately show "pick co (qsort cmp zs @ rest) (length zs) = Inr (median (map co zs))"
    using pick_median [OF q(2), of rest] assms(4) by (simp add: len set)
  show "mset (qsort cmp zs) = mset zs" by fact
qed

text \<open>Outliers do not matter: the median lies where more than half of the values lie.\<close>

lemma sorted_count_below:
  assumes "sorted xs" "i < length xs" "xs ! i < a"
  shows "length (filter (\<lambda>x. a \<le> x) xs) < length xs - i"
proof -
  have "filter (\<lambda>x. a \<le> x) (take (Suc i) xs) = []"
  proof -
    have "\<not> a \<le> xs ! j" if "j < Suc i" for j
      using sorted_nth_mono [OF assms(1), of j i] assms(2,3) that by simp
    then show ?thesis by (auto simp: filter_empty_conv in_set_conv_nth)
  qed
  then have "length (filter (\<lambda>x. a \<le> x) xs) \<le> length (drop (Suc i) xs)"
    using length_filter_le [of "\<lambda>x. a \<le> x" "drop (Suc i) xs"] by (metis append_Nil append_take_drop_id filter_append)
  then show ?thesis using assms(2) by simp
qed

lemma sorted_count_above:
  assumes "sorted xs" "i < length xs" "b < xs ! i"
  shows "length (filter (\<lambda>x. x \<le> b) xs) \<le> i"
proof -
  have "filter (\<lambda>x. x \<le> b) (drop i xs) = []"
  proof -
    have "\<not> xs ! (i + j) \<le> b" if "i + j < length xs" for j
      using sorted_nth_mono [OF assms(1), of i "i + j"] assms(3) that by simp
    then show ?thesis by (auto simp: filter_empty_conv in_set_conv_nth)
  qed
  then have "filter (\<lambda>x. x \<le> b) xs = filter (\<lambda>x. x \<le> b) (take i xs)"
    by (metis append_Nil2 append_take_drop_id filter_append)
  then show ?thesis using length_filter_le [of "\<lambda>x. x \<le> b" "take i xs"] by simp
qed

lemma length_filter_mono: "(\<And>x. P x \<Longrightarrow> Q x) \<Longrightarrow> length (filter P xs) \<le> length (filter Q xs)"
  by (induction xs) (auto intro: le_SucI)

lemma median_robust:
  assumes "2 * length (filter (\<lambda>x. a \<le> x \<and> x \<le> b) xs) > length xs"
  shows "a \<le> median xs" "median xs \<le> b"
proof -
  let ?s = "sort xs" and ?m = "length xs div 2"
  have n: "xs \<noteq> []" using assms by auto
  have cnt: "length (filter P ?s) = length (filter P xs)" for P by (simp add: filter_sort)
  have sub: "length (filter (\<lambda>x. a \<le> x \<and> x \<le> b) xs) \<le> length (filter (\<lambda>x. a \<le> x) xs)"
    "length (filter (\<lambda>x. a \<le> x \<and> x \<le> b) xs) \<le> length (filter (\<lambda>x. x \<le> b) xs)"
    by (rule length_filter_mono, simp)+
  have lo: "a \<le> ?s ! i" if "i < length xs" "length xs - i \<le> length (filter (\<lambda>x. a \<le> x) xs)" for i
    using sorted_count_below [of ?s i a] that by (fastforce simp: cnt)
  have hi: "?s ! i \<le> b" if "i < length xs" "i < length (filter (\<lambda>x. x \<le> b) xs)" for i
    using sorted_count_above [of ?s i b] that by (fastforce simp: cnt)
  have m: "?m < length xs" using n by (cases xs) auto
  show "a \<le> median xs" "median xs \<le> b"
  proof (atomize (full), cases "odd (length xs)")
    case True
    then have "length xs - ?m \<le> length (filter (\<lambda>x. a \<le> x) xs)" "?m < length (filter (\<lambda>x. x \<le> b) xs)"
      using assms sub by (auto elim!: oddE)
    then show "a \<le> median xs \<and> median xs \<le> b" using True lo [OF m] hi [OF m] by (simp add: median_def)
  next
    case False
    then obtain k where k: "length xs = 2 * k" by (auto elim: evenE)
    have "0 < length xs" using n by simp
    with k have i: "k - 1 < length xs" "k < length xs" "0 < k" by linarith+
    have "length xs - (k - 1) \<le> length (filter (\<lambda>x. a \<le> x) xs)" "k < length (filter (\<lambda>x. x \<le> b) xs)"
      using assms sub k i by linarith+
    then have "a \<le> ?s ! (k - 1)" "?s ! k \<le> b" using lo [OF i(1)] hi [OF i(2)] by simp_all
    moreover have "?s ! (k - 1) \<le> ?s ! k" using sorted_nth_mono [of ?s "k - 1" k] i by simp
    ultimately show "a \<le> median xs \<and> median xs \<le> b"
      using False k c_div2_between [of "?s ! (k - 1)" "?s ! k"] by (simp add: median_def Let_def)
  qed
qed

subsection \<open>A touch\<close>

text \<open>A device that delivers the samples \<open>vs\<close> one at a time and is then in state \<open>s'\<close>.\<close>

fun delivers :: "'s reader \<Rightarrow> 's \<Rightarrow> ts_sample list \<Rightarrow> 's \<Rightarrow> bool" where
  "delivers rd s [] s' \<longleftrightarrow> s' = s"
| "delivers rd s (v # vs) s' \<longleftrightarrow> (\<exists>s1. (\<forall>b buf. rd s (b # buf) 1 = Inr (1, v # buf, s1)) \<and> delivers rd s1 vs s')"

lemma delivers_append: "delivers rd s (vs @ ws) s' \<longleftrightarrow> (\<exists>s1. delivers rd s vs s1 \<and> delivers rd s1 ws s')"
  by (induction vs arbitrary: s) auto

lemma wait_touch_delivers:
  "delivers rd s (pre @ [v]) s' \<Longrightarrow> \<forall>p \<in> set pre. pressure p = 0 \<Longrightarrow> pressure v \<noteq> 0 \<Longrightarrow> length pre < fuel \<Longrightarrow>
     wait_touch fuel rd s (b # buf) = Inr (Went (v # buf, s'))"
proof (induction pre arbitrary: s b fuel)
  case Nil
  then show ?case by (cases fuel) auto
next
  case (Cons p pre)
  then obtain n s1 where "fuel = Suc n" "\<forall>b buf. rd s (b # buf) 1 = Inr (1, p # buf, s1)" "delivers rd s1 (pre @ [v]) s'"
    by (cases fuel) auto
  with Cons.IH [of s1 n p] Cons.prems show ?case by simp
qed

text \<open>A sample read into the slot \<open>i\<close>.\<close>

lemma read_slot:
  assumes "\<forall>b buf. rd s (b # buf) 1 = Inr (1, v # buf, s1)" "i < length samp"
  shows "rd s (drop i samp) 1 = Inr (1, v # drop (Suc i) samp, s1)"
    and "take i samp @ v # drop (Suc i) samp = samp[i := v]"
proof -
  show "rd s (drop i samp) 1 = Inr (1, v # drop (Suc i) samp, s1)"
    using assms Cons_nth_drop_Suc [OF assms(2)] by metis
  show "take i samp @ v # drop (Suc i) samp = samp[i := v]" using assms(2) by (simp add: upd_conv_take_nth_drop)
qed

lemma collect_touch_delivers:
  "delivers rd s (ts @ [up]) s' \<Longrightarrow> \<forall>t \<in> set ts. pressure t > 0 \<Longrightarrow> pressure up = 0 \<Longrightarrow> length ts < fuel \<Longrightarrow>
     length samp = 128 \<Longrightarrow> index \<le> 127 \<Longrightarrow>
     \<exists>samp'. collect_touch fuel rd s samp index = Inr (Went (min 127 (index + length ts + 1), samp', s')) \<and>
       length samp' = 128 \<and>
       take (min 127 (index + length ts + 1)) samp' = take (min 127 (index + length ts + 1)) (take (Suc index) samp @ ts)"
proof (induction ts arbitrary: s samp index fuel)
  case Nil
  define i where "i = (if index < 127 then index + 1 else index)"
  obtain n where n: "fuel = Suc n" using Nil.prems(4) by (cases fuel) auto
  have rd: "\<forall>b buf. rd s (b # buf) 1 = Inr (1, up # buf, s')" using Nil.prems(1) by auto
  have i: "i < length samp" "min 127 (index + 1) = i" using Nil.prems(5,6) by (auto simp: i_def)
  note slot = read_slot [of rd s up s', OF rd i(1)]
  have "collect_touch fuel rd s samp index = Inr (Went (i, samp[i := up], s'))"
    using slot i(1) Nil.prems(3) by (simp add: n i_def [symmetric] Let_def)
  moreover have "take i (samp[i := up]) = take i (take (Suc index) samp)"
    using Nil.prems(6) by (simp add: i_def min_def)
  ultimately show ?case using i(2) Nil.prems(5) by simp
next
  case (Cons t ts)
  define i where "i = (if index < 127 then index + 1 else index)"
  obtain n s1 where n: "fuel = Suc n" and rd: "\<forall>b buf. rd s (b # buf) 1 = Inr (1, t # buf, s1)"
    and rest: "delivers rd s1 (ts @ [up]) s'" using Cons.prems(1,4) by (cases fuel) auto
  have i: "i < length samp" "i \<le> 127" using Cons.prems(5,6) by (auto simp: i_def)
  note slot = read_slot [of rd s t s1, OF rd i(1)]
  have step: "collect_touch fuel rd s samp index = collect_touch n rd s1 (samp[i := t]) i"
    using slot i(1) Cons.prems(2) by (simp add: n i_def [symmetric] Let_def)
  have m: "min 127 (index + length (t # ts) + 1) = min 127 (i + length ts + 1)" using Cons.prems(6) by (simp add: i_def)
  obtain samp' where samp': "collect_touch n rd s1 (samp[i := t]) i = Inr (Went (min 127 (i + length ts + 1), samp', s'))"
    "length samp' = 128"
    "take (min 127 (i + length ts + 1)) samp' = take (min 127 (i + length ts + 1)) (take (Suc i) (samp[i := t]) @ ts)"
    using Cons.IH [OF rest, of n "samp[i := t]" i] Cons.prems(2-5) i(2) n by auto
  have "take (min 127 (i + length ts + 1)) (take (Suc i) (samp[i := t]) @ ts) =
      take (min 127 (i + length ts + 1)) (take (Suc index) samp @ t # ts)"
  proof (cases "index < 127")
    case True
    then show ?thesis using i(1) by (simp add: i_def)
  next
    case False
    then have "index = 127" "i = 127" using Cons.prems(6) by (simp_all add: i_def)
    then show ?thesis using Cons.prems(5) by (simp add: min_def)
  qed
  then show ?case unfolding step m using samp' by auto
qed

lemma getxy_touch:
  assumes "sorts qsort" "delivers rd s (before @ (v # ts) @ [up]) s'" "length samp = 128"
    and "\<forall>p \<in> set before. pressure p = 0" "\<forall>t \<in> set (v # ts). pressure t > 0" "pressure up = 0"
    and "\<forall>t \<in> set (v # ts). modest (ts_x t) \<and> modest (ts_y t)" "length before + length ts < fuel"
  shows "getxy qsort fuel rd s samp True True = Inr (Went (Some (median (map ts_x (take 127 (v # ts)))),
    Some (median (map ts_y (take 127 (v # ts)))), s'))"
proof -
  define touch where "touch = take 127 (v # ts)"
  define n where "n = min 127 (0 + length ts + 1)"
  obtain s1 where s1: "delivers rd s (before @ [v]) s1" "delivers rd s1 (ts @ [up]) s'"
    using assms(2) delivers_append [of rd s "before @ [v]" "ts @ [up]"] by auto
  obtain b buf where samp: "samp = b # buf" using assms(3) by (cases samp) auto
  have wait: "wait_touch fuel rd s samp = Inr (Went (v # buf, s1))"
    unfolding samp using assms(4,5,8) by (intro wait_touch_delivers [OF s1(1)]) auto
  obtain samp2 where c: "collect_touch fuel rd s1 (v # buf) 0 = Inr (Went (n, samp2, s'))" "length samp2 = 128"
    "take n samp2 = take n (take (Suc 0) (v # buf) @ ts)"
    using collect_touch_delivers [OF s1(2), of fuel "v # buf" 0] assms samp unfolding n_def by auto
  have t: "take n samp2 = touch" "length touch = n" "touch \<noteq> []"
    using c(3) by (auto simp: touch_def n_def min_def)
  have mod: "\<forall>t \<in> set touch. modest (ts_x t) \<and> modest (ts_y t)"
    using assms(7) set_take_subset [of 127 "v # ts"] unfolding touch_def by blast
  note x = sorted_median [OF assms(1) sort_by_compares(1) [OF mod] t(3)]
  let ?q = "qsort sort_by_x touch"
  have perm: "mset ?q = mset touch" using x(2) mod by blast
  have q: "length ?q = n" "set ?q = set touch" using mset_eq_length [OF perm] mset_eq_setD [OF perm] t(2) by simp_all
  then have ne: "?q \<noteq> []" using t(3) by auto
  have "\<forall>t \<in> set ?q. modest (ts_x t) \<and> modest (ts_y t)" using mod q(2) by simp
  note y = sorted_median [OF assms(1) sort_by_compares(2) [OF this] ne]
  have "median (map ts_y ?q) = median (map ts_y touch)" using perm by (rule median_perm)
  then show ?thesis unfolding touch_def [symmetric]
    using x(1) y(1) mod q t by (simp add: getxy_def wait c Let_def)
qed

text \<open>
  C40. For every sequence of samples that ends a touch, \<^verbatim>\<open>getxy\<close> returns, whatever \<^verbatim>\<open>qsort\<close> does with equal elements,
  the medians of the x and of the y coordinates of the first 127 samples of the touch; it skips the
  samples before the touch and reads nothing after its end. A majority of samples inside a range puts the
  result inside it, so wild outliers do not matter.
\<close>

theorem getxy_median:
  assumes "sorts qsort" "delivers rd s (before @ (v # ts) @ [up]) s'" "length samp = 128"
    and "\<forall>p \<in> set before. pressure p = 0" "\<forall>t \<in> set (v # ts). pressure t > 0" "pressure up = 0"
    and "\<forall>t \<in> set (v # ts). modest (ts_x t) \<and> modest (ts_y t)" "length before + length ts < fuel"
  shows "let touch = take 127 (v # ts) in
    getxy qsort fuel rd s samp True True = Inr (Went (Some (median (map ts_x touch)), Some (median (map ts_y touch)), s')) \<and>
    (\<forall>a b. 2 * length (filter (\<lambda>t. a \<le> ts_x t \<and> ts_x t \<le> b) touch) > length touch \<longrightarrow>
      a \<le> median (map ts_x touch) \<and> median (map ts_x touch) \<le> b)"
proof -
  have "a \<le> median (map ts_x touch) \<and> median (map ts_x touch) \<le> b"
    if "2 * length (filter (\<lambda>t. a \<le> ts_x t \<and> ts_x t \<le> b) touch) > length touch" for a b touch
    using median_robust [of "map ts_x touch" a b] that by (simp add: filter_map comp_def)
  then show ?thesis using getxy_touch [OF assms] unfolding Let_def by blast
qed

text \<open>A touch as the device delivers it: samples without pressure, the touch, its end.\<close>

type_synonym touch = "ts_sample list \<times> ts_sample list \<times> ts_sample"

definition touch_samples :: "touch \<Rightarrow> ts_sample list" where
  "touch_samples = (\<lambda>(before, ts, up). before @ ts @ [up])"

definition touch_ok :: "nat \<Rightarrow> touch \<Rightarrow> bool" where
  "touch_ok fuel = (\<lambda>(before, ts, up). (\<forall>p \<in> set before. pressure p = 0) \<and> ts \<noteq> [] \<and> (\<forall>t \<in> set ts. pressure t > 0) \<and>
     pressure up = 0 \<and> (\<forall>t \<in> set ts. modest (ts_x t) \<and> modest (ts_y t)) \<and> length before + length ts \<le> fuel)"

definition touch_x :: "touch \<Rightarrow> int" where
  "touch_x = (\<lambda>(before, ts, up). median (map ts_x (take 127 ts)))"

definition touch_y :: "touch \<Rightarrow> int" where
  "touch_y = (\<lambda>(before, ts, up). median (map ts_y (take 127 ts)))"

lemma getxy_touch_ok:
  assumes "sorts qsort" "touch_ok fuel t" "delivers rd s (touch_samples t) s'" "length junk = 128"
  shows "getxy qsort fuel rd s junk True True = Inr (Went (Some (touch_x t), Some (touch_y t), s'))"
proof -
  obtain before ts up where t: "t = (before, ts, up)" by (cases t)
  obtain v vs where v: "ts = v # vs" using assms(2) unfolding t touch_ok_def by (cases ts) auto
  show ?thesis
    using getxy_touch [OF assms(1), of rd s before v vs up s' junk fuel] assms(2-4)
    unfolding t v touch_ok_def touch_samples_def touch_x_def touch_y_def by simp
qed

text \<open>A device with a list of samples to deliver, which then fails.\<close>

definition feed :: "ts_sample list reader" where
  "feed vs buf nr = (case vs of [] \<Rightarrow> Inr (- 1, buf, []) | v # vs' \<Rightarrow> Inr (1, v # tl buf, vs'))"

definition touch_at :: "int \<Rightarrow> int \<Rightarrow> u32 \<Rightarrow> ts_sample" where
  "touch_at x y p = \<lparr>ts_x = x, ts_y = y, pressure = p, tv = \<lparr>tv_sec = 0, tv_usec = 0\<rparr>\<rparr>"

lemma feed_delivers: "delivers feed (vs @ rest) vs rest"
  by (induction vs) (auto simp: feed_def)

theorem getxy_median_witness:
  "getxy insertion_sort 9 feed ([touch_at 9 9 0] @ (touch_at 5 50 1 # [touch_at 1000 40 1, touch_at 6 60 1]) @ [touch_at 0 0 0])
     (replicate 128 (touch_at 0 0 0)) True True = Inr (Went (Some 6, Some 50, []))"
  using getxy_median [OF insertion_sort_sorts feed_delivers [of _ "[]", unfolded append_Nil2],
      of "replicate 128 (touch_at 0 0 0)" "[touch_at 9 9 0]" "touch_at 5 50 1" "[touch_at 1000 40 1, touch_at 6 60 1]"
        "touch_at 0 0 0" 9]
  by (simp add: touch_at_def modest_def median_def)

text \<open>
  When a read fails before the touch is complete the program leaves: no position is ever made up from an
  unfinished touch.
\<close>

theorem getxy_read_error:
  assumes "delivers rd s vs s1" "\<forall>v \<in> set vs. pressure v = 0" "length vs < fuel" "samp \<noteq> []"
    and "\<And>buf. \<exists>r buf' s2. rd s1 buf 1 = Inr (r, buf', s2) \<and> r < 0"
  shows "getxy qsort fuel rd s samp wantx wanty = Inr Exited"
proof -
  have "wait_touch fuel rd s samp = Inr Exited"
    using assms(1-4)
  proof (induction vs arbitrary: s samp fuel)
    case Nil
    then obtain n where "fuel = Suc n" by (cases fuel) auto
    moreover obtain r buf' s2 where "rd s1 samp 1 = Inr (r, buf', s2)" "r < 0" using assms(5) by blast
    ultimately show ?case using Nil by simp
  next
    case (Cons v vs)
    then obtain n t b buf where "fuel = Suc n" "samp = b # buf" "\<forall>b buf. rd s (b # buf) 1 = Inr (1, v # buf, t)" "delivers rd t vs s1"
      by (cases fuel; cases samp) auto
    with Cons.IH [of t n "v # buf"] Cons.prems show ?case by simp
  qed
  then show ?thesis by (simp add: getxy_def)
qed

theorem getxy_read_error_witness:
  "getxy insertion_sort 3 feed [touch_at 1 1 0] (replicate 128 (touch_at 0 0 0)) True True = Inr Exited"
proof -
  have "delivers feed [touch_at 1 1 0] [touch_at 1 1 0] []" using feed_delivers [of "[touch_at 1 1 0]" "[]"] by simp
  then show ?thesis by (rule getxy_read_error) (auto simp: feed_def touch_at_def)
qed

end
