(* ===== verification/TsHarvest.thy ===== *)
theory TsHarvest
  imports FbUtils TsGetxy Linear
begin

section \<open>tslib/tests/ts_harvest.c: the grid of crosses\<close>

text \<open>
  The program shows crosses on a grid whose lines are dense at the edges of the screen and sparse in its middle,
  and records where each is touched. The increments of the two nested loops are the same function of the
  resolution; all values stay below twice the resolution, so that they are integers of the model.
\<close>

definition harvest_next :: "int \<Rightarrow> int \<Rightarrow> int \<Rightarrow> int \<times> int" where
  "harvest_next half x incr =
     (let new = x + incr * 10 in
      if x < half
      then (if new > half then (half + (half - x - 1), incr - 1)
            else if new < half then (new, incr + 1) else (new, incr))
      else (new, incr - 1))"

function harvest_axis :: "int \<Rightarrow> int \<Rightarrow> int \<Rightarrow> int \<Rightarrow> int list" where
  "harvest_axis res half x incr =
     (if x < res \<and> incr \<ge> 0 then x # (case harvest_next half x incr of (x', incr') \<Rightarrow> harvest_axis res half x' incr')
      else [])"
  by pat_completeness auto

text \<open>In the first half the position grows, in the second half the increment falls below zero.\<close>

termination
proof (relation "measures [\<lambda>(res, half, x, incr). nat (half - x),
    \<lambda>(res, half, x, incr). if x < half then (if incr = 0 then 1 else 0) else nat (incr + 1)]", goal_cases)
  case (2 res half x incr x' incr')
  then show ?case by (auto simp: harvest_next_def Let_def split: if_splits)
qed simp

definition harvest_points :: "int \<Rightarrow> int \<Rightarrow> (int \<times> int) list" where
  "harvest_points xres yres =
     concat (map (\<lambda>y. map (\<lambda>x. (x, y)) (harvest_axis xres (xres div 2) 0 1)) (harvest_axis yres (yres div 2) 0 1))"

definition ts_harvest_put_cross :: "fbinfo \<Rightarrow> int \<Rightarrow> int \<Rightarrow> u32 \<Rightarrow> u8 list \<Rightarrow> ts_fault + u8 list" where
  "ts_harvest_put_cross fb x y colidx = draws
     [line fb (wrap32 (x - 10)) y (wrap32 (x - 2)) y colidx, line fb (wrap32 (x + 2)) y (wrap32 (x + 10)) y colidx,
      line fb x (wrap32 (y - 10)) x (wrap32 (y - 2)) colidx, line fb x (wrap32 (y + 2)) x (wrap32 (y + 10)) colidx]"

text \<open>A line of the output file.\<close>

definition harvest_record :: "int \<times> int \<Rightarrow> int \<Rightarrow> int \<Rightarrow> string" where
  "harvest_record = (\<lambda>(x, y) x_ts y_ts.
     dec_int x @ [CHR 0x09] @ dec_int y @ [CHR 0x09] @ dec_int x_ts @ [CHR 0x09] @ dec_int y_ts @ [CHR 0x0A])"

text \<open>
  The body of the loops over the points: show the cross, flush the device, take a touch, write a line, hide
  the cross. \<open>flush\<close> is what the read in \<^verbatim>\<open>ts_flush\<close>, whose result is ignored, does to the device.
\<close>

fun harvest_loop :: "fbinfo \<Rightarrow> sorter \<Rightarrow> nat \<Rightarrow> 's reader \<Rightarrow> ('s \<Rightarrow> 's) \<Rightarrow> ts_sample list \<Rightarrow> (int \<times> int) list \<Rightarrow>
    u8 list \<times> string \<times> 's \<Rightarrow> ts_fault + (u8 list \<times> string \<times> 's) attempt" where
  "harvest_loop fb qsort fuel rd flush junk [] st = Inr (Went st)"
| "harvest_loop fb qsort fuel rd flush junk ((x, y) # ps) (mem, out, s) =
     tbind (ts_harvest_put_cross fb x y (2 OR XORMODE) mem) (\<lambda>mem1.
     tbind (getxy qsort fuel rd (flush s) junk True True) (\<lambda>r. case r of Exited \<Rightarrow> Inr Exited | Went (px, py, s') \<Rightarrow>
     tbind (ts_harvest_put_cross fb x y (2 OR XORMODE) mem1) (\<lambda>mem2.
       harvest_loop fb qsort fuel rd flush junk ps (mem2, out @ harvest_record (x, y) (the px) (the py), s'))))"

definition refresh_screen :: "fbinfo \<Rightarrow> u8 list \<Rightarrow> ts_fault + u8 list" where
  "refresh_screen fb = fillrect fb 0 0 (sint (va_xres fb - 1)) (sint (va_yres fb - 1)) 0"

subsection \<open>The positions on an axis\<close>

declare harvest_axis.simps [simp del]

text \<open>The \<open>k\<close>-th position in the first half, and its mirror image.\<close>

definition grid :: "nat \<Rightarrow> int" where
  "grid k = 5 * int k * (int k + 1)"

lemma grid_Suc: "grid (Suc k) = grid k + (int k + 1) * 10"
  by (simp add: grid_def algebra_simps)

lemma grid_nonneg: "0 \<le> grid k"
  by (simp add: grid_def)

lemma grid_strict: "j < k \<Longrightarrow> grid j < grid k"
  by (induction k) (auto simp: grid_Suc less_Suc_eq)

lemma harvest_second_half:
  assumes "2 * half \<le> res"
  shows "half \<le> 2 * half - 1 - grid k \<Longrightarrow>
    harvest_axis res half (2 * half - 1 - grid k) (int k) = map (\<lambda>j. 2 * half - 1 - grid j) (rev [0..<Suc k])"
proof (induction k)
  case 0
  have "harvest_axis res half (2 * half - 1) (- 1) = []" by (simp add: harvest_axis.simps)
  then show ?case using 0 assms by (subst harvest_axis.simps) (simp add: harvest_next_def grid_def)
next
  case (Suc k)
  let ?x = "2 * half - 1 - grid (Suc k)"
  have g: "?x + int (Suc k) * 10 = 2 * half - 1 - grid k" by (simp add: grid_Suc algebra_simps)
  have "?x < res" using assms grid_nonneg [of "Suc k"] by linarith
  moreover have "harvest_next half ?x (int (Suc k)) = (2 * half - 1 - grid k, int k)"
    using Suc.prems g by (simp add: harvest_next_def Let_def)
  moreover have "half \<le> 2 * half - 1 - grid k" using Suc.prems by (simp add: grid_Suc)
  ultimately show ?case using Suc.IH by (subst harvest_axis.simps) simp
qed

lemma harvest_first_half:
  assumes "2 * half \<le> res" "\<And>k. grid k \<noteq> half"
  shows "grid k < half \<Longrightarrow> \<exists>n \<ge> k. grid n < half \<and> harvest_axis res half (grid k) (int k + 1) =
    map grid [k..<Suc n] @ map (\<lambda>j. 2 * half - 1 - grid j) (rev [0..<Suc n])"
proof (induction "nat (half - grid k)" arbitrary: k rule: less_induct)
  case less
  have x: "grid k < res" using less.prems assms(1) grid_nonneg [of k] by linarith
  have g: "grid k + (int k + 1) * 10 = grid (Suc k)" by (simp add: grid_Suc)
  show ?case
  proof (cases "grid (Suc k) < half")
    case True
    then have "harvest_next half (grid k) (int k + 1) = (grid (Suc k), int (Suc k) + 1)"
      using less.prems g by (simp add: harvest_next_def Let_def)
    then have step: "harvest_axis res half (grid k) (int k + 1) = grid k # harvest_axis res half (grid (Suc k)) (int (Suc k) + 1)"
      using x by (subst harvest_axis.simps) simp
    have "nat (half - grid (Suc k)) < nat (half - grid k)" using True by (simp add: grid_Suc)
    from less.hyps [OF this True] obtain n where "Suc k \<le> n" "grid n < half"
      "harvest_axis res half (grid (Suc k)) (int (Suc k) + 1) = map grid [Suc k..<Suc n] @ map (\<lambda>j. 2 * half - 1 - grid j) (rev [0..<Suc n])"
      by blast
    moreover from this(1) have "[k..<Suc n] = k # [Suc k..<Suc n]" by (simp add: upt_rec)
    ultimately show ?thesis unfolding step by (intro exI [of _ n]) auto
  next
    case False
    then have "grid (Suc k) > half" using assms(2) [of "Suc k"] by simp
    then have "harvest_next half (grid k) (int k + 1) = (2 * half - 1 - grid k, int k)"
      using less.prems g by (simp add: harvest_next_def Let_def)
    then have "harvest_axis res half (grid k) (int k + 1) = grid k # harvest_axis res half (2 * half - 1 - grid k) (int k)"
      using x by (subst harvest_axis.simps) simp
    moreover have "half \<le> 2 * half - 1 - grid k" using less.prems by simp
    ultimately show ?thesis
      using harvest_second_half [OF assms(1)] less.prems by (intro exI [of _ k]) simp
  qed
qed

text \<open>
  On an axis whose middle is not itself on the grid the loop ends, and it visits the positions 0, 10, 30, 60
  and so on up to the middle, then their mirror images: strictly increasing, all on the screen, and
  symmetric about its middle.
\<close>

theorem harvest_axis_symmetric:
  assumes "2 \<le> res" "\<And>k. grid k \<noteq> res div 2"
  shows "\<exists>n. harvest_axis res (res div 2) 0 1 =
      map grid [0..<Suc n] @ map (\<lambda>j. 2 * (res div 2) - 1 - grid j) (rev [0..<Suc n]) \<and>
    sorted_wrt (<) (harvest_axis res (res div 2) 0 1) \<and>
    (\<forall>p \<in> set (harvest_axis res (res div 2) 0 1).
      0 \<le> p \<and> p < res \<and> 2 * (res div 2) - 1 - p \<in> set (harvest_axis res (res div 2) 0 1))"
proof -
  let ?h = "res div 2" and ?m = "\<lambda>j. 2 * (res div 2) - 1 - grid j"
  have h: "2 * ?h \<le> res" "0 < ?h" using assms(1) by simp_all
  have z: "grid 0 = 0" by (simp add: grid_def)
  obtain n where n: "grid n < ?h" "harvest_axis res ?h 0 1 = map grid [0..<Suc n] @ map ?m (rev [0..<Suc n])"
    using harvest_first_half [OF h(1) assms(2), of 0] h(2) z by auto
  have le: "grid j \<le> grid n" if "j \<le> n" for j using grid_strict [of j n] that by (cases "j = n") simp_all
  have set: "set (harvest_axis res ?h 0 1) = grid ` {..n} \<union> ?m ` {..n}"
    by (simp add: n(2) atLeast0LessThan lessThan_Suc_atMost del: upt_Suc)
  have "sorted_wrt (<) (map grid [0..<Suc n])"
    using grid_strict by (simp add: sorted_wrt_map sorted_wrt_iff_nth_less del: upt_Suc)
  moreover have "sorted_wrt (<) (map ?m (rev [0..<Suc n]))"
    unfolding sorted_wrt_map sorted_wrt_rev using grid_strict by (simp add: sorted_wrt_iff_nth_less del: upt_Suc)
  moreover have "grid i < ?m j" if "i \<le> n" "j \<le> n" for i j using le [OF that(1)] le [OF that(2)] n(1) by simp
  ultimately have "sorted_wrt (<) (harvest_axis res ?h 0 1)" unfolding n(2) sorted_wrt_append by auto
  moreover have "0 \<le> p \<and> p < res \<and> 2 * ?h - 1 - p \<in> set (harvest_axis res ?h 0 1)" if "p \<in> set (harvest_axis res ?h 0 1)" for p
  proof -
    from that obtain j where j: "j \<le> n" "p = grid j \<or> p = ?m j" unfolding set by auto
    then show ?thesis using le [OF j(1)] n(1) h grid_nonneg [of j] unfolding set by auto
  qed
  ultimately show ?thesis using n(2) by blast
qed

lemma no_square_120: "grid k \<noteq> 120"
proof
  assume "grid k = 120"
  then have "int k * (int k + 1) = 24" by (simp add: grid_def)
  moreover have "k \<le> 4 \<or> 5 \<le> k" by linarith
  moreover have "30 \<le> int k * (int k + 1)" if "5 \<le> k" using mult_mono [of 5 "int k" 6 "int k + 1"] that by simp
  moreover have "int k * (int k + 1) \<le> 20" if "k \<le> 4" using mult_mono [of "int k" 4 "int k + 1" 5] that by simp
  ultimately show False by auto
qed

theorem harvest_axis_symmetric_witness: "\<forall>p \<in> set (harvest_axis 240 120 0 1). 0 \<le> p \<and> p < 240"
  using harvest_axis_symmetric [of 240] no_square_120 by auto

subsection \<open>The screen afterwards\<close>

lemma harvest_axis_bounds: "0 \<le> x \<Longrightarrow> p \<in> set (harvest_axis res half x incr) \<Longrightarrow> x \<le> p \<and> p < res"
proof (induction res half x incr rule: harvest_axis.induct)
  case (1 res half x incr)
  obtain x' incr' where nx: "harvest_next half x incr = (x', incr')" by force
  show ?case
  proof (cases "x < res \<and> incr \<ge> 0")
    case True
    then have "x \<le> x'" using nx by (auto simp: harvest_next_def Let_def split: if_splits)
    then show ?thesis using 1 True nx by (auto simp: harvest_axis.simps [of res half x incr])
  next
    case False
    then have "harvest_axis res half x incr = []" by (subst harvest_axis.simps) simp
    then show ?thesis using "1.prems" by simp
  qed
qed

context drawing
begin

lemma P_harvest_cross:
  assumes "0 \<le> x" "x < 0x3ffffff0" "0 \<le> y" "y < 0x3ffffff0" "good c"
  shows "P (ts_harvest_put_cross fb x y c)"
proof -
  have sm: "small (wrap32 (x + a))" "small (wrap32 (y + a))" if "- 10 \<le> a" "a \<le> 10" for a
    using assms that by (simp_all add: small_def in_s32_def)
  have "small x" "small y" using assms by (simp_all add: small_def)
  then show ?thesis unfolding ts_harvest_put_cross_def
    by (intro P_draws)
      (use sm [of "- 10"] sm [of "- 2"] sm [of 2] sm [of 10] assms(5) in \<open>simp add: P_line\<close>)
qed

end

lemma harvest_cross_twice:
  assumes "fb_ok fb" "length mem = fb_size fb" "0 \<le> x" "x < 0x3ffffff0" "0 \<le> y" "y < 0x3ffffff0"
  obtains m where "ts_harvest_put_cross fb x y (2 OR XORMODE) mem = Inr m" "ts_harvest_put_cross fb x y (2 OR XORMODE) m = Inr mem"
proof -
  have "xor_colour (2 OR XORMODE)" using xor_colours(1) [of 2] by simp
  from xoring.P_harvest_cross [OF assms(3-6) this] assms(1)
  have "xors (fb_size fb) (ts_harvest_put_cross fb x y (2 OR XORMODE))" by blast
  from xors_twice [OF this assms(2)] that show thesis by (auto simp: tbind_Inr)
qed

text \<open>A touch for every cross, after the flush.\<close>

fun harvested :: "'s reader \<Rightarrow> ('s \<Rightarrow> 's) \<Rightarrow> 's \<Rightarrow> touch list \<Rightarrow> 's \<Rightarrow> bool" where
  "harvested rd flush s [] s' \<longleftrightarrow> s' = s"
| "harvested rd flush s (t # ts) s' \<longleftrightarrow> (\<exists>s1. delivers rd (flush s) (touch_samples t) s1 \<and> harvested rd flush s1 ts s')"

lemma harvest_loop_touches:
  assumes "fb_ok fb" "length mem = fb_size fb" "sorts qsort" "length junk = 128"
  shows "length ts = length ps \<Longrightarrow> \<forall>t \<in> set ts. touch_ok fuel t \<Longrightarrow>
    \<forall>(x, y) \<in> set ps. 0 \<le> x \<and> x < 0x3ffffff0 \<and> 0 \<le> y \<and> y < 0x3ffffff0 \<Longrightarrow> harvested rd flush s ts s' \<Longrightarrow>
    harvest_loop fb qsort fuel rd flush junk ps (mem, out, s) =
      Inr (Went (mem, out @ concat (map2 (\<lambda>p t. harvest_record p (touch_x t) (touch_y t)) ps ts), s'))"
proof (induction ts arbitrary: ps s out)
  case (Cons t ts)
  obtain x y ps' where ps: "ps = (x, y) # ps'" using Cons.prems(1) by (cases ps) auto
  obtain s1 where s1: "delivers rd (flush s) (touch_samples t) s1" "harvested rd flush s1 ts s'" using Cons.prems(4) by auto
  have p: "0 \<le> x" "x < 0x3ffffff0" "0 \<le> y" "y < 0x3ffffff0" "touch_ok fuel t" using Cons.prems(2,3) ps by auto
  obtain m where "ts_harvest_put_cross fb x y (2 OR XORMODE) mem = Inr m" "ts_harvest_put_cross fb x y (2 OR XORMODE) m = Inr mem"
    by (rule harvest_cross_twice [OF assms(1,2) p(1-4)])
  then show ?case
    using Cons.IH [OF _ _ _ s1(2), of ps' "out @ harvest_record (x, y) (touch_x t) (touch_y t)"] Cons.prems(1-3)
      getxy_touch_ok [OF assms(3) p(5) s1(1) assms(4)] by (simp add: ps)
qed simp

text \<open>
  For every sequence of touches the program writes one line for each point of the grid, in the order of the grid, with
  the medians of the touch, and the screen holds what it held before the first cross.
\<close>

theorem harvest_session:
  assumes "fb_ok fb" "length mem = fb_size fb" "uint (va_xres fb) < 0x3ffffff0" "uint (va_yres fb) < 0x3ffffff0"
    and "sorts qsort" "length junk = 128" "length ts = length (harvest_points (uint (va_xres fb)) (uint (va_yres fb)))"
    and "\<forall>t \<in> set ts. touch_ok fuel t" "harvested rd flush s ts s'"
  shows "harvest_loop fb qsort fuel rd flush junk (harvest_points (uint (va_xres fb)) (uint (va_yres fb))) (mem, out, s) =
    Inr (Went (mem, out @ concat (map2 (\<lambda>p t. harvest_record p (touch_x t) (touch_y t))
      (harvest_points (uint (va_xres fb)) (uint (va_yres fb))) ts), s'))"
proof (rule harvest_loop_touches [OF assms(1,2,5,6,7,8) _ assms(9)], safe)
  fix x y assume "(x, y) \<in> set (harvest_points (uint (va_xres fb)) (uint (va_yres fb)))"
  then have "x \<in> set (harvest_axis (uint (va_xres fb)) (uint (va_xres fb) div 2) 0 1)"
    "y \<in> set (harvest_axis (uint (va_yres fb)) (uint (va_yres fb) div 2) 0 1)"
    unfolding harvest_points_def by auto
  then show "0 \<le> x" "x < 0x3ffffff0" "0 \<le> y" "y < 0x3ffffff0"
    using harvest_axis_bounds [of 0 x] harvest_axis_bounds [of 0 y] assms(3,4) by force+
qed

lemma harvested_feed: "harvested feed (\<lambda>s. s) (concat (map touch_samples ts)) ts []"
proof (induction ts)
  case (Cons t ts)
  then show ?case using feed_delivers [of "touch_samples t" "concat (map touch_samples ts)"] by auto
qed simp

lemma demo_points: "harvest_points (uint (va_xres demo_fb)) (uint (va_yres demo_fb)) = [(0, 0), (3, 0), (0, 1), (3, 1)]"
  by (simp add: harvest_points_def demo_fb_def harvest_axis.simps harvest_next_def)

theorem harvest_session_witness:
  "harvest_loop demo_fb insertion_sort 3 feed (\<lambda>s. s) (replicate 128 (touch_at 0 0 0)) [(0, 0), (3, 0), (0, 1), (3, 1)]
     (replicate 16 9, [], concat (map touch_samples (replicate 4 ([], [touch_at 5 6 1], touch_at 0 0 0)))) =
   Inr (Went (replicate 16 9, concat (map (\<lambda>p. harvest_record p 5 6) [(0, 0), (3, 0), (0, 1), (3, 1)]), []))"
proof -
  let ?t = "([], [touch_at 5 6 1], touch_at 0 0 0)"
  have t: "touch_ok 3 ?t" "touch_x ?t = 5" "touch_y ?t = 6"
    by (simp_all add: touch_ok_def touch_at_def modest_def touch_x_def touch_y_def median_def)
  have r: "replicate 4 ?t = [?t, ?t, ?t, ?t]" by (simp add: eval_nat_numeral)
  have "length (replicate 16 (9 :: u8)) = fb_size demo_fb" "uint (va_xres demo_fb) < 0x3ffffff0" "uint (va_yres demo_fb) < 0x3ffffff0"
    by (simp_all add: demo_fb_def)
  from harvest_session [OF demo_fb_ok this insertion_sort_sorts, of "replicate 128 (touch_at 0 0 0)" "replicate 4 ?t" 3 feed
      "\<lambda>s. s" "concat (map touch_samples (replicate 4 ?t))" "[]" "[]"] harvested_feed [of "replicate 4 ?t"]
  show ?thesis unfolding demo_points using t by (simp add: r)
qed

end
