(* ===== verification/TsCalibrate.thy ===== *)
theory TsCalibrate
  imports Complex_Main FbUtils TsGetxy Linear
begin

section \<open>tslib/tests/ts_calibrate.c: calibration\<close>

text \<open>
  The program shows five crosses, takes the median of a touch at each, solves the least squares problem
  for the affine map from touches to pixels and writes its coefficients to the file that \<^verbatim>\<open>linear.c\<close> reads.
  A value of type \<^verbatim>\<open>float\<close> is a rational number, and the result of every operation is rounded by the parameter
  \<open>rnd\<close>, the rounding of the floating point unit; infinities and NaNs are not modelled. A conversion
  to \<^verbatim>\<open>int\<close> truncates, and is undefined outside 32 bits.
\<close>

record calibration =
  cal_x :: "int list"
  cal_y :: "int list"
  cal_xfb :: "int list"
  cal_yfb :: "int list"

type_synonym rounding = "rat \<Rightarrow> rat"

text \<open>The double nearest to \<open>0.1\<close>, to which the determinant is compared.\<close>

definition tenth :: rat where
  "tenth = 3602879701896397 / 36028797018963968"

definition fsum :: "rounding \<Rightarrow> (nat \<Rightarrow> rat) \<Rightarrow> rat" where
  "fsum rnd f = fold (\<lambda>j acc. rnd (acc + f j)) [0..<5] 0"

definition to_int :: "rat \<Rightarrow> ts_fault + int" where
  "to_int q = (let i = (if q < 0 then - \<lfloor>- q\<rfloor> else \<lfloor>q\<rfloor>) in if in_s32 i then Inr i else Inl Out_of_bounds)"

text \<open>\<^verbatim>\<open>(int)((a*z + b*zx + c*zy)*(scaling))\<close>\<close>

definition coefficient :: "rounding \<Rightarrow> rat \<Rightarrow> rat \<Rightarrow> rat \<Rightarrow> rat \<Rightarrow> rat \<Rightarrow> rat \<Rightarrow> ts_fault + int" where
  "coefficient rnd a b c z zx zy =
     to_int (rnd (rnd (rnd (rnd (a * z) + rnd (b * zx)) + rnd (c * zy)) * 65536))"

definition perform_calibration :: "rounding \<Rightarrow> calibration \<Rightarrow> ts_fault + int list option" where
  "perform_calibration rnd cal =
     (let fi = (\<lambda>i. rnd (of_int i));
          X = (\<lambda>j. cal_x cal ! j); Y = (\<lambda>j. cal_y cal ! j);
          n = fsum rnd (\<lambda>j. 1);
          x = fsum rnd (\<lambda>j. fi (X j));
          y = fsum rnd (\<lambda>j. fi (Y j));
          x2 = fsum rnd (\<lambda>j. fi (wrap32 (X j * X j)));
          y2 = fsum rnd (\<lambda>j. fi (wrap32 (Y j * Y j)));
          xy = fsum rnd (\<lambda>j. fi (wrap32 (X j * Y j)));
          m1 = rnd (rnd (x2 * y2) - rnd (xy * xy));
          m2 = rnd (rnd (xy * y) - rnd (x * y2));
          m3 = rnd (rnd (x * xy) - rnd (y * x2));
          det = rnd (rnd (rnd (n * m1) + rnd (x * m2)) + rnd (y * m3)) in
      if det < tenth \<and> det > - tenth then Inr None
      else
        let a = rnd (m1 / det);
            b = rnd (m2 / det);
            c = rnd (m3 / det);
            e = rnd (rnd (rnd (n * y2) - rnd (y * y)) / det);
            f = rnd (rnd (rnd (x * y) - rnd (n * xy)) / det);
            i = rnd (rnd (rnd (n * x2) - rnd (x * x)) / det);
            axis = (\<lambda>T.
              let z = fsum rnd (\<lambda>j. fi (T j));
                  zx = fsum rnd (\<lambda>j. fi (wrap32 (T j * X j)));
                  zy = fsum rnd (\<lambda>j. fi (wrap32 (T j * Y j))) in
              tbind (coefficient rnd a b c z zx zy) (\<lambda>k0.
              tbind (coefficient rnd b e f z zx zy) (\<lambda>k1.
              tbind (coefficient rnd c f i z zx zy) (\<lambda>k2. Inr [k0, k1, k2])))) in
        tbind (axis (\<lambda>j. cal_xfb cal ! j)) (\<lambda>as.
        tbind (axis (\<lambda>j. cal_yfb cal ! j)) (\<lambda>bs. Inr (Some (as @ bs @ [65536])))))"

text \<open>What \<^verbatim>\<open>main\<close> writes to the calibration file.\<close>

definition pointercal :: "int list \<Rightarrow> string" where
  "pointercal a = join (map dec_int [a ! 1, a ! 2, a ! 0, a ! 4, a ! 5, a ! 3, a ! 6]) @ [CHR 0x00]"

subsection \<open>The session\<close>

text \<open>The movement of the cross in \<^verbatim>\<open>get_sample\<close>: ten positions in fixed point, each shown and hidden.\<close>

fun animate :: "fbinfo \<Rightarrow> nat \<Rightarrow> int \<Rightarrow> int \<Rightarrow> int \<Rightarrow> int \<Rightarrow> u8 list \<Rightarrow> ts_fault + u8 list" where
  "animate fb 0 lx ly dx dy mem = Inr mem"
| "animate fb (Suc k) lx ly dx dy mem =
     tbind (put_cross fb (drop_bit 16 lx) (drop_bit 16 ly) (2 OR XORMODE) mem) (\<lambda>mem1.
     tbind (put_cross fb (drop_bit 16 lx) (drop_bit 16 ly) (2 OR XORMODE) mem1)
       (animate fb k (wrap32 (lx + dx)) (wrap32 (ly + dy)) dx dy))"

text \<open>\<open>Exited\<close> when a read failed; else the frame buffer, the position for the next call, the calibration and the device.\<close>

definition get_sample :: "fbinfo \<Rightarrow> sorter \<Rightarrow> nat \<Rightarrow> 's reader \<Rightarrow> ts_sample list \<Rightarrow> nat \<Rightarrow> int \<Rightarrow> int \<Rightarrow>
    u8 list \<times> (int \<times> int) \<times> calibration \<times> 's \<Rightarrow> ts_fault + (u8 list \<times> (int \<times> int) \<times> calibration \<times> 's) attempt" where
  "get_sample fb qsort fuel rd junk index x y = (\<lambda>(mem, (last_x, last_y), cal, s).
     tbind (if last_x \<noteq> - 1
       then animate fb 10 (shl16 last_x) (shl16 last_y) (c_div (shl16 (wrap32 (x - last_x))) 10)
         (c_div (shl16 (wrap32 (y - last_y))) 10) mem
       else Inr mem) (\<lambda>mem1.
     tbind (put_cross fb x y (2 OR XORMODE) mem1) (\<lambda>mem2.
     tbind (getxy qsort fuel rd s junk True True) (\<lambda>r. case r of Exited \<Rightarrow> Inr Exited | Went (px, py, s') \<Rightarrow>
     tbind (put_cross fb x y (2 OR XORMODE) mem2) (\<lambda>mem3.
       Inr (Went (mem3, (x, y),
         cal\<lparr>cal_x := (cal_x cal)[index := the px], cal_y := (cal_y cal)[index := the py],
           cal_xfb := (cal_xfb cal)[index := x], cal_yfb := (cal_yfb cal)[index := y]\<rparr>, s')))))))"

text \<open>The five calls of \<^verbatim>\<open>main\<close>.\<close>

definition targets :: "fbinfo \<Rightarrow> (int \<times> int) list" where
  "targets fb = (let w = va_xres fb; h = va_yres fb in
     [(50, 50), (sint (w - 50), 50), (sint (w - 50), sint (h - 50)), (50, sint (h - 50)), (sint (w div 2), sint (h div 2))])"

fun sample_loop :: "fbinfo \<Rightarrow> sorter \<Rightarrow> nat \<Rightarrow> 's reader \<Rightarrow> ts_sample list \<Rightarrow> nat \<Rightarrow> (int \<times> int) list \<Rightarrow>
    u8 list \<times> (int \<times> int) \<times> calibration \<times> 's \<Rightarrow> ts_fault + (u8 list \<times> (int \<times> int) \<times> calibration \<times> 's) attempt" where
  "sample_loop fb qsort fuel rd junk index [] st = Inr (Went st)"
| "sample_loop fb qsort fuel rd junk index ((x, y) # ts) st =
     tbind (get_sample fb qsort fuel rd junk index x y st) (\<lambda>r. case r of Exited \<Rightarrow> Inr Exited
       | Went st' \<Rightarrow> sample_loop fb qsort fuel rd junk (index + 1) ts st')"

text \<open>
  \<^verbatim>\<open>main\<close> from the first sample on: the exit status, the content of the calibration file and the frame buffer before
  it is closed.
\<close>

definition ts_calibrate_main :: "fbinfo \<Rightarrow> sorter \<Rightarrow> nat \<Rightarrow> rounding \<Rightarrow> 's reader \<Rightarrow> ts_sample list \<Rightarrow> calibration \<Rightarrow>
    u8 list \<Rightarrow> 's \<Rightarrow> ts_fault + (int \<times> string option \<times> u8 list) attempt" where
  "ts_calibrate_main fb qsort fuel rnd rd junk cal0 mem s =
     tbind (sample_loop fb qsort fuel rd junk 0 (targets fb) (mem, (- 1, 0), cal0, s)) (\<lambda>r. case r of Exited \<Rightarrow> Inr Exited
     | Went (mem', pos, cal, s') \<Rightarrow> tbind (perform_calibration rnd cal) (\<lambda>k. case k of
         None \<Rightarrow> Inr (Went (- 1, None, mem'))
       | Some a \<Rightarrow> Inr (Went (0, Some (pointercal a), mem'))))"

subsection \<open>Least squares in exact arithmetic\<close>

abbreviation (input) exact :: rounding where
  "exact \<equiv> \<lambda>q. q"

definition sum5 :: "(nat \<Rightarrow> int) \<Rightarrow> int" where
  "sum5 f = f 0 + f 1 + f 2 + f 3 + f 4"

lemma fsum_five: "fsum rnd f = rnd (rnd (rnd (rnd (rnd (0 + f 0) + f 1) + f 2) + f 3) + f 4)"
proof -
  have five: "[0..<5] = [0, 1, 2, 3, 4 :: nat]" by (simp add: upt_conv_Cons)
  show ?thesis unfolding fsum_def by (subst five) (simp only: fold_simps)
qed

lemma fsum_exact: "fsum exact (\<lambda>j. of_int (f j)) = of_int (sum5 f)" "fsum exact (\<lambda>j. 1) = 5"
  by (simp_all add: fsum_five sum5_def)

text \<open>The determinant of the normal equations, over the integers.\<close>

definition calib_det :: "(nat \<Rightarrow> int) \<Rightarrow> (nat \<Rightarrow> int) \<Rightarrow> int" where
  "calib_det X Y =
     (let x = sum5 X; y = sum5 Y; x2 = sum5 (\<lambda>j. X j * X j); y2 = sum5 (\<lambda>j. Y j * Y j); xy = sum5 (\<lambda>j. X j * Y j) in
      5 * (x2 * y2 - xy * xy) + x * (xy * y - x * y2) + y * (x * xy - y * x2))"

lemma to_int_of_int: "to_int (of_int i) = (if in_s32 i then Inr i else Inl Out_of_bounds)"
  by (auto simp: to_int_def Let_def simp flip: of_int_minus)

text \<open>Cramer's rule: the scaled coefficients of the affine map that the points satisfy.\<close>

lemma cramer:
  fixes n x y x2 y2 xy z zx zy k0 k1 k2 :: rat
  defines "m1 \<equiv> x2 * y2 - xy * xy" and "m2 \<equiv> xy * y - x * y2" and "m3 \<equiv> x * xy - y * x2"
  defines "det \<equiv> n * m1 + x * m2 + y * m3"
  assumes "det \<noteq> 0" "65536 * z = k0 * n + k1 * x + k2 * y" "65536 * zx = k0 * x + k1 * x2 + k2 * xy"
    "65536 * zy = k0 * y + k1 * xy + k2 * y2"
  shows "(m1 / det * z + m2 / det * zx + m3 / det * zy) * 65536 = k0"
    and "(m2 / det * z + (n * y2 - y * y) / det * zx + (x * y - n * xy) / det * zy) * 65536 = k1"
    and "(m3 / det * z + (x * y - n * xy) / det * zx + (n * x2 - x * x) / det * zy) * 65536 = k2"
proof -
  have *: "(p / det * z + q / det * zx + r / det * zy) * 65536 = (p * (65536 * z) + q * (65536 * zx) + r * (65536 * zy)) / det" for p q r
    by (simp add: field_simps add_divide_distrib)
  show "(m1 / det * z + m2 / det * zx + m3 / det * zy) * 65536 = k0"
    "(m2 / det * z + (n * y2 - y * y) / det * zx + (x * y - n * xy) / det * zy) * 65536 = k1"
    "(m3 / det * z + (x * y - n * xy) / det * zx + (n * x2 - x * x) / det * zy) * 65536 = k2"
    unfolding * assms(6-8) divide_eq_eq using assms(5)
    by (simp_all add: det_def m1_def m2_def m3_def algebra_simps)
qed

text \<open>Five targets \<open>T\<close> that are an affine function of the touches \<open>(X, Y)\<close>, scaled by the factor of the file.\<close>

definition affine :: "(nat \<Rightarrow> int) \<Rightarrow> (nat \<Rightarrow> int) \<Rightarrow> int \<Rightarrow> int \<Rightarrow> int \<Rightarrow> (nat \<Rightarrow> int) \<Rightarrow> bool" where
  "affine X Y k0 k1 k2 T \<longleftrightarrow> (\<forall>j < 5. 65536 * T j = k0 + k1 * X j + k2 * Y j)"

lemma affine_sum:
  assumes "affine X Y k0 k1 k2 T"
  shows "65536 * sum5 (\<lambda>j. T j * W j) = k0 * sum5 W + k1 * sum5 (\<lambda>j. X j * W j) + k2 * sum5 (\<lambda>j. Y j * W j)"
proof -
  have *: "65536 * (T j * W j) = k0 * W j + k1 * (X j * W j) + k2 * (Y j * W j)" if "j < 5" for j
  proof -
    have "65536 * (T j * W j) = (k0 + k1 * X j + k2 * Y j) * W j"
      using assms that by (simp add: affine_def mult.assoc [symmetric])
    then show ?thesis by (simp add: algebra_simps)
  qed
  show ?thesis using * [of 0] * [of 1] * [of 2] * [of 3] * [of 4] by (simp add: sum5_def distrib_left)
qed

definition in_view :: "(nat \<Rightarrow> int) \<Rightarrow> bool" where
  "in_view X \<longleftrightarrow> (\<forall>j < 5. \<bar>X j\<bar> \<le> 30000)"

lemma view_product:
  assumes "in_view X" "in_view Y" "j < 5"
  shows "wrap32 (X j * Y j) = X j * Y j"
proof -
  have "\<bar>X j * Y j\<bar> \<le> 30000 * 30000"
    unfolding abs_mult using assms by (intro mult_mono) (auto simp: in_view_def)
  then show ?thesis by (intro wrap32_id) (auto simp: in_s32_def)
qed

lemma sum_view:
  assumes "in_view X" "in_view Y"
  shows "sum5 (\<lambda>j. wrap32 (X j * Y j)) = sum5 (\<lambda>j. X j * Y j)"
  using view_product [OF assms] by (simp add: sum5_def)

text \<open>One axis of the result.\<close>

lemma axis_exact:
  assumes "affine X Y k0 k1 k2 T" "in_view X" "in_view Y" "in_view T" "calib_det X Y \<noteq> 0" "in_s32 k0" "in_s32 k1" "in_s32 k2"
  defines "n \<equiv> (5 :: rat)" and "x \<equiv> of_int (sum5 X) :: rat" and "y \<equiv> of_int (sum5 Y) :: rat"
    and "x2 \<equiv> of_int (sum5 (\<lambda>j. X j * X j)) :: rat" and "y2 \<equiv> of_int (sum5 (\<lambda>j. Y j * Y j)) :: rat"
    and "xy \<equiv> of_int (sum5 (\<lambda>j. X j * Y j)) :: rat"
    and "z \<equiv> of_int (sum5 T) :: rat" and "zx \<equiv> of_int (sum5 (\<lambda>j. T j * X j)) :: rat" and "zy \<equiv> of_int (sum5 (\<lambda>j. T j * Y j)) :: rat"
  defines "m1 \<equiv> x2 * y2 - xy * xy" and "m2 \<equiv> xy * y - x * y2" and "m3 \<equiv> x * xy - y * x2"
  defines "det \<equiv> n * m1 + x * m2 + y * m3"
  shows "det = of_int (calib_det X Y)"
    and "coefficient exact (m1 / det) (m2 / det) (m3 / det) z zx zy = Inr k0"
    and "coefficient exact (m2 / det) ((n * y2 - y * y) / det) ((x * y - n * xy) / det) z zx zy = Inr k1"
    and "coefficient exact (m3 / det) ((x * y - n * xy) / det) ((n * x2 - x * x) / det) z zx zy = Inr k2"
proof -
  note ds = n_def x_def y_def x2_def y2_def xy_def z_def zx_def zy_def
  show det: "det = of_int (calib_det X Y)"
    unfolding det_def m1_def m2_def m3_def ds calib_det_def Let_def by simp
  then have d0: "det \<noteq> 0" using assms(5) by simp
  note s = affine_sum [OF assms(1)]
  have swap: "sum5 (\<lambda>j. Y j * X j) = sum5 (\<lambda>j. X j * Y j)" by (simp add: sum5_def)
  have "65536 * sum5 T = k0 * 5 + k1 * sum5 X + k2 * sum5 Y" using s [of "\<lambda>j. 1"] by (simp add: sum5_def)
  from arg_cong [OF this, of "of_int :: int \<Rightarrow> rat"]
  have z: "65536 * z = of_int k0 * n + of_int k1 * x + of_int k2 * y" unfolding ds by simp
  from arg_cong [OF s [of X], of "of_int :: int \<Rightarrow> rat"]
  have zx: "65536 * zx = of_int k0 * x + of_int k1 * x2 + of_int k2 * xy" unfolding ds swap by simp
  from arg_cong [OF s [of Y], of "of_int :: int \<Rightarrow> rat"]
  have zy: "65536 * zy = of_int k0 * y + of_int k1 * xy + of_int k2 * y2" unfolding ds by simp
  note c = cramer [OF d0 [unfolded det_def m1_def m2_def m3_def] z zx zy, folded m1_def m2_def m3_def, folded det_def]
  show "coefficient exact (m1 / det) (m2 / det) (m3 / det) z zx zy = Inr k0"
    "coefficient exact (m2 / det) ((n * y2 - y * y) / det) ((x * y - n * xy) / det) z zx zy = Inr k1"
    "coefficient exact (m3 / det) ((x * y - n * xy) / det) ((n * x2 - x * x) / det) z zx zy = Inr k2"
    unfolding coefficient_def c by (simp_all add: to_int_of_int assms(6-8))
qed

abbreviation coord :: "int list \<Rightarrow> nat \<Rightarrow> int" where
  "coord l \<equiv> \<lambda>j. l ! j"

definition calib_ok :: "calibration \<Rightarrow> bool" where
  "calib_ok cal \<longleftrightarrow> in_view (coord (cal_x cal)) \<and> in_view (coord (cal_y cal)) \<and>
     in_view (coord (cal_xfb cal)) \<and> in_view (coord (cal_yfb cal))"

lemma det_not_small: "(of_int d :: rat) < tenth \<and> of_int d > - tenth \<longleftrightarrow> d = 0"
proof
  assume "(of_int d :: rat) < tenth \<and> of_int d > - tenth"
  then have "(of_int d :: rat) < 1" "(of_int d :: rat) > - 1" by (simp_all add: tenth_def)
  then show "d = 0" by (simp flip: of_int_minus)
qed (simp add: tenth_def)

lemma perform_calibration_exact:
  assumes "calib_ok cal"
    and "affine (coord (cal_x cal)) (coord (cal_y cal)) k0 k1 k2 (coord (cal_xfb cal))" "in_s32 k0" "in_s32 k1" "in_s32 k2"
    and "affine (coord (cal_x cal)) (coord (cal_y cal)) k3 k4 k5 (coord (cal_yfb cal))" "in_s32 k3" "in_s32 k4" "in_s32 k5"
    and "calib_det (coord (cal_x cal)) (coord (cal_y cal)) \<noteq> 0"
  shows "perform_calibration exact cal = Inr (Some [k0, k1, k2, k3, k4, k5, 65536])"
proof -
  let ?X = "coord (cal_x cal)" and ?Y = "coord (cal_y cal)" and ?T = "coord (cal_xfb cal)" and ?U = "coord (cal_yfb cal)"
  have v: "in_view ?X" "in_view ?Y" "in_view ?T" "in_view ?U" using assms(1) by (simp_all add: calib_ok_def)
  note sums = fsum_exact sum_view [OF v(1,1)] sum_view [OF v(2,2)] sum_view [OF v(1,2)]
    sum_view [OF v(3,1)] sum_view [OF v(3,2)] sum_view [OF v(4,1)] sum_view [OF v(4,2)]
  note a = axis_exact [OF assms(2) v(1,2,3) assms(10) assms(3,4,5)]
  note b = axis_exact [OF assms(6) v(1,2,4) assms(10) assms(7,8,9)]
  have d: "(calib_det ?X ?Y = 0) = False" using assms(10) by simp
  show ?thesis
    unfolding perform_calibration_def Let_def sums a(1) det_not_small d
    by (simp only: a(2-4) [unfolded a(1)] b(2-4) [unfolded b(1)] if_False tbind_simps append.simps)
qed

subsection \<open>From the touches through the file to the filter\<close>

lemma c_div_scaled: "c_div (65536 * t) 65536 = t"
  by (auto simp: c_div_def abs_mult sgn_mult sgn_mult_abs)

text \<open>No step of \<^verbatim>\<open>linear.c\<close> overflows on the five touches.\<close>

definition linear_fits :: "(nat \<Rightarrow> int) \<Rightarrow> (nat \<Rightarrow> int) \<Rightarrow> int \<Rightarrow> int \<Rightarrow> int \<Rightarrow> bool" where
  "linear_fits X Y k0 k1 k2 \<longleftrightarrow> (\<forall>j < 5. in_s32 (k1 * X j) \<and> in_s32 (k0 + k1 * X j) \<and> in_s32 (k2 * Y j))"

lemma linear_axis:
  assumes "affine X Y k0 k1 k2 T" "linear_fits X Y k0 k1 k2" "in_view T" "j < 5"
  shows "wrap32 (c_div (wrap32 (wrap32 (k0 + wrap32 (k1 * X j)) + wrap32 (k2 * Y j))) 65536) = T j"
proof -
  have t: "\<bar>T j\<bar> \<le> 30000" using assms(3,4) by (simp add: in_view_def)
  have "k0 + k1 * X j + k2 * Y j = 65536 * T j" using assms(1,4) by (simp add: affine_def)
  moreover have "in_s32 (65536 * T j)" "in_s32 (T j)" using t by (auto simp: in_s32_def)
  ultimately show ?thesis using assms(2,4) by (simp add: linear_fits_def c_div_scaled)
qed


text \<open>
  Touches on a line determine no map: the determinant is zero and the calibration fails with -1, whatever
  the targets.
\<close>

theorem collinear_calibration_fails:
  assumes "calib_ok cal" "p \<noteq> 0 \<or> q \<noteq> 0" "\<forall>j < 5. p * (cal_x cal ! j) + q * (cal_y cal ! j) = r"
  shows "perform_calibration exact cal = Inr None"
proof -
  let ?X = "coord (cal_x cal)" and ?Y = "coord (cal_y cal)"
  define x y x2 y2 xy where "x = sum5 ?X" and "y = sum5 ?Y" and "x2 = sum5 (\<lambda>j. ?X j * ?X j)"
    and "y2 = sum5 (\<lambda>j. ?Y j * ?Y j)" and "xy = sum5 (\<lambda>j. ?X j * ?Y j)"
  have w: "p * sum5 (\<lambda>j. ?X j * W j) + q * sum5 (\<lambda>j. ?Y j * W j) = r * sum5 W" for W
  proof -
    have "p * (?X j * W j) + q * (?Y j * W j) = r * W j" if "j < 5" for j
      using assms(3) that by (metis distrib_right mult.assoc)
    from this [of 0] this [of 1] this [of 2] this [of 3] this [of 4] show ?thesis by (simp add: sum5_def distrib_left)
  qed
  have swap: "sum5 (\<lambda>j. ?Y j * ?X j) = xy" by (simp add: xy_def sum5_def mult.commute)
  have e: "p * x + q * y = r * 5" "p * x2 + q * xy = r * x" "p * xy + q * y2 = r * y"
    using w [of "\<lambda>j. 1"] w [of ?X] w [of ?Y] by (simp_all add: x_def y_def x2_def y2_def xy_def swap [unfolded xy_def] sum5_def)
  have d: "calib_det ?X ?Y = 5 * (x2 * y2 - xy * xy) + x * (xy * y - x * y2) + y * (x * xy - y * x2)"
    by (simp add: calib_det_def Let_def x_def y_def x2_def y2_def xy_def)
  have "calib_det ?X ?Y * p = (xy * y - x * y2) * (p * x + q * y - r * 5) + (5 * y2 - y * y) * (p * x2 + q * xy - r * x) +
      (x * y - 5 * xy) * (p * xy + q * y2 - r * y)" unfolding d by (simp add: algebra_simps)
  then have "calib_det ?X ?Y * p = 0" using e by simp
  moreover have "calib_det ?X ?Y * q = (x * xy - y * x2) * (p * x + q * y - r * 5) + (x * y - 5 * xy) * (p * x2 + q * xy - r * x) +
      (5 * x2 - x * x) * (p * xy + q * y2 - r * y)" unfolding d by (simp add: algebra_simps)
  then have "calib_det ?X ?Y * q = 0" using e by simp
  ultimately have zero: "calib_det ?X ?Y = 0" using assms(2) by auto
  have v: "in_view ?X" "in_view ?Y" using assms(1) by (simp_all add: calib_ok_def)
  have "of_int (calib_det ?X ?Y) = (5 * (of_int x2 * of_int y2 - of_int xy * of_int xy) + of_int x * (of_int xy * of_int y - of_int x * of_int y2) +
      of_int y * (of_int x * of_int xy - of_int y * of_int x2) :: rat)" unfolding d by simp
  then have det: "5 * (of_int x2 * of_int y2 - of_int xy * of_int xy) + of_int x * (of_int xy * of_int y - of_int x * of_int y2) +
      of_int y * (of_int x * of_int xy - of_int y * of_int x2) = (of_int 0 :: rat)" unfolding zero by simp
  show ?thesis
    unfolding perform_calibration_def Let_def fsum_exact sum_view [OF v(1,1)] sum_view [OF v(2,2)] sum_view [OF v(1,2)]
      x_def [symmetric] y_def [symmetric] x2_def [symmetric] y2_def [symmetric] xy_def [symmetric] det det_not_small
    by simp
qed

subsection \<open>The session\<close>

lemma animate_restores:
  assumes "fb_ok fb" "length mem = fb_size fb"
  shows "in_s32 lx \<Longrightarrow> in_s32 ly \<Longrightarrow> animate fb k lx ly dx dy mem = Inr mem"
proof (induction k arbitrary: lx ly)
  case (Suc k)
  have "near_screen (drop_bit 16 i)" if "in_s32 i" for i
    using that by (auto simp: near_screen_def in_s32_def drop_bit_eq_div)
  with Suc.prems obtain mem1 where "put_cross fb (drop_bit 16 lx) (drop_bit 16 ly) (2 OR XORMODE) mem = Inr mem1"
    "put_cross fb (drop_bit 16 lx) (drop_bit 16 ly) (2 OR XORMODE) mem1 = Inr mem"
    using cross_twice [OF assms] by blast
  then show ?case using Suc.IH by simp
qed simp

lemma get_sample_touch:
  assumes "fb_ok fb" "length mem = fb_size fb" "near_screen x" "near_screen y"
    and "sorts qsort" "touch_ok fuel t" "delivers rd s (touch_samples t) s'" "length junk = 128"
  shows "get_sample fb qsort fuel rd junk index x y (mem, pos, cal, s) = Inr (Went (mem, (x, y),
    cal\<lparr>cal_x := (cal_x cal)[index := touch_x t], cal_y := (cal_y cal)[index := touch_y t],
      cal_xfb := (cal_xfb cal)[index := x], cal_yfb := (cal_yfb cal)[index := y]\<rparr>, s'))"
proof -
  obtain lx ly where pos: "pos = (lx, ly)" by force
  have "animate fb 10 (shl16 lx) (shl16 ly) dx dy mem = Inr mem" for dx dy
    using animate_restores [OF assms(1,2)] by (simp add: shl16_def)
  moreover obtain mem1 where "put_cross fb x y (2 OR XORMODE) mem = Inr mem1" "put_cross fb x y (2 OR XORMODE) mem1 = Inr mem"
    by (rule cross_twice [OF assms(1-4)])
  ultimately show ?thesis
    using getxy_touch_ok [OF assms(5-8)] by (simp add: get_sample_def pos)
qed

lemma sample_loop_touches:
  assumes "fb_ok fb" "length mem = fb_size fb" "sorts qsort" "length junk = 128"
  shows "length ts = length tgs \<Longrightarrow> \<forall>t \<in> set ts. touch_ok fuel t \<Longrightarrow> \<forall>(x, y) \<in> set tgs. near_screen x \<and> near_screen y \<Longrightarrow>
    delivers rd s (concat (map touch_samples ts)) s' \<Longrightarrow>
    length (cal_x cal) = index + length ts \<Longrightarrow> length (cal_y cal) = index + length ts \<Longrightarrow>
    length (cal_xfb cal) = index + length ts \<Longrightarrow> length (cal_yfb cal) = index + length ts \<Longrightarrow>
    \<exists>pos'. sample_loop fb qsort fuel rd junk index tgs (mem, pos, cal, s) = Inr (Went (mem, pos',
      \<lparr>cal_x = take index (cal_x cal) @ map touch_x ts, cal_y = take index (cal_y cal) @ map touch_y ts,
       cal_xfb = take index (cal_xfb cal) @ map fst tgs, cal_yfb = take index (cal_yfb cal) @ map snd tgs\<rparr>, s'))"
proof (induction ts arbitrary: tgs s cal index pos)
  case Nil
  then show ?case by simp
next
  case (Cons t ts)
  obtain x y tgs' where tgs: "tgs = (x, y) # tgs'" using Cons.prems(1) by (cases tgs) auto
  obtain s1 where s1: "delivers rd s (touch_samples t) s1" "delivers rd s1 (concat (map touch_samples ts)) s'"
    using Cons.prems(4) by (auto simp: delivers_append)
  have xy: "near_screen x" "near_screen y" "touch_ok fuel t" using Cons.prems(2,3) tgs by auto
  let ?cal = "cal\<lparr>cal_x := (cal_x cal)[index := touch_x t], cal_y := (cal_y cal)[index := touch_y t],
      cal_xfb := (cal_xfb cal)[index := x], cal_yfb := (cal_yfb cal)[index := y]\<rparr>"
  have "get_sample fb qsort fuel rd junk index x y (mem, pos, cal, s) = Inr (Went (mem, (x, y), ?cal, s1))"
    using get_sample_touch [OF assms(1,2) xy(1,2) assms(3) xy(3) s1(1) assms(4)] .
  moreover have "\<exists>pos'. sample_loop fb qsort fuel rd junk (index + 1) tgs' (mem, (x, y), ?cal, s1) = Inr (Went (mem, pos',
      \<lparr>cal_x = take (index + 1) (cal_x ?cal) @ map touch_x ts, cal_y = take (index + 1) (cal_y ?cal) @ map touch_y ts,
       cal_xfb = take (index + 1) (cal_xfb ?cal) @ map fst tgs', cal_yfb = take (index + 1) (cal_yfb ?cal) @ map snd tgs'\<rparr>, s'))"
    using Cons.prems tgs by (intro Cons.IH s1(2)) auto
  ultimately show ?case using Cons.prems(5-8) unfolding tgs by simp
qed

lemma targets_near:
  assumes "va_xres fb < 0x3ffffff0" "va_yres fb < 0x3ffffff0"
  shows "\<forall>(x, y) \<in> set (targets fb). near_screen x \<and> near_screen y"
proof -
  have half: "near_screen (sint (w div 2))" if "w < 0x3ffffff0" for w :: u32
  proof -
    have "uint (w div 2) = uint w div 2" by (simp add: uint_div_distrib)
    moreover have "uint w < 0x3ffffff0" using that by (simp add: word_less_def)
    moreover have nonneg: "0 \<le> uint w div 2" by simp
    then have "- (2 ^ 31) \<le> uint w div 2" by (rule order_trans [rotated]) simp
    ultimately have "sint (w div 2) = uint w div 2" by (simp add: sint_uint signed_take_bit_int_eq_self)
    then show ?thesis using \<open>uint w < 0x3ffffff0\<close> order_trans [OF _ nonneg] by (simp add: near_screen_def)
  qed
  have edge: "near_screen (sint (w - 50))" if "w < 0x3ffffff0" for w :: u32
  proof -
    have w: "uint w < 0x3ffffff0" "0 \<le> uint w" using that by (simp_all add: word_less_def)
    have "sint (w - 50) = signed_take_bit 31 (uint w - 50)"
      by (simp add: sint_uint uint_word_arith_bintrs signed_take_bit_take_bit)
    then have "sint (w - 50) = uint w - 50" using w by (simp add: signed_take_bit_int_eq_self)
    then show ?thesis using w by (simp add: near_screen_def)
  qed
  show ?thesis using half [OF assms(1)] half [OF assms(2)] edge [OF assms(1)] edge [OF assms(2)]
    by (simp add: targets_def Let_def near_screen_def)
qed

text \<open>
  C33. The whole session: for every sequence of five touches that the device delivers, the program computes the calibration from
  the medians of the touches and the places of the crosses, in their order; it writes the file exactly when that
  succeeds, and the screen holds what it held before the first cross.
\<close>

theorem ts_calibrate_session:
  assumes "fb_ok fb" "length mem = fb_size fb" "va_xres fb < 0x3ffffff0" "va_yres fb < 0x3ffffff0"
    and "sorts qsort" "length junk = 128" "\<forall>l \<in> {cal_x cal0, cal_y cal0, cal_xfb cal0, cal_yfb cal0}. length l = 5"
    and "length ts = 5" "\<forall>t \<in> set ts. touch_ok fuel t" "delivers rd s (concat (map touch_samples ts)) s'"
    and "perform_calibration rnd \<lparr>cal_x = map touch_x ts, cal_y = map touch_y ts,
      cal_xfb = map fst (targets fb), cal_yfb = map snd (targets fb)\<rparr> = Inr k"
  shows "ts_calibrate_main fb qsort fuel rnd rd junk cal0 mem s =
    Inr (Went (if k = None then - 1 else 0, map_option pointercal k, mem))"
proof -
  have n: "length ts = length (targets fb)" using assms(8) by (simp add: targets_def Let_def)
  obtain pos where "sample_loop fb qsort fuel rd junk 0 (targets fb) (mem, (- 1, 0), cal0, s) = Inr (Went (mem, pos,
      \<lparr>cal_x = map touch_x ts, cal_y = map touch_y ts, cal_xfb = map fst (targets fb), cal_yfb = map snd (targets fb)\<rparr>, s'))"
    using sample_loop_touches [OF assms(1,2,5,6) n assms(9) targets_near [OF assms(3,4)] assms(10), of cal0 0 "(- 1, 0)"] assms(7,8)
    by auto
  then show ?thesis using assms(11) by (cases k) (simp_all add: ts_calibrate_main_def)
qed

text \<open>Five touches, each of one sample, on a panel turned by a right angle whose steps are half a pixel.\<close>

definition demo_cal :: calibration where
  "demo_cal = \<lparr>cal_x = [100, 100, 380, 380, 240], cal_y = [100, 540, 540, 100, 320],
     cal_xfb = [50, 270, 270, 50, 160], cal_yfb = [50, 50, 190, 190, 120]\<rparr>"

lemma all_below_five: "(\<forall>j < 5. P j) \<longleftrightarrow> P 0 \<and> P 1 \<and> P 2 \<and> P 3 \<and> P (4 :: nat)"
  by (auto simp: eval_nat_numeral All_less_Suc)

lemmas calib_eval = calib_ok_def in_view_def affine_def linear_fits_def calib_det_def sum5_def all_below_five in_s32_def


theorem collinear_calibration_fails_witness:
  "perform_calibration exact (demo_cal\<lparr>cal_y := [101, 101, 381, 381, 241]\<rparr>) = Inr None"
  by (rule collinear_calibration_fails [of _ 1 "- 1" "- 1"]) (simp_all add: calib_eval demo_cal_def)

definition demo_touches :: "touch list" where
  "demo_touches = map (\<lambda>(x, y). ([touch_at 9 9 0], [touch_at x y 1], touch_at x y 0)) [(50, 50), (- 46, 50), (- 46, - 48), (50, - 48), (2, 1)]"

theorem ts_calibrate_session_witness:
  "ts_calibrate_main demo_fb insertion_sort 3 exact feed (replicate 128 (touch_at 0 0 0))
     \<lparr>cal_x = replicate 5 0, cal_y = replicate 5 0, cal_xfb = replicate 5 0, cal_yfb = replicate 5 0\<rparr> (replicate 16 7)
     (concat (map touch_samples demo_touches)) =
   Inr (Went (0, Some (pointercal [0, 65536, 0, 0, 0, 65536, 65536]), replicate 16 7))"
proof -
  let ?cal = "\<lparr>cal_x = map touch_x demo_touches, cal_y = map touch_y demo_touches,
      cal_xfb = map fst (targets demo_fb), cal_yfb = map snd (targets demo_fb)\<rparr>"
  have t: "targets demo_fb = [(50, 50), (- 46, 50), (- 46, - 48), (50, - 48), (2, 1)]"
    by (simp add: targets_def demo_fb_def)
  have xy: "map touch_x demo_touches = map fst (targets demo_fb)" "map touch_y demo_touches = map snd (targets demo_fb)"
    by (simp_all add: t demo_touches_def touch_x_def touch_y_def touch_at_def median_def)
  have k: "perform_calibration exact ?cal = Inr (Some [0, 65536, 0, 0, 0, 65536, 65536])"
    unfolding xy t by (rule perform_calibration_exact) (simp_all add: calib_eval Let_def)
  have ok: "\<forall>t \<in> set demo_touches. touch_ok 3 t"
    by (simp add: demo_touches_def touch_ok_def touch_at_def modest_def)
  have d: "delivers feed (concat (map touch_samples demo_touches)) (concat (map touch_samples demo_touches)) []"
    using feed_delivers [of "concat (map touch_samples demo_touches)" "[]"] by simp
  show ?thesis
    using ts_calibrate_session [OF demo_fb_ok _ _ _ insertion_sort_sorts _ _ _ ok d k, of "replicate 16 7"]
    by (simp add: demo_fb_def demo_touches_def)
qed

end
