(* ===== verification/TsTest.thy ===== *)
theory TsTest
  imports FbFont TsGetxy
begin

section \<open>tslib/tests/ts_test.c: dragging and drawing\<close>

text \<open>
  The program shows a cross that follows the pen and two buttons: the first returns to dragging, the second
  lets the pen draw. A read of the library is a \<^typ>\<open>'s reader\<close>; \<open>tt_out\<close> are the samples printed. A round of the endless
  loop is \<open>ts_test_step\<close>; \<open>Exited\<close> says that a read failed. The second half of the theory is an abstract machine
  without crosses, bits and bytes, which the program refines.
\<close>

record ts_button =
  bt_x :: int
  bt_y :: int
  bt_w :: int
  bt_h :: int
  bt_text :: string
  bt_flags :: u32

definition BUTTON_ACTIVE :: u32 where
  "BUTTON_ACTIVE = 1"

definition button_palette :: "u32 list" where
  "button_palette = [1, 4, 2, 1, 5, 0]"

definition button_draw :: "fbinfo \<Rightarrow> ts_button \<Rightarrow> u8 list \<Rightarrow> ts_fault + u8 list" where
  "button_draw fb b =
     (let s = (if bt_flags b AND BUTTON_ACTIVE \<noteq> 0 then 3 else 0) in draws
      [rect fb (bt_x b) (bt_y b) (wrap32 (wrap32 (bt_x b + bt_w b) - 1)) (wrap32 (wrap32 (bt_y b + bt_h b) - 1))
         (button_palette ! s),
       fillrect fb (wrap32 (bt_x b + 1)) (wrap32 (bt_y b + 1)) (wrap32 (wrap32 (bt_x b + bt_w b) - 2))
         (wrap32 (wrap32 (bt_y b + bt_h b) - 2)) (button_palette ! (s + 1)),
       put_string_center fb (wrap32 (bt_x b + c_div (bt_w b) 2)) (wrap32 (bt_y b + c_div (bt_h b) 2)) (bt_text b)
         (button_palette ! (s + 2))])"

definition button_inside :: "ts_button \<Rightarrow> ts_sample \<Rightarrow> bool" where
  "button_inside b samp \<longleftrightarrow> ts_x samp \<ge> bt_x b \<and> ts_y samp \<ge> bt_y b \<and>
     ts_x samp < wrap32 (bt_x b + bt_w b) \<and> ts_y samp < wrap32 (bt_y b + bt_h b)"

text \<open>The value of \<^verbatim>\<open>button_handle\<close>, the button and the frame buffer.\<close>

definition button_handle :: "fbinfo \<Rightarrow> ts_button \<Rightarrow> ts_sample \<Rightarrow> u8 list \<Rightarrow> ts_fault + (int \<times> ts_button \<times> u8 list)" where
  "button_handle fb b samp mem =
     (let on = b\<lparr>bt_flags := bt_flags b OR BUTTON_ACTIVE\<rparr>; off = b\<lparr>bt_flags := bt_flags b AND NOT BUTTON_ACTIVE\<rparr> in
      if pressure samp > 0 then
        if button_inside b samp then
          if bt_flags b AND BUTTON_ACTIVE = 0 then tbind (button_draw fb on mem) (\<lambda>mem'. Inr (0, on, mem'))
          else Inr (0, b, mem)
        else if bt_flags b AND BUTTON_ACTIVE \<noteq> 0 then tbind (button_draw fb off mem) (\<lambda>mem'. Inr (0, off, mem'))
        else Inr (0, b, mem)
      else if bt_flags b AND BUTTON_ACTIVE \<noteq> 0 then tbind (button_draw fb off mem) (\<lambda>mem'. Inr (1, off, mem'))
      else Inr (0, b, mem))"

definition ts_test_refresh :: "fbinfo \<Rightarrow> ts_button list \<Rightarrow> u8 list \<Rightarrow> ts_fault + u8 list" where
  "ts_test_refresh fb bs = draws
     ([fillrect fb 0 0 (sint (va_xres fb - 1)) (sint (va_yres fb - 1)) 0,
       put_string_center fb (sint (va_xres fb div 2)) (sint (va_yres fb div 4)) ''TSLIB test program'' 1,
       put_string_center fb (sint (va_xres fb div 2)) (sint (va_yres fb div 4 + 20)) ''Touch screen to move crosshair'' 2] @
      map (button_draw fb) bs)"

record ts_test =
  tt_x :: int
  tt_y :: int
  tt_mode :: u32
  tt_buttons :: "ts_button list"
  tt_mem :: "u8 list"
  tt_out :: "ts_sample list"

text \<open>The loop over the buttons, with \<open>k\<close> of them to go from index \<open>i\<close>.\<close>

fun handle_buttons :: "fbinfo \<Rightarrow> ts_sample \<Rightarrow> nat \<Rightarrow> nat \<Rightarrow> ts_test \<Rightarrow> ts_fault + ts_test" where
  "handle_buttons fb samp i 0 st = Inr st"
| "handle_buttons fb samp i (Suc k) st =
     tbind (samp_get (tt_buttons st) i) (\<lambda>b.
     tbind (button_handle fb b samp (tt_mem st)) (\<lambda>(r, b', mem').
     let st1 = st\<lparr>tt_buttons := (tt_buttons st)[i := b'], tt_mem := mem'\<rparr> in
     tbind (if r \<noteq> 0 \<and> i \<le> 1
        then tbind (ts_test_refresh fb (tt_buttons st1) (tt_mem st1)) (\<lambda>m. Inr (st1\<lparr>tt_mode := of_nat i, tt_mem := m\<rparr>))
        else Inr st1) (handle_buttons fb samp (i + 1) k)))"

definition toggle_cross :: "fbinfo \<Rightarrow> ts_test \<Rightarrow> ts_fault + ts_test" where
  "toggle_cross fb st = (if tt_mode st AND 15 \<noteq> 1
     then tbind (put_cross fb (tt_x st) (tt_y st) (2 OR XORMODE) (tt_mem st)) (\<lambda>m. Inr (st\<lparr>tt_mem := m\<rparr>)) else Inr st)"

text \<open>The part of a round behind a sample.\<close>

definition take_sample :: "fbinfo \<Rightarrow> ts_sample \<Rightarrow> ts_test \<Rightarrow> ts_fault + ts_test" where
  "take_sample fb samp st =
     tbind (handle_buttons fb samp 0 2 st) (\<lambda>st1.
     let st2 = st1\<lparr>tt_out := tt_out st1 @ [samp]\<rparr> in
     if pressure samp > 0
     then tbind (if tt_mode st2 = 0x80000001
         then line fb (tt_x st2) (tt_y st2) (ts_x samp) (ts_y samp) 2 (tt_mem st2) else Inr (tt_mem st2)) (\<lambda>m.
       Inr (st2\<lparr>tt_mem := m, tt_x := ts_x samp, tt_y := ts_y samp, tt_mode := tt_mode st2 OR 0x80000000\<rparr>))
     else Inr (st2\<lparr>tt_mode := tt_mode st2 AND NOT 0x80000000\<rparr>))"

definition ts_test_step :: "fbinfo \<Rightarrow> 's reader \<Rightarrow> ts_sample \<Rightarrow> ts_test \<times> 's \<Rightarrow> ts_fault + (ts_test \<times> 's) attempt" where
  "ts_test_step fb rd junk = (\<lambda>(st, s).
     tbind (toggle_cross fb st) (\<lambda>st1.
     tbind (rd s [junk] 1) (\<lambda>(ret, samp, s').
     tbind (toggle_cross fb st1) (\<lambda>st2.
     if ret < 0 then Inr Exited
     else if ret \<noteq> 1 then Inr (Went (st2, s'))
     else tbind (samp_get samp 0) (\<lambda>v. tbind (take_sample fb v st2) (\<lambda>st3. Inr (Went (st3, s'))))))))"

fun ts_test_rounds :: "fbinfo \<Rightarrow> 's reader \<Rightarrow> ts_sample \<Rightarrow> nat \<Rightarrow> ts_test \<times> 's \<Rightarrow> ts_fault + (ts_test \<times> 's) attempt" where
  "ts_test_rounds fb rd junk 0 sts = Inr (Went sts)"
| "ts_test_rounds fb rd junk (Suc n) sts = tbind (ts_test_step fb rd junk sts) (\<lambda>r. case r of Exited \<Rightarrow> Inr Exited
     | Went sts' \<Rightarrow> ts_test_rounds fb rd junk n sts')"

text \<open>\<^verbatim>\<open>main\<close> up to the loop, from the screen that \<^verbatim>\<open>open_framebuffer\<close> left.\<close>

definition start_buttons :: "fbinfo \<Rightarrow> ts_button list" where
  "start_buttons fb =
     (let w = sint (va_xres fb div 4);
          b = \<lparr>bt_x = sint (va_xres fb div 4 - word_of_int (c_div w 2)), bt_y = 10, bt_w = w, bt_h = 20, bt_text = ''Drag'', bt_flags = 0\<rparr> in
      [b, b\<lparr>bt_x := sint ((3 * va_xres fb) div 4 - word_of_int (c_div w 2)), bt_text := ''Draw''\<rparr>])"

definition ts_test_start :: "fbinfo \<Rightarrow> u8 list \<Rightarrow> ts_fault + ts_test" where
  "ts_test_start fb mem = tbind (ts_test_refresh fb (start_buttons fb) mem) (\<lambda>m.
     Inr \<lparr>tt_x = sint (va_xres fb div 2), tt_y = sint (va_yres fb div 2), tt_mode = 0, tt_buttons = start_buttons fb,
       tt_mem = m, tt_out = []\<rparr>)"

subsection \<open>The abstract machine\<close>

text \<open>
  What the user sees: the screen is a sequence of pictures drawn over each other. A button is pressed or not; letting it go
  clears the screen and chooses whether the pen drags or draws.
\<close>

datatype picture = Clear "bool list" | Button nat bool | Stroke int int int int

record pad =
  pd_draws :: bool
  pd_pen :: bool
  pd_at :: "int \<times> int"
  pd_down :: "bool list"
  pd_shown :: "picture list"

type_synonym place = "int \<times> int \<times> int \<times> int"

definition within :: "place \<Rightarrow> ts_sample \<Rightarrow> bool" where
  "within = (\<lambda>(x, y, w, h) v. x \<le> ts_x v \<and> ts_x v < x + w \<and> y \<le> ts_y v \<and> ts_y v < y + h)"

definition pad_button :: "place \<Rightarrow> ts_sample \<Rightarrow> nat \<Rightarrow> pad \<Rightarrow> pad" where
  "pad_button p v i pd =
     (let new = (pressure v > 0 \<and> within p v) in
      if new = pd_down pd ! i then pd
      else let pd1 = pd\<lparr>pd_down := (pd_down pd)[i := new], pd_shown := pd_shown pd @ [Button i new]\<rparr> in
        if pressure v > 0 then pd1 else pd1\<lparr>pd_draws := (i = 1), pd_shown := pd_shown pd1 @ [Clear (pd_down pd1)], pd_pen := False\<rparr>)"

definition pad_pen :: "ts_sample \<Rightarrow> pad \<Rightarrow> pad" where
  "pad_pen v pd =
     (if pressure v > 0
      then pd\<lparr>pd_shown := pd_shown pd @ (if pd_draws pd \<and> pd_pen pd then [Stroke (fst (pd_at pd)) (snd (pd_at pd)) (ts_x v) (ts_y v)] else []),
         pd_at := (ts_x v, ts_y v), pd_pen := True\<rparr>
      else pd\<lparr>pd_pen := False\<rparr>)"

definition pad_sample :: "place list \<Rightarrow> ts_sample \<Rightarrow> pad \<Rightarrow> pad" where
  "pad_sample ps v pd = pad_pen v (pad_button (ps ! 1) v 1 (pad_button (ps ! 0) v 0 pd))"

text \<open>Where the buttons are: a quarter of the screen wide, at one and three quarters of it.\<close>

definition places :: "fbinfo \<Rightarrow> place list" where
  "places fb = (let W = uint (va_xres fb); w = W div 4 in [(w - w div 2, 10, w, 20), (3 * W div 4 - w div 2, 10, w, 20)])"

definition pad_start :: "fbinfo \<Rightarrow> pad" where
  "pad_start fb = \<lparr>pd_draws = False, pd_pen = False, pd_at = (uint (va_xres fb) div 2, uint (va_yres fb) div 2),
     pd_down = [False, False], pd_shown = [Clear [False, False]]\<rparr>"

text \<open>What a picture is on the screen.\<close>

definition set_active :: "ts_button \<Rightarrow> bool \<Rightarrow> ts_button" where
  "set_active b on = b\<lparr>bt_flags := if on then BUTTON_ACTIVE else 0\<rparr>"

fun paint_picture :: "fbinfo \<Rightarrow> picture \<Rightarrow> u8 list \<Rightarrow> ts_fault + u8 list" where
  "paint_picture fb (Clear ds) = ts_test_refresh fb (map2 set_active (start_buttons fb) ds)"
| "paint_picture fb (Button i on) = button_draw fb (set_active (start_buttons fb ! i) on)"
| "paint_picture fb (Stroke x y x' y') = line fb x y x' y' 2"

subsection \<open>The layout\<close>

definition screen_ok :: "fbinfo \<Rightarrow> bool" where
  "screen_ok fb \<longleftrightarrow> fb_ok fb \<and> va_xres fb < 0x3ffffff0 \<and> va_yres fb < 0x3ffffff0"

lemma sint_small: "0 \<le> i \<Longrightarrow> i < 0x80000000 \<Longrightarrow> uint (w :: u32) = i \<Longrightarrow> sint w = i"
  by (simp add: sint_uint signed_take_bit_int_eq_self)

lemma sint_minus:
  assumes "0 \<le> i" "i \<le> uint (a :: u32)" "uint a < 0x80000000"
  shows "sint (a - word_of_int i) = uint a - i"
proof -
  have "uint (word_of_int i :: u32) = i" using assms by (simp add: uint_word_of_int_eq take_bit_int_eq_self)
  then have "uint (a - word_of_int i) = uint a - i"
    using assms by (simp add: uint_word_arith_bintrs(2) take_bit_int_eq_self)
  then show ?thesis using assms by (intro sint_small) simp_all
qed

lemma start_buttons_at:
  assumes "va_xres fb < 0x3ffffff0"
  shows "start_buttons fb = (let W = uint (va_xres fb); w = W div 4 in
    [\<lparr>bt_x = w - w div 2, bt_y = 10, bt_w = w, bt_h = 20, bt_text = ''Drag'', bt_flags = 0\<rparr>,
     \<lparr>bt_x = 3 * W div 4 - w div 2, bt_y = 10, bt_w = w, bt_h = 20, bt_text = ''Draw'', bt_flags = 0\<rparr>])"
proof -
  define W where "W = uint (va_xres fb)"
  have W: "0 \<le> W" "W < 0x3ffffff0" using assms by (simp_all add: W_def word_less_def)
  define w where "w = W div 4"
  have w: "0 \<le> w" "4 * w \<le> W" "W < 4 * w + 4" unfolding w_def using W by linarith+
  have q: "uint (va_xres fb div 4) = w" by (simp add: uint_div_distrib w_def W_def)
  have sw: "sint (va_xres fb div 4) = w" using q w W by (intro sint_small) linarith+
  have h: "c_div w 2 = w div 2" using w by (simp add: c_div_nonneg)
  have "uint (3 * va_xres fb) = 3 * W"
    using W by (simp add: uint_word_arith_bintrs(3) take_bit_int_eq_self flip: W_def)
  then have t: "uint ((3 * va_xres fb) div 4) = 3 * W div 4" by (simp add: uint_div_distrib)
  have "sint (va_xres fb div 4 - word_of_int (w div 2)) = w - w div 2"
    using sint_minus [of "w div 2" "va_xres fb div 4"] q w W by linarith
  moreover have "sint ((3 * va_xres fb) div 4 - word_of_int (w div 2)) = 3 * W div 4 - w div 2"
    using sint_minus [of "w div 2" "(3 * va_xres fb) div 4"] t w W by linarith
  ultimately show ?thesis
    unfolding start_buttons_def Let_def sw h W_def [symmetric] w_def [symmetric] by simp
qed

lemma button_at:
  assumes "va_xres fb < 0x3ffffff0" "i < 2"
  defines "b \<equiv> start_buttons fb ! i"
  shows "places fb ! i = (bt_x b, 10, bt_w b, 20)" "bt_y b = 10" "bt_h b = 20" "bt_flags b = 0"
    "0 \<le> bt_x b" "0 \<le> bt_w b" "bt_x b + bt_w b < 0x3ffffff0"
proof -
  define W where "W = uint (va_xres fb)"
  have W: "0 \<le> W" "W < 0x3ffffff0" using assms(1) by (simp_all add: W_def word_less_def)
  have i: "i = 0 \<or> i = 1" using assms(2) by auto
  then show "places fb ! i = (bt_x b, 10, bt_w b, 20)" "bt_y b = 10" "bt_h b = 20" "bt_flags b = 0"
    by (auto simp: b_def start_buttons_at [OF assms(1)] places_def Let_def)
  have "b = start_buttons fb ! 0 \<or> b = start_buttons fb ! 1" using i by (auto simp: b_def)
  then have "bt_w b = W div 4" "bt_x b = W div 4 - W div 4 div 2 \<or> bt_x b = 3 * W div 4 - W div 4 div 2"
    by (auto simp: start_buttons_at [OF assms(1)] Let_def W_def)
  then show "0 \<le> bt_x b" "0 \<le> bt_w b" "bt_x b + bt_w b < 0x3ffffff0" using W by linarith+
qed

lemma button_inside_within:
  assumes "va_xres fb < 0x3ffffff0" "i < 2"
  shows "button_inside (set_active (start_buttons fb ! i) on) v = within (places fb ! i) v"
proof -
  note b = button_at [OF assms]
  have "wrap32 (bt_x (start_buttons fb ! i) + bt_w (start_buttons fb ! i)) = bt_x (start_buttons fb ! i) + bt_w (start_buttons fb ! i)"
    using b(5-7) by (intro wrap32_id) (simp add: in_s32_def)
  then show ?thesis by (auto simp: b(1-3) button_inside_def set_active_def within_def in_s32_def)
qed

subsection \<open>Nothing is drawn outside the mapping\<close>

lemma draws_inside: "fb_ok fb \<Longrightarrow> (\<And>f. f \<in> set fs \<Longrightarrow> stays_inside (fb_size fb) f) \<Longrightarrow> stays_inside (fb_size fb) (draws fs)"
  using inside.P_draws [of fs fb] by blast

lemma fillrect_inside:
  assumes "fb_ok fb" "colour_ok c" "in_s32 x1" "in_s32 y1" "in_s32 x2" "in_s32 y2"
  shows "stays_inside (fb_size fb) (fillrect fb x1 y1 x2 y2 c)"
proof -
  let ?ps = "rect_points (clipped (va_xres fb) (min x1 x2)) (clipped (va_yres fb) (min y1 y2))
      (clipped (va_xres fb) (max x1 x2)) (clipped (va_yres fb) (max y1 y2))"
  have "in_s32 (clipped (va_xres fb) i)" "in_s32 (clipped (va_yres fb) i)" for i
    using assms(1) by (simp_all add: fb_ok_def clipped_s32)
  then have "\<forall>(x, y) \<in> set ?ps. in_s32 x \<and> in_s32 y" by (intro rect_points_s32)
  then have "stays_inside (fb_size fb) (pixels fb c ?ps)"
    unfolding pixels_def by (intro draws_inside [OF assms(1)]) (auto intro!: pixel_inside assms(1,2))
  moreover have "fillrect fb x1 y1 x2 y2 c = pixels fb c ?ps" using fillrect_pixels [OF assms] by (intro ext)
  ultimately show ?thesis by simp
qed

lemma string_inside: "fb_ok fb \<Longrightarrow> colour_ok c \<Longrightarrow> stays_inside (fb_size fb) (put_string_center fb x y t c)"
  unfolding put_string_center_def using inside.P_put_string [OF in_s32_wrap32] by blast

lemma colours_ok: "colour_ok 0" "colour_ok 1" "colour_ok 2" "colour_ok 4" "colour_ok 5"
  by (simp_all add: plain_colour)

lemma button_colours: "i < 6 \<Longrightarrow> colour_ok (button_palette ! i)"
  by (auto simp: button_palette_def less_Suc_eq eval_nat_numeral colours_ok plain_colour)

lemma button_draw_inside:
  assumes "screen_ok fb" "i < 2"
  shows "stays_inside (fb_size fb) (button_draw fb (set_active (start_buttons fb ! i) on))"
proof -
  have ok: "fb_ok fb" "va_xres fb < 0x3ffffff0" using assms(1) by (simp_all add: screen_ok_def)
  note b = button_at [OF ok(2) assms(2)]
  define x w where "x = bt_x (start_buttons fb ! i)" and "w = bt_w (start_buttons fb ! i)"
  have "in_s32 (x + w)" using b(5-7) by (simp add: in_s32_def x_def w_def)
  then have s: "small x" "small 10" "small (wrap32 (wrap32 (x + w) - 1))" "small (wrap32 (wrap32 30 - 1))"
    using b(5-7) by (simp_all add: in_s32_def small_def x_def w_def)
  define k :: nat where "k = (if on then 3 else 0)"
  have c: "colour_ok (button_palette ! k)" "colour_ok (button_palette ! (k + 1))" "colour_ok (button_palette ! (k + 2))"
    by (simp_all add: button_colours k_def)
  have "(if bt_flags (set_active (start_buttons fb ! i) on) AND BUTTON_ACTIVE \<noteq> 0 then 3 else 0) = k"
    by (simp add: k_def set_active_def BUTTON_ACTIVE_def)
  then have "button_draw fb (set_active (start_buttons fb ! i) on) = draws
     [rect fb x 10 (wrap32 (wrap32 (x + w) - 1)) (wrap32 (wrap32 30 - 1)) (button_palette ! k),
      fillrect fb (wrap32 (x + 1)) (wrap32 (10 + 1)) (wrap32 (wrap32 (x + w) - 2)) (wrap32 (wrap32 30 - 2)) (button_palette ! (k + 1)),
      put_string_center fb (wrap32 (x + c_div w 2)) (wrap32 (10 + c_div 20 2)) (bt_text (start_buttons fb ! i)) (button_palette ! (k + 2))]"
    unfolding button_draw_def Let_def by (simp add: set_active_def b(2,3) x_def w_def)
  moreover have "stays_inside (fb_size fb) (rect fb x 10 (wrap32 (wrap32 (x + w) - 1)) (wrap32 (wrap32 30 - 1)) (button_palette ! k))"
    using inside.P_rect [OF s c(1)] ok(1) by blast
  ultimately show ?thesis
    using fillrect_inside [OF ok(1) c(2)] string_inside [OF ok(1) c(3)] by (auto intro!: draws_inside [OF ok(1)])
qed

lemma length_buttons [simp]: "length (start_buttons fb) = 2"
  by (simp add: start_buttons_def Let_def)

abbreviation buttons_of :: "fbinfo \<Rightarrow> bool list \<Rightarrow> ts_button list" where
  "buttons_of fb ds \<equiv> map2 set_active (start_buttons fb) ds"

lemma refresh_inside:
  assumes "screen_ok fb" "length ds = 2"
  shows "stays_inside (fb_size fb) (ts_test_refresh fb (buttons_of fb ds))"
proof -
  have ok: "fb_ok fb" using assms(1) by (simp add: screen_ok_def)
  have "stays_inside (fb_size fb) (button_draw fb b)" if "b \<in> set (buttons_of fb ds)" for b
    using that button_draw_inside [OF assms(1)] assms(2) by (auto simp: in_set_conv_nth)
  moreover have "in_s32 (sint (w :: u32))" for w using sint_ge [of w] sint_lt [of w] by (simp add: in_s32_def)
  moreover have "in_s32 0" by (simp add: in_s32_def)
  ultimately show ?thesis unfolding ts_test_refresh_def
    using ok fillrect_inside string_inside colours_ok by (intro draws_inside [OF ok]) auto
qed

subsection \<open>The program refines the abstract machine\<close>

definition mode_of :: "pad \<Rightarrow> u32" where
  "mode_of pd = (if pd_draws pd then 1 else 0) OR (if pd_pen pd then 0x80000000 else 0)"

definition shows_pad :: "fbinfo \<Rightarrow> u8 list \<Rightarrow> ts_test \<Rightarrow> pad \<Rightarrow> bool" where
  "shows_pad fb mem0 st pd \<longleftrightarrow> length (pd_down pd) = 2 \<and> tt_buttons st = buttons_of fb (pd_down pd) \<and>
     (tt_x st, tt_y st) = pd_at pd \<and> near_screen (tt_x st) \<and> near_screen (tt_y st) \<and> tt_mode st = mode_of pd \<and>
     draws (map (paint_picture fb) (pd_shown pd)) mem0 = Inr (tt_mem st) \<and> length (tt_mem st) = fb_size fb"

lemma mode_bits:
  "(mode_of pd AND 15 = 1) = pd_draws pd" "(mode_of pd = 0x80000001) = (pd_draws pd \<and> pd_pen pd)"
  "mode_of pd OR 0x80000000 = mode_of (pd\<lparr>pd_pen := True\<rparr>)" "mode_of pd AND NOT 0x80000000 = mode_of (pd\<lparr>pd_pen := False\<rparr>)"
  by (cases "pd_draws pd"; cases "pd_pen pd"; simp add: mode_of_def)+

lemma set_active_again [simp]: "bt_flags (set_active b on) AND BUTTON_ACTIVE = 0 \<longleftrightarrow> \<not> on"
  "set_active b on\<lparr>bt_flags := bt_flags (set_active b on) OR BUTTON_ACTIVE\<rparr> = set_active b True"
  "set_active b on\<lparr>bt_flags := bt_flags (set_active b on) AND NOT BUTTON_ACTIVE\<rparr> = set_active b False"
  by (simp_all add: set_active_def BUTTON_ACTIVE_def)

lemma button_handle_pad:
  assumes "va_xres fb < 0x3ffffff0" "i < 2"
  defines "b \<equiv> start_buttons fb ! i"
  shows "button_handle fb (set_active b on) v mem = (let new = (pressure v > 0 \<and> within (places fb ! i) v) in
    if new = on then Inr (0, set_active b on, mem)
    else tbind (button_draw fb (set_active b new) mem) (\<lambda>m. Inr (if pressure v > 0 then 0 else 1, set_active b new, m)))"
  unfolding b_def button_handle_def Let_def button_inside_within [OF assms(1,2)] by auto

lemma paint_more:
  assumes "draws (map (paint_picture fb) shown) mem0 = Inr mem" "length mem = fb_size fb" "stays_inside (fb_size fb) (paint_picture fb p)"
  obtains m where "paint_picture fb p mem = Inr m" "length m = fb_size fb" "draws (map (paint_picture fb) (shown @ [p])) mem0 = Inr m"
  using assms unfolding stays_inside_def by (auto simp: draws_append)

lemma buttons_update:
  "i < 2 \<Longrightarrow> length ds = 2 \<Longrightarrow> (buttons_of fb ds)[i := set_active (start_buttons fb ! i) on] = buttons_of fb (ds[i := on])"
  by (rule nth_equalityI) (auto simp: nth_list_update)

lemma one_button:
  assumes "screen_ok fb" "i < 2" "shows_pad fb mem0 st pd"
  obtains st' where "shows_pad fb mem0 st' (pad_button (places fb ! i) v i pd)" "tt_out st' = tt_out st"
    "\<And>k. handle_buttons fb v i (Suc k) st = handle_buttons fb v (i + 1) k st'"
proof -
  have xr: "va_xres fb < 0x3ffffff0" using assms(1) by (simp add: screen_ok_def)
  let ?b = "start_buttons fb ! i" and ?on = "pd_down pd ! i"
  define new where "new = (pressure v > 0 \<and> within (places fb ! i) v)"
  note r = assms(3) [unfolded shows_pad_def]
  have get: "samp_get (tt_buttons st) i = Inr (set_active ?b ?on)" using r assms(2) by simp
  note h = button_handle_pad [OF xr assms(2), of ?on v "tt_mem st", folded new_def, unfolded Let_def]
  have pb: "pad_button (places fb ! i) v i pd = (if new = ?on then pd
      else if pressure v > 0 then pd\<lparr>pd_down := (pd_down pd)[i := new], pd_shown := pd_shown pd @ [Button i new]\<rparr>
      else pd\<lparr>pd_down := (pd_down pd)[i := new], pd_draws := (i = 1),
        pd_shown := (pd_shown pd @ [Button i new]) @ [Clear ((pd_down pd)[i := new])], pd_pen := False\<rparr>)"
    unfolding pad_button_def new_def by (simp add: Let_def)
  show thesis
  proof (cases "new = ?on")
    case True
    have "(tt_buttons st)[i := set_active ?b ?on] = tt_buttons st" using r buttons_update [OF assms(2)] by simp
    with True show thesis using assms(3) get h by (intro that [of st]) (simp_all add: pb)
  next
    case False
    obtain m where m: "button_draw fb (set_active ?b new) (tt_mem st) = Inr m" "length m = fb_size fb"
      "draws (map (paint_picture fb) (pd_shown pd @ [Button i new])) mem0 = Inr m"
      using paint_more [of fb "pd_shown pd" mem0 "tt_mem st" "Button i new"] r button_draw_inside [OF assms(1,2)] by auto
    let ?ds = "(pd_down pd)[i := new]"
    have up: "(tt_buttons st)[i := set_active ?b new] = buttons_of fb ?ds" using r buttons_update [OF assms(2)] by simp
    show thesis
    proof (cases "pressure v > 0")
      case pressed: True
      let ?st = "st\<lparr>tt_buttons := buttons_of fb ?ds, tt_mem := m\<rparr>"
      have "shows_pad fb mem0 ?st (pad_button (places fb ! i) v i pd)"
        using False pressed r m by (simp add: shows_pad_def pb mode_of_def)
      then show thesis using False pressed get h m(1) up by (intro that [of ?st]) simp_all
    next
      case released: False
      obtain m' where m': "ts_test_refresh fb (buttons_of fb ?ds) m = Inr m'" "length m' = fb_size fb"
        "draws (map (paint_picture fb) ((pd_shown pd @ [Button i new]) @ [Clear ?ds])) mem0 = Inr m'"
        using paint_more [OF m(3,2), of "Clear ?ds"] refresh_inside [OF assms(1), of ?ds] r by auto
      let ?st = "st\<lparr>tt_buttons := buttons_of fb ?ds, tt_mode := of_nat i, tt_mem := m'\<rparr>"
      have "i = 0 \<or> i = 1" using assms(2) by auto
      then have "shows_pad fb mem0 ?st (pad_button (places fb ! i) v i pd)"
        using False released r m' by (auto simp: shows_pad_def pb mode_of_def)
      then show thesis using False released get h m(1) m'(1) up assms(2) by (intro that [of ?st]) simp_all
    qed
  qed
qed

lemma pad_pen_shows:
  assumes "screen_ok fb" "shows_pad fb mem0 st pd" "near_screen (ts_x v)" "near_screen (ts_y v)"
  shows "\<exists>st'. shows_pad fb mem0 st' (pad_pen v pd) \<and> tt_out st' = tt_out st @ [v] \<and>
    (let st2 = st\<lparr>tt_out := tt_out st @ [v]\<rparr> in
     if pressure v > 0
     then tbind (if tt_mode st2 = 0x80000001
         then line fb (tt_x st2) (tt_y st2) (ts_x v) (ts_y v) 2 (tt_mem st2) else Inr (tt_mem st2)) (\<lambda>m.
       Inr (st2\<lparr>tt_mem := m, tt_x := ts_x v, tt_y := ts_y v, tt_mode := tt_mode st2 OR 0x80000000\<rparr>))
     else Inr (st2\<lparr>tt_mode := tt_mode st2 AND NOT 0x80000000\<rparr>)) = Inr st'"
proof (cases "pressure v > 0")
  case False
  then show ?thesis
    using assms(2) by (intro exI [of _ "st\<lparr>tt_out := tt_out st @ [v], tt_mode := tt_mode st AND NOT 0x80000000\<rparr>"])
      (simp add: shows_pad_def pad_pen_def mode_bits(4) [simplified])
next
  case True
  note r = assms(2) [unfolded shows_pad_def]
  have at: "fst (pd_at pd) = tt_x st" "snd (pd_at pd) = tt_y st" using r by (metis fst_conv, metis snd_conv)
  have sm: "small (tt_x st)" "small (tt_y st)" "small (ts_x v)" "small (ts_y v)"
    using r assms(3,4) by (simp_all add: near_screen_def small_def)
  have "stays_inside (fb_size fb) (paint_picture fb (Stroke (tt_x st) (tt_y st) (ts_x v) (ts_y v)))"
    using inside.P_line [OF sm colours_ok(3)] assms(1) by (simp add: screen_ok_def)
  moreover define str where "str = (if pd_draws pd \<and> pd_pen pd then [Stroke (tt_x st) (tt_y st) (ts_x v) (ts_y v)] else [])"
  ultimately obtain m where m: "length m = fb_size fb"
    "(if tt_mode st = 0x80000001 then line fb (tt_x st) (tt_y st) (ts_x v) (ts_y v) 2 (tt_mem st) else Inr (tt_mem st)) = Inr m"
    "draws (map (paint_picture fb) (pd_shown pd @ str)) mem0 = Inr m"
    using paint_more [of fb "pd_shown pd" mem0 "tt_mem st" "Stroke (tt_x st) (tt_y st) (ts_x v) (ts_y v)"] r
    by (cases "pd_draws pd \<and> pd_pen pd") (auto simp: mode_bits)
  let ?st = "st\<lparr>tt_out := tt_out st @ [v], tt_mem := m, tt_x := ts_x v, tt_y := ts_y v, tt_mode := tt_mode st OR 0x80000000\<rparr>"
  have "pad_pen v pd = pd\<lparr>pd_shown := pd_shown pd @ str, pd_at := (ts_x v, ts_y v), pd_pen := True\<rparr>"
    using True by (simp add: pad_pen_def at str_def)
  then have "shows_pad fb mem0 ?st (pad_pen v pd)"
    using r m(1,3) assms(3,4) by (simp add: shows_pad_def mode_bits(3)) (simp add: mode_of_def)
  then show ?thesis using True m(2) by (intro exI [of _ ?st]) (auto simp: Let_def split: if_splits)
qed

lemma take_sample_shows:
  assumes "screen_ok fb" "shows_pad fb mem0 st pd" "near_screen (ts_x v)" "near_screen (ts_y v)"
  obtains st' where "take_sample fb v st = Inr st'" "shows_pad fb mem0 st' (pad_sample (places fb) v pd)" "tt_out st' = tt_out st @ [v]"
proof -
  obtain st1 where st1: "shows_pad fb mem0 st1 (pad_button (places fb ! 0) v 0 pd)" "tt_out st1 = tt_out st"
    "\<And>k. handle_buttons fb v 0 (Suc k) st = handle_buttons fb v (0 + 1) k st1"
    using one_button [OF assms(1) _ assms(2), of 0 v] by auto
  obtain st2 where st2: "shows_pad fb mem0 st2 (pad_button (places fb ! 1) v 1 (pad_button (places fb ! 0) v 0 pd))" "tt_out st2 = tt_out st1"
    "\<And>k. handle_buttons fb v 1 (Suc k) st1 = handle_buttons fb v (1 + 1) k st2"
    using one_button [OF assms(1) _ st1(1), of 1 v] by auto
  have "handle_buttons fb v 0 2 st = Inr st2"
    using st1(3) [of 1] st2(3) [of 0] by (simp del: handle_buttons.simps(2) add: numeral_2_eq_2)
  then show thesis
    using pad_pen_shows [OF assms(1) st2(1) assms(3,4)] that st1(2) st2(2)
    unfolding take_sample_def pad_sample_def by auto
qed

text \<open>What the device delivers in a sequence of reads: a sample, or nothing.\<close>

fun serves :: "'s reader \<Rightarrow> 's \<Rightarrow> ts_sample option list \<Rightarrow> 's \<Rightarrow> bool" where
  "serves rd s [] s' \<longleftrightarrow> s' = s"
| "serves rd s (e # es) s' \<longleftrightarrow> (\<exists>s1. serves rd s1 es s' \<and>
     (\<forall>b. \<exists>b'. rd s [b] 1 = Inr (case e of None \<Rightarrow> (0, [b'], s1) | Some v \<Rightarrow> (1, [v], s1))))"

lemma cross_hidden:
  assumes "screen_ok fb" "shows_pad fb mem0 st pd"
  obtains st1 where "toggle_cross fb st = Inr st1" "toggle_cross fb st1 = Inr st"
proof (cases "tt_mode st AND 15 = 1")
  case False
  obtain m where m: "put_cross fb (tt_x st) (tt_y st) (2 OR XORMODE) (tt_mem st) = Inr m"
    "put_cross fb (tt_x st) (tt_y st) (2 OR XORMODE) m = Inr (tt_mem st)"
    using cross_twice [of fb "tt_mem st" "tt_x st" "tt_y st"] assms unfolding screen_ok_def shows_pad_def by blast
  show thesis using False m by (intro that [of "st\<lparr>tt_mem := m\<rparr>"]) (simp_all add: toggle_cross_def)
qed (use that [of st] in \<open>simp add: toggle_cross_def\<close>)

lemma rounds_show:
  assumes "screen_ok fb"
  shows "shows_pad fb mem0 st pd \<Longrightarrow> serves rd s es s' \<Longrightarrow> \<forall>v. Some v \<in> set es \<longrightarrow> near_screen (ts_x v) \<and> near_screen (ts_y v) \<Longrightarrow>
    \<exists>st'. ts_test_rounds fb rd junk (length es) (st, s) = Inr (Went (st', s')) \<and>
      shows_pad fb mem0 st' (fold (pad_sample (places fb)) (List.map_filter id es) pd) \<and>
      tt_out st' = tt_out st @ List.map_filter id es"
proof (induction es arbitrary: st pd s)
  case (Cons e es)
  obtain st1 where c: "toggle_cross fb st = Inr st1" "toggle_cross fb st1 = Inr st"
    by (rule cross_hidden [OF assms Cons.prems(1)])
  obtain s1 b' where s1: "serves rd s1 es s'" "rd s [junk] 1 = Inr (case e of None \<Rightarrow> (0, [b'], s1) | Some v \<Rightarrow> (1, [v], s1))"
    using Cons.prems(2) unfolding serves.simps by blast
  show ?case
  proof (cases e)
    case None
    then have "ts_test_step fb rd junk (st, s) = Inr (Went (st, s1))" using c s1(2) by (simp add: ts_test_step_def)
    then show ?thesis using Cons.IH [OF Cons.prems(1) s1(1)] Cons.prems(3) None by (simp add: map_filter_simps)
  next
    case (Some v)
    obtain st2 where st2: "take_sample fb v st = Inr st2" "shows_pad fb mem0 st2 (pad_sample (places fb) v pd)" "tt_out st2 = tt_out st @ [v]"
      using take_sample_shows [OF assms Cons.prems(1)] Cons.prems(3) Some by auto
    have "ts_test_step fb rd junk (st, s) = Inr (Went (st2, s1))" using c s1(2) Some st2(1) by (simp add: ts_test_step_def)
    then show ?thesis using Cons.IH [OF st2(2) s1(1)] Cons.prems(3) Some st2(3) by (simp add: map_filter_simps)
  qed
qed (simp add: map_filter_simps)

lemma start_shows:
  assumes "screen_ok fb" "length mem = fb_size fb"
  obtains st where "ts_test_start fb mem = Inr st" "shows_pad fb mem st (pad_start fb)" "tt_out st = []"
proof -
  have b: "buttons_of fb [False, False] = start_buttons fb"
    using start_buttons_at [of fb] assms(1) by (simp add: screen_ok_def Let_def set_active_def)
  obtain m where m: "ts_test_refresh fb (start_buttons fb) mem = Inr m" "length m = fb_size fb"
    using refresh_inside [OF assms(1), of "[False, False]"] assms(2) unfolding b stays_inside_def by auto
  have half: "sint (w div 2) = uint w div 2 \<and> near_screen (uint w div 2)" if "w < 0x3ffffff0" for w :: u32
  proof -
    have "0 \<le> uint w" "uint w < 0x3ffffff0" using that by (simp_all add: word_less_def)
    then have w: "0 \<le> uint w div 2" "uint w div 2 < 0x3ffffff0" "- 0x3ffffff0 \<le> uint w div 2" by linarith+
    then show ?thesis using sint_small [of "uint w div 2" "w div 2"] by (simp add: uint_div_distrib near_screen_def)
  qed
  show thesis
    using m assms(1) half [of "va_xres fb"] half [of "va_yres fb"]
    by (intro that [of "\<lparr>tt_x = uint (va_xres fb) div 2, tt_y = uint (va_yres fb) div 2, tt_mode = 0,
          tt_buttons = start_buttons fb, tt_mem = m, tt_out = []\<rparr>"])
      (simp_all add: ts_test_start_def shows_pad_def pad_start_def b mode_of_def screen_ok_def)
qed

text \<open>
  C23. The test program refines the abstract pad: for every sequence of reads, with or without a sample, no access leaves
  the frame buffer, every sample is printed, the cross leaves no trace, and the screen shows exactly the
  pictures of the pad: the cleared screen, the buttons as they are pressed and let go, and in drawing mode
  the strokes between successive samples of a touch.
\<close>

theorem ts_test_refines:
  assumes "screen_ok fb" "length mem = fb_size fb" "serves rd s es s'"
    and "\<forall>v. Some v \<in> set es \<longrightarrow> near_screen (ts_x v) \<and> near_screen (ts_y v)"
  shows "\<exists>st0 st. ts_test_start fb mem = Inr st0 \<and> ts_test_rounds fb rd junk (length es) (st0, s) = Inr (Went (st, s')) \<and>
    tt_out st = List.map_filter id es \<and>
    (let pd = fold (pad_sample (places fb)) (List.map_filter id es) (pad_start fb) in
     draws (map (paint_picture fb) (pd_shown pd)) mem = Inr (tt_mem st) \<and> (tt_x st, tt_y st) = pd_at pd \<and>
     (tt_mode st AND 15 = 1) = pd_draws pd)"
proof -
  obtain st0 where st0: "ts_test_start fb mem = Inr st0" "shows_pad fb mem st0 (pad_start fb)" "tt_out st0 = []"
    by (rule start_shows [OF assms(1,2)])
  from rounds_show [OF assms(1) st0(2) assms(3,4), of junk] obtain st
    where "ts_test_rounds fb rd junk (length es) (st0, s) = Inr (Went (st, s'))" "tt_out st = List.map_filter id es"
      "shows_pad fb mem st (fold (pad_sample (places fb)) (List.map_filter id es) (pad_start fb))"
    unfolding st0(3) append_Nil by blast
  then show ?thesis using st0(1) unfolding shows_pad_def Let_def by (intro exI [of _ st0] exI [of _ st]) (simp add: mode_bits)
qed

subsection \<open>What the pad does\<close>

text \<open>The two buttons are apart, and a button is down exactly while the pen is on it: never both.\<close>

lemma places_disjoint: "\<not> (within (places fb ! 0) v \<and> within (places fb ! 1) v)"
proof -
  define W where "W = uint (va_xres fb)"
  have "3 * W div 4 - W div 4 div 2 \<ge> W div 4 - W div 4 div 2 + W div 4" if "0 \<le> W" using that by linarith
  moreover have "0 \<le> W" by (simp add: W_def)
  ultimately show ?thesis unfolding within_def places_def Let_def W_def [symmetric] by simp
qed

lemma pad_button_down: "i < length (pd_down pd) \<Longrightarrow>
    pd_down (pad_button p v i pd) = (pd_down pd)[i := pressure v > 0 \<and> within p v]"
  by (auto simp: pad_button_def Let_def)

lemma pad_sample_down:
  assumes "length (pd_down pd) = 2"
  shows "pd_down (pad_sample ps v pd) = [pressure v > 0 \<and> within (ps ! 0) v, pressure v > 0 \<and> within (ps ! 1) v]"
proof -
  obtain a b where "pd_down pd = [a, b]" using assms by (auto simp: length_Suc_conv numeral_2_eq_2)
  then show ?thesis by (simp add: pad_sample_def pad_pen_def pad_button_down)
qed

definition outside :: "fbinfo \<Rightarrow> ts_sample \<Rightarrow> bool" where
  "outside fb v \<longleftrightarrow> \<not> within (places fb ! 0) v \<and> \<not> within (places fb ! 1) v"

lemma pad_sample_outside:
  assumes "pd_down pd = [False, False]" "pressure v > 0" "outside fb v"
  shows "pad_sample (places fb) v pd = pad_pen v pd"
  using assms by (simp add: pad_sample_def pad_button_def outside_def Let_def)

lemma pad_sample_up:
  "pd_down pd = [False, False] \<Longrightarrow> pressure up = 0 \<Longrightarrow> pad_sample ps up pd = pd\<lparr>pd_pen := False\<rparr>"
  by (simp add: pad_sample_def pad_button_def pad_pen_def)

text \<open>
  A touch that begins and stays outside the buttons adds the strokes between its successive samples in drawing mode and
  nothing in dragging mode; the mode stays.
\<close>

fun polyline :: "ts_sample list \<Rightarrow> picture list" where
  "polyline (u # v # vs) = Stroke (ts_x u) (ts_y u) (ts_x v) (ts_y v) # polyline (v # vs)"
| "polyline vs = []"

theorem pad_touch:
  assumes "pd_down pd = [False, False]" "\<not> pd_pen pd" "\<forall>v \<in> set (u # vs). pressure v > 0 \<and> outside fb v" "pressure up = 0"
  shows "let pd' = fold (pad_sample (places fb)) (u # vs @ [up]) pd in
    pd_shown pd' = pd_shown pd @ (if pd_draws pd then polyline (u # vs) else []) \<and> pd_draws pd' = pd_draws pd \<and>
    pd_at pd' = (ts_x (List.last (u # vs)), ts_y (List.last (u # vs))) \<and> pd_down pd' = [False, False] \<and> \<not> pd_pen pd'"
proof -
  have moves: "fold (pad_sample (places fb)) vs (pad_pen u pd) = (pad_pen u pd)\<lparr>pd_at := (ts_x (List.last (u # vs)), ts_y (List.last (u # vs))),
      pd_shown := pd_shown (pad_pen u pd) @ (if pd_draws pd then polyline (u # vs) else [])\<rparr>"
    if "pd_down pd = [False, False]" "\<forall>v \<in> set (u # vs). pressure v > 0 \<and> outside fb v" for u vs pd
    using that
  proof (induction vs arbitrary: u pd)
    case (Cons v vs)
    have "pad_sample (places fb) v (pad_pen u pd) = pad_pen v (pad_pen u pd)"
      using Cons.prems by (intro pad_sample_outside) (simp_all add: pad_pen_def)
    then show ?case using Cons.IH [of "pad_pen u pd" v] Cons.prems by (simp add: pad_pen_def)
  qed (simp add: pad_pen_def)
  have "pad_sample (places fb) u pd = pad_pen u pd" using assms by (intro pad_sample_outside) simp_all
  then have "fold (pad_sample (places fb)) (u # vs @ [up]) pd = pad_sample (places fb) up (fold (pad_sample (places fb)) vs (pad_pen u pd))"
    by (simp only: fold.simps fold_append comp_apply id_apply)
  also have "\<dots> = (fold (pad_sample (places fb)) vs (pad_pen u pd))\<lparr>pd_pen := False\<rparr>"
    using moves [OF assms(1,3)] assms(1,4) by (intro pad_sample_up) (simp_all add: pad_pen_def)
  finally show ?thesis
    unfolding Let_def moves [OF assms(1,3)] using assms(1-3) by (simp add: pad_pen_def)
qed

text \<open>A click on a button, outside a touch: the screen is cleared and the button chooses the mode.\<close>

theorem pad_click:
  assumes "pd_down pd = [False, False]" "\<not> pd_pen pd" "i < 2" "pressure v > 0" "within (places fb ! i) v" "pressure up = 0"
  shows "let pd' = fold (pad_sample (places fb)) [v, up] pd in
    pd_draws pd' = (i = 1) \<and> pd_shown pd' = pd_shown pd @ [Button i True, Button i False, Clear [False, False]] \<and>
    pd_down pd' = [False, False] \<and> \<not> pd_pen pd'"
proof -
  let ?down = "[False, False][i := True]"
  have i: "i = 0 \<or> i = 1" using assms(3) by auto
  have "pad_button (places fb ! 1) v 1 (pad_button (places fb ! 0) v 0 pd) =
      pd\<lparr>pd_down := ?down, pd_shown := pd_shown pd @ [Button i True]\<rparr>"
    using i assms(1,4,5) places_disjoint [of fb v] by (elim disjE) (simp_all add: pad_button_def)
  then have press: "pad_sample (places fb) v pd = pd\<lparr>pd_down := ?down, pd_shown := pd_shown pd @ [Button i True],
      pd_at := (ts_x v, ts_y v), pd_pen := True\<rparr>"
    using assms(2,4) unfolding pad_sample_def by (simp add: pad_pen_def)
  have "pad_button (places fb ! 1) up 1 (pad_button (places fb ! 0) up 0 q) =
      q\<lparr>pd_down := [False, False], pd_shown := pd_shown q @ [Button i False, Clear [False, False]], pd_draws := (i = 1), pd_pen := False\<rparr>"
    if "pd_down q = ?down" for q
    using i assms(6) that by (elim disjE) (simp_all add: pad_button_def)
  from this [of "pad_sample (places fb) v pd"] press assms(6) show ?thesis
    unfolding fold.simps Let_def by (simp add: pad_sample_def [of _ up] pad_pen_def)
qed

theorem pad_touch_witness:
  "pd_shown (fold (pad_sample (places demo_fb)) [touch_at 0 0 1, touch_at 2 1 1, touch_at 2 1 0] (pad_start demo_fb\<lparr>pd_draws := True\<rparr>)) =
    [Clear [False, False], Stroke 0 0 2 1]"
  using pad_touch [of "pad_start demo_fb\<lparr>pd_draws := True\<rparr>" "touch_at 0 0 1" "[touch_at 2 1 1]" demo_fb "touch_at 2 1 0"]
  by (simp add: Let_def pad_start_def touch_at_def outside_def within_def places_def demo_fb_def)

theorem pad_click_witness:
  "pd_draws (fold (pad_sample (places demo_fb)) [touch_at 3 12 1, touch_at 3 12 0] (pad_start demo_fb))"
  using pad_click [of "pad_start demo_fb" 1 "touch_at 3 12 1" demo_fb "touch_at 3 12 0"]
  by (simp add: Let_def pad_start_def touch_at_def within_def places_def demo_fb_def)

lemma feed_serves: "serves feed vs (map Some vs) []"
  by (induction vs) (auto simp: feed_def)

theorem ts_test_refines_witness:
  "\<exists>st0 st. ts_test_start demo_fb (replicate 16 7) = Inr st0 \<and>
    ts_test_rounds demo_fb feed (touch_at 0 0 0) 2 (st0, [touch_at 3 12 1, touch_at 3 12 0]) = Inr (Went (st, [])) \<and>
    tt_out st = [touch_at 3 12 1, touch_at 3 12 0] \<and> tt_mode st AND 15 = 1"
proof -
  let ?vs = "[touch_at 3 12 1, touch_at 3 12 0]"
  have ok: "screen_ok demo_fb" using demo_fb_ok by (simp add: screen_ok_def demo_fb_def)
  have near: "\<forall>v. Some v \<in> set (map Some ?vs) \<longrightarrow> near_screen (ts_x v) \<and> near_screen (ts_y v)"
    by (auto simp: near_screen_def touch_at_def)
  have vs: "List.map_filter id (map Some ?vs) = ?vs" "length (map Some ?vs) = 2" by (simp_all add: map_filter_simps)
  have "length (replicate 16 (7 :: u8)) = fb_size demo_fb" by (simp add: demo_size)
  from ts_test_refines [OF ok this feed_serves near, of "touch_at 0 0 0"]
  obtain st0 st where "ts_test_start demo_fb (replicate 16 7) = Inr st0"
    "ts_test_rounds demo_fb feed (touch_at 0 0 0) 2 (st0, ?vs) = Inr (Went (st, []))" "tt_out st = ?vs"
    "(tt_mode st AND 15 = 1) = pd_draws (fold (pad_sample (places demo_fb)) ?vs (pad_start demo_fb))"
    unfolding vs Let_def by blast
  moreover have "pd_draws (fold (pad_sample (places demo_fb)) [touch_at 3 12 1, touch_at 3 12 0] (pad_start demo_fb))"
    by (simp add: pad_sample_def pad_button_def pad_pen_def pad_start_def touch_at_def within_def places_def demo_fb_def)
  ultimately show ?thesis by blast
qed

end
