(* ===== verification/Spec2Isabelle.thy ===== *)
theory Spec2Isabelle
  imports Led Keys LcdStages TouchStages Mouse Ramblock Flash Net I2c Cdev Dma TsTypes TsPath FbScreen TsHarvest TsCalibrate TsTest
begin

text \<open>
  This development models the drivers for the mini2440 board (S3C2440, Linux 2.6.22) under \<^verbatim>\<open>src/\<close> and the
  touch screen library \<^verbatim>\<open>src/11th_ts/tslib\<close> that runs on top of one of them.

  \<^bold>\<open>The program.\<close> Every directory of \<^verbatim>\<open>src/\<close> holds one kernel module, in its final version and often with
  earlier stages in subdirectories. A module registers with the kernel when it is loaded, serves
  requests (file operations, interrupts, block requests, network packets), drives registers of the chip
  through \<^verbatim>\<open>ioremap\<close>, and gives everything back when it is unloaded. The modules share no state; they
  meet the rest of the system at the kernel interface. The touch screen driver \<^verbatim>\<open>s3c_ts.c\<close> reports to the input
  layer, from which the module \<^verbatim>\<open>input-raw.c\<close> of tslib reads events; tslib passes the samples through a
  configurable chain of filters to the application.

  \<^bold>\<open>The model of a driver.\<close> Kernel and hardware are not part of the repository: they are an environment
  \<open>env\<close> that answers the \<open>n\<close>-th request with an arbitrary value (theory \<open>Kernel\<close>). A driver is a program in
  the state monad over a record with its static variables and the trace of all its requests, register
  accesses and dereferences. A monitor on the trace keeps the kernel objects that are held and the
  violations of the interface (a release of something not held, a register outside every mapping, an
  object that is not allocated). What a theorem relies on is a hypothesis on the answers, such as
  \<open>always env f r\<close> or a predicate \<open>granted\<close>, with a witness that gives a concrete environment. Blocking calls are
  cut at \<^verbatim>\<open>wait_event_interruptible\<close>, and the pieces are interleaved with interrupts by inductive step
  relations (\<open>key_step\<close>, \<open>dma_step\<close>) or lists of events (\<open>ts_conc\<close>, \<open>mouse_conc\<close>).

  \<^bold>\<open>The model of tslib.\<close> A module is a function from its state, the array of the caller and the number of samples
  asked for to a fault or a result (theory \<open>Tslib\<close>); the faults are what C leaves undefined: an access
  outside an array, a null pointer, a division by zero, a loop that is never left. Coordinates are
  integers wrapped to 32 bits where the C code computes, pressures are words. Modules in memory are a heap
  of cells linked by \<open>mi_next\<close>, so that the defects of linking are visible.

  \<^bold>\<open>Theories.\<close>
  \<^item> \<open>Prelude\<close>: words, lists, the state monad, constants. \<open>Kernel\<close>: environment, trace, monitor, the locales
    \<open>kmodule\<close> and \<open>safe_kmodule\<close> (contract of init, operations and exit). \<open>Irq\<close>: tables of interrupt lines. \<open>Gpio\<close>: fields of
    port registers. \<open>Simulation\<close>: the locale \<open>simulation\<close> between handlers and an abstract machine.
  \<^item> \<open>Led\<close>: \<^verbatim>\<open>first_drv/first_drv.c\<close>, \<^verbatim>\<open>9th_bus_drv_dev/led_drv.c\<close>, \<^verbatim>\<open>led_dev.c\<close>, \<^verbatim>\<open>test.c\<close>. Pins become outputs and
    nothing else changes, the four LEDs follow the value written, resources are balanced.
  \<^item> \<open>Keys\<close>: \<^verbatim>\<open>second_drv.c\<close>, \<^verbatim>\<open>third_drv.c\<close>, \<^verbatim>\<open>forth_drv.c\<close>, \<^verbatim>\<open>fifth_drv.c\<close>. What a read delivers in every interleaving, poll,
    the lost key, interrupt lines over opens and releases; locales \<open>key_reader\<close> and \<open>irq_user\<close> for the shared code.
  \<^item> \<open>Buttons\<close>: \<^verbatim>\<open>8th_buttons/buttons.c\<close>, debouncing with a timer. \<open>Touch\<close>: \<^verbatim>\<open>11th_ts/s3c_ts.c\<close>, refinement of an abstract
    machine that reports the mean of four conversions. \<open>TouchStages\<close>: the stages \<^verbatim>\<open>1_2th\<close>, \<^verbatim>\<open>3th\<close> and \<^verbatim>\<open>4_7th\<close>,
    the last one refined in the same way. \<open>Mouse\<close>: \<^verbatim>\<open>12th_usbmouse_as_key/usbmouse_as_key.c\<close>.
  \<^item> \<open>Lcd\<close>: \<^verbatim>\<open>10th_lcd/lcd.c\<close>, palette, geometry, resources. \<open>LcdStages\<close>: the stages \<^verbatim>\<open>16bpp\<close>, \<^verbatim>\<open>24bpp\<close>, \<^verbatim>\<open>wds\<close>, \<^verbatim>\<open>nice\<close>.
  \<^item> \<open>Ramblock\<close>: \<^verbatim>\<open>13th_ramblock/ramblock.c\<close>, requests against a disk as a function. \<open>Flash\<close>: \<^verbatim>\<open>14th_nand/s3c_nand.c\<close>,
    \<^verbatim>\<open>15th_nor/s3c_nor.c\<close>. \<open>Net\<close>: \<^verbatim>\<open>16th_virt_net/virt_net.c\<close>. \<open>I2c\<close>: \<^verbatim>\<open>19th_i2c_drv/at24cxx.c\<close>, a byte written is read
    back. \<open>Cdev\<close>: \<^verbatim>\<open>20th_chrdev_another/hello.c\<close> and its first stage. \<open>Dma\<close>: \<^verbatim>\<open>22th_dma/dma.c\<close>.
  \<^item> \<open>Tslib\<close>, \<open>TsParse\<close> (\<^verbatim>\<open>src/ts_parse_vars.c\<close>), \<open>Pthres\<close>, \<open>Variance\<close>, \<open>Dejitter\<close>, \<open>Linear\<close> (with \<^verbatim>\<open>linear-h2200.c\<close>), \<open>TsInput\<close>
    (\<^verbatim>\<open>input-raw.c\<close> and the modules for fixed structures), \<open>TsChain\<close> (open, close, attach, load, configuration,
    read). Every filter is proved to keep the contract \<open>reader\<close> of the module below it; chains that a
    configuration builds therefore never fault. \<open>TsTypes\<close>: coordinates stay in 32 bits through every
    chain (locale \<open>typed_reader\<close>). \<open>TsPath\<close> joins \<open>Touch\<close> and \<open>TsInput\<close>: from the pen to the samples.
  \<^item> \<open>FbUtils\<close>, \<open>FbFont\<close>, \<open>FbScreen\<close>: \<^verbatim>\<open>tests/fbutils.c\<close> and \<^verbatim>\<open>font_8x8.c\<close>, the mapped memory as bytes. The locale \<open>drawing\<close>
    carries a property of pixels to lines, rectangles, crosses and text; it is interpreted twice, for staying inside the
    mapping and for restoring the picture in exclusive-or mode. \<open>FbScreen\<close> opens the screen on the driver of \<open>Lcd\<close>.
  \<^item> \<open>TsGetxy\<close> (\<^verbatim>\<open>tests/testutils.c\<close>): the median of a touch. \<open>TsHarvest\<close> (\<^verbatim>\<open>ts_harvest.c\<close>): the grid of crosses.
    \<open>TsCalibrate\<close> (\<^verbatim>\<open>ts_calibrate.c\<close>): least squares over rational numbers with a parameter for the rounding of the
    floating point unit; the theorems on its result are for exact arithmetic, and lead through the
    calibration file to the module \<^verbatim>\<open>linear\<close>. \<open>TsTest\<close> (\<^verbatim>\<open>ts_test.c\<close>): refinement of a pad with two buttons.

  \<^bold>\<open>Bounds and fuel.\<close> The loop of \<^verbatim>\<open>variance_read\<close> has fuel \<open>3 * nr + 3\<close>; \<open>variance_terminates\<close> shows that it
    returns within it over every module that keeps the contract. \<open>chain_read\<close> has a depth; any depth of at
    least the length of the chain gives the result. Reads of a descriptor are a list of answers; when it is
    used up the next read returns -1, as on a non-blocking descriptor without data. The loops of \<^verbatim>\<open>line\<close> get one
    more than their number of rounds, \<^verbatim>\<open>getxy\<close> the number of samples before and in a touch. The loops of
    \<^verbatim>\<open>pthres\<close>, \<^verbatim>\<open>ts_config\<close> and the drivers are total functions.

  \<^bold>\<open>Not modelled.\<close> \<^verbatim>\<open>14th_nand/mtd-utils-05.07.23\<close> (with zlib) is a third-party package. Of the programs
  under \<^verbatim>\<open>tslib/tests\<close>, the two that print samples, the texts and messages of the others, their signal handlers, and
  floating point infinities. The small test programs beside the drivers only print what they
  read, except \<^verbatim>\<open>9th_bus_drv_dev/test.c\<close>. \<^verbatim>\<open>font_8x16.c\<close> is used by nothing, \<^verbatim>\<open>ts_error.c\<close> formats a message,
  \<^verbatim>\<open>ts_read_raw_module.c\<close> is not compiled. Earlier stages that equal the final driver are covered by it.
\<close>

section \<open>Modules give their resources back\<close>

text \<open>
  The contract of a module that is loaded, used and unloaded: \<open>gives_back\<close> says that whenever the
  kernel granted what \<open>ok\<close> states, the kernel objects after unloading are those from before loading,
  whatever operations ran in between; \<open>keeps_rules\<close> that no rule of the kernel interface was broken.
\<close>

definition gives_back ::
  "(kenv \<Rightarrow> 's kworld_scheme \<Rightarrow> bool) \<Rightarrow> (kenv \<Rightarrow> ('s kworld_scheme, u32) state) \<Rightarrow>
   (kenv \<Rightarrow> 'o \<Rightarrow> ('s kworld_scheme, u32) state) \<Rightarrow> (kenv \<Rightarrow> ('s kworld_scheme, unit) state) \<Rightarrow> bool" where
  "gives_back ok ini opr ext \<longleftrightarrow>
     (\<forall>env s xs. ok env s \<longrightarrow> held (exec (session ini opr ext env xs) s) = held s)"

definition keeps_rules ::
  "(kenv \<Rightarrow> 's kworld_scheme \<Rightarrow> bool) \<Rightarrow> (kenv \<Rightarrow> ('s kworld_scheme, u32) state) \<Rightarrow>
   (kenv \<Rightarrow> 'o \<Rightarrow> ('s kworld_scheme, u32) state) \<Rightarrow> (kenv \<Rightarrow> ('s kworld_scheme, unit) state) \<Rightarrow> bool" where
  "keeps_rules ok ini opr ext \<longleftrightarrow>
     (\<forall>env s xs. ok env s \<longrightarrow> viol (exec (session ini opr ext env xs) s) = viol s)"



end
